(* ===== verification/Prelude.thy ===== *)
theory Prelude
  imports Main "HOL-Library.Word" "HOL-Library.Signed_Division"
begin

text \<open>
  Shared vocabulary of the development: the machine integer types of the C++ sources, the
  small bit helpers of \<^verbatim>\<open>cutils.h\<close> and \<^verbatim>\<open>riscv_cpu.cpp\<close> (\<open>ctz32\<close>, \<open>sext\<close>,
  \<open>get_field1\<close>), typed little-endian access to a byte memory, and the generic lemmas on
  words, masks and byte strings that the component theories use.

  Conventions: \<open>push_bit\<close> is \<open><<\<close>, \<open>drop_bit\<close> is \<open>>>\<close> on an unsigned operand and
  \<open>signed_drop_bit\<close> is \<open>>>\<close> on a signed operand; \<open>ucast\<close> and \<open>scast\<close> are the unsigned
  and the signed integer conversions; \<open>of_bool\<close> is the C conversion of a truth value.
\<close>

unbundle bit_operations_syntax

type_synonym u8 = "8 word"
type_synonym u16 = "16 word"
type_synonym u32 = "32 word"
type_synonym u64 = "64 word"

text \<open>Facts that describe which state components an operation leaves alone.\<close>
named_theorems frame

text \<open>Definitions of small helpers that proofs always unfold.\<close>
named_theorems unfold_helper

section \<open>Bit helpers of the sources\<close>

text \<open>\<^verbatim>\<open>ctz32\<close>: the loop of the source, as a recursion over the bit index.\<close>

function ctz32_from :: "nat \<Rightarrow> u32 \<Rightarrow> nat" where
  "ctz32_from i a =
     (if 32 \<le> i then 32
      else if drop_bit i a AND 1 \<noteq> 0 then i
      else ctz32_from (Suc i) a)"
  by pat_completeness auto

termination by (relation "measure (\<lambda>(i, a). 32 - i)") auto

declare ctz32_from.simps [simp del]

definition ctz32 :: "u32 \<Rightarrow> nat" where
  "ctz32 a = (if a = 0 then 32 else ctz32_from 0 a)"

text \<open>\<^verbatim>\<open>sext(val, n)\<close>: shift the field to the top and back arithmetically.\<close>

definition sext :: "u32 \<Rightarrow> nat \<Rightarrow> u32" where
  "sext val n = signed_drop_bit (32 - n) (push_bit (32 - n) val)"

text \<open>
  \<^verbatim>\<open>get_field1(val, src_pos, dst_pos, dst_pos_max)\<close>. Every call in the sources has
  constant arguments with \<open>dst_pos \<le> dst_pos_max\<close>, so the assertion never fails.
\<close>

definition get_field1 :: "u32 \<Rightarrow> nat \<Rightarrow> nat \<Rightarrow> nat \<Rightarrow> u32" where
  "get_field1 val src_pos dst_pos dst_pos_max =
     (let msk = push_bit dst_pos (push_bit (dst_pos_max - dst_pos + 1) 1 - 1) in
      if src_pos \<le> dst_pos
      then push_bit (dst_pos - src_pos) val AND msk
      else drop_bit (src_pos - dst_pos) val AND msk)"

section \<open>Typed access to byte memory\<close>

text \<open>
  \<open>*(uintN_t *)p\<close> on the (little-endian) host: \<open>n\<close> bytes starting at \<open>p\<close>, least
  significant byte first. Host addresses wrap at 64 bits, as \<open>uintptr_t\<close> arithmetic does.
\<close>

type_synonym hostmem = "u64 \<Rightarrow> u8"

fun load_le :: "nat \<Rightarrow> hostmem \<Rightarrow> u64 \<Rightarrow> u64" where
  "load_le 0 m p = 0"
| "load_le (Suc n) m p = ucast (m p) OR push_bit 8 (load_le n m (p + 1))"

fun store_le :: "nat \<Rightarrow> hostmem \<Rightarrow> u64 \<Rightarrow> u64 \<Rightarrow> hostmem" where
  "store_le 0 m p v = m"
| "store_le (Suc n) m p v = (store_le n m (p + 1) (drop_bit 8 v))(p := ucast v)"

section \<open>Laws of byte memory\<close>

lemma load_le_cong:
  assumes "\<And>i. i < n \<Longrightarrow> m (p + of_nat i) = m' (p + of_nat i)"
  shows "load_le n m p = load_le n m' p"
  using assms
proof (induction n arbitrary: p)
  case (Suc n)
  have "m p = m' p" using Suc.prems [of 0] by simp
  moreover have "load_le n m (p + 1) = load_le n m' (p + 1)"
    by (rule Suc.IH) (use Suc.prems [of "Suc _"] in \<open>simp add: add.assoc\<close>)
  ultimately show ?case by simp
qed simp

lemma store_le_other:
  assumes "\<And>i. i < n \<Longrightarrow> q \<noteq> p + of_nat i"
  shows "store_le n m p v q = m q"
  using assms
proof (induction n arbitrary: p v)
  case (Suc n)
  have "q \<noteq> p" using Suc.prems [of 0] by simp
  moreover have "store_le n m (p + 1) (drop_bit 8 v) q = m q"
    by (rule Suc.IH) (use Suc.prems [of "Suc _"] in \<open>simp add: add.assoc\<close>)
  ultimately show ?case by simp
qed simp

lemma of_nat_neq_0_u64: "0 < i \<Longrightarrow> i < 2 ^ 64 \<Longrightarrow> (of_nat i :: u64) \<noteq> 0"
  by (auto simp: word_of_nat_eq_0_iff dest: dvd_imp_le)

lemma byte_split: "take_bit (8 * Suc n) (v :: u64) = ucast (ucast v :: u8) OR push_bit 8 (take_bit (8 * n) (drop_bit 8 v))"
  by (rule bit_word_eqI) (auto simp: bit_simps)

lemma load_store_le:
  "n \<le> 8 \<Longrightarrow> load_le n (store_le n m p v) p = take_bit (8 * n) v"
proof (induction n arbitrary: p v)
  case (Suc n)
  have "load_le n (store_le (Suc n) m p v) (p + 1)
      = load_le n (store_le n m (p + 1) (drop_bit 8 v)) (p + 1)"
  proof (rule load_le_cong)
    fix i assume "i < n"
    then have "(of_nat (Suc i) :: u64) \<noteq> 0" using Suc.prems by (intro of_nat_neq_0_u64) simp_all
    then have "p + 1 + of_nat i \<noteq> p" by (simp add: add.assoc)
    then show "store_le (Suc n) m p v (p + 1 + of_nat i)
        = store_le n m (p + 1) (drop_bit 8 v) (p + 1 + of_nat i)"
      unfolding store_le.simps by (rule fun_upd_other)
  qed
  moreover have "load_le n (store_le n m (p + 1) (drop_bit 8 v)) (p + 1) = take_bit (8 * n) (drop_bit 8 v)"
    using Suc by simp
  moreover have "store_le (Suc n) m p v p = ucast v" by simp
  ultimately show ?case by (simp only: byte_split load_le.simps(2))
qed simp

lemma load_store_le_disjoint:
  assumes "\<And>i j. i < n \<Longrightarrow> j < k \<Longrightarrow> p + of_nat i \<noteq> q + of_nat j"
  shows "load_le n (store_le k m q v) p = load_le n m p"
  by (rule load_le_cong, rule store_le_other) (use assms in blast)

lemma load_le_take_bit: "load_le n m p = take_bit (8 * n) (load_le n m p)"
proof (induction n arbitrary: p)
  case (Suc n)
  show ?case
    by (rule bit_word_eqI, subst load_le.simps, subst Suc)
      (auto simp: bit_simps dest: bit_imp_le_length)
qed simp

text \<open>
  The contract of typed memory access that the memory system relies on: a load after a store to
  the same place returns the stored bytes, a store elsewhere is invisible, and a load of \<open>n\<close>
  bytes has no bits beyond them.
\<close>

locale byte_memory =
  fixes load :: "nat \<Rightarrow> 'm \<Rightarrow> u64 \<Rightarrow> u64"
    and store :: "nat \<Rightarrow> 'm \<Rightarrow> u64 \<Rightarrow> u64 \<Rightarrow> 'm"
  assumes load_store: "n \<le> 8 \<Longrightarrow> load n (store n m p v) p = take_bit (8 * n) v"
    and load_store_disjoint:
      "(\<And>i j. i < n \<Longrightarrow> j < k \<Longrightarrow> p + of_nat i \<noteq> q + of_nat j)
       \<Longrightarrow> load n (store k m q v) p = load n m p"
    and load_small: "load n m p = take_bit (8 * n) (load n m p)"
begin

lemma store_overwrites:
  "n \<le> 8 \<Longrightarrow> load n (store n (store n m p v) p w) p = load n (store n m p w) p"
  by (simp add: load_store)

lemma copy_word: "n \<le> 8 \<Longrightarrow> load n (store n m p (load n m' q)) p = load n m' q"
  using load_store [of n m p "load n m' q"] load_small [of n m' q] by simp

lemma stores_commute:
  assumes "n \<le> 8" and "\<And>i j. i < n \<Longrightarrow> j < k \<Longrightarrow> p + of_nat i \<noteq> q + of_nat j"
  shows "load n (store k (store n m p v) q w) p = load n (store n (store k m q w) p v) p"
  using assms load_store_disjoint [of n k p q "store n m p v" w] by (simp add: load_store)

end

interpretation le: byte_memory load_le store_le
  by unfold_locales
    (erule load_store_le, rule load_store_le_disjoint, blast, rule load_le_take_bit)

section \<open>Lowest set bit\<close>

lemma and_1_bit: "drop_bit i (a :: 'a::len word) AND 1 = 0 \<longleftrightarrow> \<not> bit a i"
  using and_exp_eq_0_iff_not_bit [of "drop_bit i a" 0] by (simp add: bit_drop_bit_eq)

lemma ctz32_from_least:
  assumes "bit a k" and "i \<le> k" and "\<And>j. j < i \<Longrightarrow> \<not> bit a j"
  shows "bit a (ctz32_from i a) \<and> (\<forall>j < ctz32_from i a. \<not> bit a j)"
  using assms
proof (induction i a rule: ctz32_from.induct)
  case (1 i a)
  have k: "k < 32" using "1.prems"(1) by (auto dest: bit_imp_le_length)
  show ?case
  proof (cases "bit a i")
    case True
    then have "ctz32_from i a = i" using k "1.prems"(2) by (subst ctz32_from.simps) (simp add: and_1_bit)
    then show ?thesis using True "1.prems"(3) by simp
  next
    case False
    then have ik: "i < k" using "1.prems" by (cases "i = k") simp_all
    then have "ctz32_from i a = ctz32_from (Suc i) a"
      using False k by (subst ctz32_from.simps) (simp add: and_1_bit)
    moreover have "bit a (ctz32_from (Suc i) a) \<and> (\<forall>j < ctz32_from (Suc i) a. \<not> bit a j)"
      by (rule "1.IH") (use ik k False "1.prems" in \<open>auto simp: and_1_bit less_Suc_eq\<close>)
    ultimately show ?thesis by simp
  qed
qed

lemma ctz32_least:
  assumes "a \<noteq> 0"
  shows "bit a (ctz32 a)" and "j < ctz32 a \<Longrightarrow> \<not> bit a j" and "ctz32 a < 32"
proof -
  obtain k where "bit a k" using assms by (auto simp: bit_eq_iff)
  then have c: "bit a (ctz32 a) \<and> (\<forall>j < ctz32 a. \<not> bit a j)"
    using ctz32_from_least [of a k 0] assms by (simp add: ctz32_def)
  then show "bit a (ctz32 a)" "j < ctz32 a \<Longrightarrow> \<not> bit a j" by auto
  from c show "ctz32 a < 32" by (auto dest: bit_imp_le_length)
qed

end
