(* ===== verification/Riscv_Const.thy ===== *)
theory Riscv_Const
  imports Prelude
begin

text \<open>
  The constants of \<^verbatim>\<open>riscv.h\<close>, \<^verbatim>\<open>riscv_cpu.h\<close> and \<^verbatim>\<open>iomem.h\<close>, as abbreviations, so that
  the simplifier works on the numerals themselves.
\<close>

section \<open>Interrupt bits (mip, mie)\<close>

abbreviation MIP_SSIP :: u32 where "MIP_SSIP \<equiv> 0x2"
abbreviation MIP_MSIP :: u32 where "MIP_MSIP \<equiv> 0x8"
abbreviation MIP_STIP :: u32 where "MIP_STIP \<equiv> 0x20"
abbreviation MIP_MTIP :: u32 where "MIP_MTIP \<equiv> 0x80"
abbreviation MIP_SEIP :: u32 where "MIP_SEIP \<equiv> 0x200"
abbreviation MIP_MEIP :: u32 where "MIP_MEIP \<equiv> 0x800"
abbreviation MIP_MCIP :: u32 where "MIP_MCIP \<equiv> 0x40000"

section \<open>Trap causes\<close>

abbreviation CAUSE_MISALIGNED_FETCH :: int where "CAUSE_MISALIGNED_FETCH \<equiv> 0"
abbreviation CAUSE_FAULT_FETCH :: int where "CAUSE_FAULT_FETCH \<equiv> 1"
abbreviation CAUSE_ILLEGAL_INSTRUCTION :: int where "CAUSE_ILLEGAL_INSTRUCTION \<equiv> 2"
abbreviation CAUSE_BREAKPOINT :: int where "CAUSE_BREAKPOINT \<equiv> 3"
abbreviation CAUSE_MISALIGNED_LOAD :: int where "CAUSE_MISALIGNED_LOAD \<equiv> 4"
abbreviation CAUSE_FAULT_LOAD :: int where "CAUSE_FAULT_LOAD \<equiv> 5"
abbreviation CAUSE_MISALIGNED_STORE :: int where "CAUSE_MISALIGNED_STORE \<equiv> 6"
abbreviation CAUSE_FAULT_STORE :: int where "CAUSE_FAULT_STORE \<equiv> 7"
abbreviation CAUSE_USER_ECALL :: int where "CAUSE_USER_ECALL \<equiv> 8"
abbreviation CAUSE_FETCH_PAGE_FAULT :: int where "CAUSE_FETCH_PAGE_FAULT \<equiv> 12"
abbreviation CAUSE_LOAD_PAGE_FAULT :: int where "CAUSE_LOAD_PAGE_FAULT \<equiv> 13"
abbreviation CAUSE_STORE_PAGE_FAULT :: int where "CAUSE_STORE_PAGE_FAULT \<equiv> 15"

abbreviation SCAUSE_MASK :: u64 where "SCAUSE_MASK \<equiv> 0x800000000000001f"
abbreviation MCAUSE_MASK :: u64 where "MCAUSE_MASK \<equiv> 0x80000000000000ff"
abbreviation CAUSE_INTERRUPT :: u64 where "CAUSE_INTERRUPT \<equiv> 0x8000000000000000"

section \<open>Privilege levels and misa\<close>

abbreviation PRV_U :: u8 where "PRV_U \<equiv> 0"
abbreviation PRV_S :: u8 where "PRV_S \<equiv> 1"
abbreviation PRV_H :: u8 where "PRV_H \<equiv> 2"
abbreviation PRV_M :: u8 where "PRV_M \<equiv> 3"

abbreviation MCPUID_A :: u32 where "MCPUID_A \<equiv> 0x1"
abbreviation MCPUID_C :: u32 where "MCPUID_C \<equiv> 0x4"
abbreviation MCPUID_D :: u32 where "MCPUID_D \<equiv> 0x8"
abbreviation MCPUID_F :: u32 where "MCPUID_F \<equiv> 0x20"
abbreviation MCPUID_I :: u32 where "MCPUID_I \<equiv> 0x100"
abbreviation MCPUID_M :: u32 where "MCPUID_M \<equiv> 0x1000"
abbreviation MCPUID_SUPER :: u32 where "MCPUID_SUPER \<equiv> 0x40000"
abbreviation MCPUID_USER :: u32 where "MCPUID_USER \<equiv> 0x100000"
abbreviation MCPUID_X :: u32 where "MCPUID_X \<equiv> 0x800000"

section \<open>mstatus\<close>

abbreviation MSTATUS_SIE :: u64 where "MSTATUS_SIE \<equiv> 0x2"
abbreviation MSTATUS_MIE :: u64 where "MSTATUS_MIE \<equiv> 0x8"
abbreviation MSTATUS_SPIE :: u64 where "MSTATUS_SPIE \<equiv> 0x20"
abbreviation MSTATUS_MPIE :: u64 where "MSTATUS_MPIE \<equiv> 0x80"
abbreviation MSTATUS_SPP :: u64 where "MSTATUS_SPP \<equiv> 0x100"
abbreviation MSTATUS_MPP :: u64 where "MSTATUS_MPP \<equiv> 0x1800"
abbreviation MSTATUS_FS :: u64 where "MSTATUS_FS \<equiv> 0x6000"
abbreviation MSTATUS_XS :: u64 where "MSTATUS_XS \<equiv> 0x18000"
abbreviation MSTATUS_MPRV :: u64 where "MSTATUS_MPRV \<equiv> 0x20000"
abbreviation MSTATUS_SUM :: u64 where "MSTATUS_SUM \<equiv> 0x40000"
abbreviation MSTATUS_MXR :: u64 where "MSTATUS_MXR \<equiv> 0x80000"
abbreviation MSTATUS_TVM :: u64 where "MSTATUS_TVM \<equiv> 0x100000"
abbreviation MSTATUS_TW :: u64 where "MSTATUS_TW \<equiv> 0x200000"
abbreviation MSTATUS_TSR :: u64 where "MSTATUS_TSR \<equiv> 0x400000"
abbreviation MSTATUS_UXL_MASK :: u64 where "MSTATUS_UXL_MASK \<equiv> 0x300000000"
abbreviation MSTATUS_SXL_MASK :: u64 where "MSTATUS_SXL_MASK \<equiv> 0xC00000000"

abbreviation MSTATUS_SPIE_SHIFT :: nat where "MSTATUS_SPIE_SHIFT \<equiv> 5"
abbreviation MSTATUS_MPIE_SHIFT :: nat where "MSTATUS_MPIE_SHIFT \<equiv> 7"
abbreviation MSTATUS_SPP_SHIFT :: nat where "MSTATUS_SPP_SHIFT \<equiv> 8"
abbreviation MSTATUS_MPP_SHIFT :: nat where "MSTATUS_MPP_SHIFT \<equiv> 11"
abbreviation MSTATUS_FS_SHIFT :: nat where "MSTATUS_FS_SHIFT \<equiv> 13"
abbreviation MSTATUS_UXL_SHIFT :: nat where "MSTATUS_UXL_SHIFT \<equiv> 32"
abbreviation MSTATUS_SXL_SHIFT :: nat where "MSTATUS_SXL_SHIFT \<equiv> 34"

section \<open>Debug triggers, SBI, physical memory protection\<close>

abbreviation MCONTROL_M :: u64 where "MCONTROL_M \<equiv> 0x40"
abbreviation MCONTROL_U :: u64 where "MCONTROL_U \<equiv> 0x8"
abbreviation MCONTROL_EXECUTE :: u64 where "MCONTROL_EXECUTE \<equiv> 0x4"

abbreviation SBI_SHUTDOWN :: u64 where "SBI_SHUTDOWN \<equiv> 8"

abbreviation PMP_N :: nat where "PMP_N \<equiv> 8"
abbreviation PMPCFG_R :: u8 where "PMPCFG_R \<equiv> 1"
abbreviation PMPCFG_W :: u8 where "PMPCFG_W \<equiv> 2"
abbreviation PMPCFG_X :: u8 where "PMPCFG_X \<equiv> 4"
abbreviation PMPCFG_A_MASK :: u8 where "PMPCFG_A_MASK \<equiv> 0x18"
abbreviation PMPCFG_A_OFF :: u8 where "PMPCFG_A_OFF \<equiv> 0"
abbreviation PMPCFG_A_TOR :: u8 where "PMPCFG_A_TOR \<equiv> 8"
abbreviation PMPCFG_A_NA4 :: u8 where "PMPCFG_A_NA4 \<equiv> 0x10"
abbreviation PMPCFG_A_NAPOT :: u8 where "PMPCFG_A_NAPOT \<equiv> 0x18"
abbreviation PMPCFG_RES :: u64 where "PMPCFG_RES \<equiv> 0x60"
abbreviation PMPCFG_L :: u64 where "PMPCFG_L \<equiv> 0x80"

section \<open>Address space, TLB and device flags\<close>

abbreviation ROM_SIZE :: u64 where "ROM_SIZE \<equiv> 0x1000"
abbreviation ROM_BASE_ADDR :: u64 where "ROM_BASE_ADDR \<equiv> 0x10000"
abbreviation BOOT_BASE_ADDR :: u64 where "BOOT_BASE_ADDR \<equiv> 0x10000"

abbreviation TLB_SIZE :: nat where "TLB_SIZE \<equiv> 256"
abbreviation PG_SHIFT :: nat where "PG_SHIFT \<equiv> 12"
abbreviation PG_MASK :: u64 where "PG_MASK \<equiv> 0xFFF"
abbreviation SATP_MASK :: u64 where "SATP_MASK \<equiv> 0xF0000FFFFFFFFFFF"
abbreviation PMPADDR_MASK :: u64 where "PMPADDR_MASK \<equiv> 0x3fffffffff"
abbreviation MAX_TRIGGERS :: nat where "MAX_TRIGGERS \<equiv> 1"
abbreviation HPM_EVENT_SETMASK :: u64 where "HPM_EVENT_SETMASK \<equiv> 0x00000007"
abbreviation HPM_EVENT_EVENTMASK :: u64 where "HPM_EVENT_EVENTMASK \<equiv> 0xffffff00"

abbreviation F32_HIGH :: u64 where "F32_HIGH \<equiv> 0xFFFFFFFF00000000"
abbreviation F64_HIGH :: u64 where "F64_HIGH \<equiv> 0"

abbreviation DEVIO_SIZE8 :: u32 where "DEVIO_SIZE8 \<equiv> 0x1"
abbreviation DEVIO_SIZE16 :: u32 where "DEVIO_SIZE16 \<equiv> 0x2"
abbreviation DEVIO_SIZE32 :: u32 where "DEVIO_SIZE32 \<equiv> 0x4"
abbreviation DEVIO_DISABLED :: u32 where "DEVIO_DISABLED \<equiv> 0x10"
abbreviation DEVRAM_FLAG_DIRTY_BITS :: u32 where "DEVRAM_FLAG_DIRTY_BITS \<equiv> 0x2"
abbreviation DEVRAM_FLAG_DISABLED :: u32 where "DEVRAM_FLAG_DISABLED \<equiv> 0x4"
abbreviation DEVRAM_PAGE_SIZE_LOG2 :: nat where "DEVRAM_PAGE_SIZE_LOG2 \<equiv> 12"
abbreviation DEVRAM_PAGE_SIZE :: u64 where "DEVRAM_PAGE_SIZE \<equiv> 0x1000"
abbreviation PHYS_MEM_RANGE_MAX :: nat where "PHYS_MEM_RANGE_MAX \<equiv> 32"
abbreviation RTC_FREQ_DIV :: u64 where "RTC_FREQ_DIV \<equiv> 16"
abbreviation MAX_CPUS :: nat where "MAX_CPUS \<equiv> 8"

end
