(* ===== verification/Cpu_State.thy ===== *)
theory Cpu_State
  imports Riscv_Const
begin

text \<open>
  The state of the emulator: the structures of \<^verbatim>\<open>riscv_cpu.h\<close>, \<^verbatim>\<open>iomem.h\<close>,
  \<^verbatim>\<open>riscv_machine.h\<close> and \<^verbatim>\<open>dw_apb_uart.h\<close> as records, field by field.

  C arrays are functions from the index; the pointers \<open>machine\<close> and \<open>mem_map\<close> of a CPU
  are resolved by the record extension \<open>hart\<close>: a hart is a CPU state together with the
  machine it runs in, so a function on the CPU fields alone is stated for every extension
  of \<open>RISCVCPUState\<close> and applies to a \<open>hart\<close> as it stands. The slot of the running
  hart inside \<open>cpu_state\<close> is brought up to date whenever the machine is entered
  (\<open>with_machine\<close>).
\<close>

section \<open>The hart (riscv_cpu.h)\<close>

record TLBEntry =
  vaddr :: u64
  mem_addend :: u64

record pmp_addr =
  pmp_lo :: u64
  pmp_hi :: u64

datatype RISCVCTFInfo = ctf_nop | ctf_taken_jump | ctf_taken_branch
  | ctf_taken_jalr | ctf_taken_jalr_pop | ctf_taken_jalr_push | ctf_taken_jalr_pop_push

record RISCVCPUState =
  pc :: u64
  reg :: "nat \<Rightarrow> u64"
  reg_prior :: "nat \<Rightarrow> u64"
  most_recently_written_reg :: int
  fp_reg :: "nat \<Rightarrow> u64"
  most_recently_written_fp_reg :: int
  fflags :: u32
  frm :: u8
  priv :: u8
  fs :: u8
  insn_counter :: u64
  minstret :: u64
  mcycle :: u64
  debug_mode :: bool
  stop_the_counter :: bool
  power_down_flag :: bool
  terminate_simulation :: bool
  pending_exception :: int
  pending_tval :: u64
  mstatus :: u64
  mtvec :: u64
  mscratch :: u64
  mepc :: u64
  mcause :: u64
  mtval :: u64
  mvendorid :: u64
  marchid :: u64
  mimpid :: u64
  mhartid :: u64
  misa :: u32
  mie :: u32
  mip :: u32
  medeleg :: u32
  mideleg :: u32
  mcounteren :: u32
  mcountinhibit :: u32
  tselect :: u32
  tdata1 :: "nat \<Rightarrow> u64"
  tdata2 :: "nat \<Rightarrow> u64"
  tdata3 :: "nat \<Rightarrow> u64"
  mhpmevent :: "nat \<Rightarrow> u64"
  csr_pmpcfg :: "nat \<Rightarrow> u64"
  csr_pmpaddr :: "nat \<Rightarrow> u64"
  pmp_n :: nat
  pmp :: "nat \<Rightarrow> pmp_addr"
  pmpcfg :: "nat \<Rightarrow> u8"
  stvec :: u64
  sscratch :: u64
  sepc :: u64
  scause :: u64
  stval :: u64
  satp :: u64
  scounteren :: u32
  dcsr :: u64
  dpc :: u64
  dscratch :: u64
  plic_enable_irq :: u32
  load_res :: u64
  physical_addr_len :: nat
  tlb_read :: "nat \<Rightarrow> TLBEntry"
  tlb_write :: "nat \<Rightarrow> TLBEntry"
  tlb_code :: "nat \<Rightarrow> TLBEntry"
  tlb_read_paddr_addend :: "nat \<Rightarrow> u64"
  tlb_write_paddr_addend :: "nat \<Rightarrow> u64"
  tlb_code_paddr_addend :: "nat \<Rightarrow> u64"
  benchmark_exit_code :: u64
  info :: RISCVCTFInfo
  next_addr :: u64
  timecmp :: u64
  ignore_sbi_shutdown :: bool

text \<open>The state \<open>mallocz\<close> returns.\<close>

definition zero_cpu :: RISCVCPUState where
  "zero_cpu = \<lparr>pc = 0, reg = (\<lambda>_. 0), reg_prior = (\<lambda>_. 0), most_recently_written_reg = 0,
     fp_reg = (\<lambda>_. 0), most_recently_written_fp_reg = 0, fflags = 0, frm = 0, priv = 0, fs = 0,
     insn_counter = 0, minstret = 0, mcycle = 0, debug_mode = False, stop_the_counter = False,
     power_down_flag = False, terminate_simulation = False, pending_exception = 0,
     pending_tval = 0, mstatus = 0, mtvec = 0, mscratch = 0, mepc = 0, mcause = 0, mtval = 0,
     mvendorid = 0, marchid = 0, mimpid = 0, mhartid = 0, misa = 0, mie = 0, mip = 0,
     medeleg = 0, mideleg = 0, mcounteren = 0, mcountinhibit = 0, tselect = 0,
     tdata1 = (\<lambda>_. 0), tdata2 = (\<lambda>_. 0), tdata3 = (\<lambda>_. 0), mhpmevent = (\<lambda>_. 0),
     csr_pmpcfg = (\<lambda>_. 0), csr_pmpaddr = (\<lambda>_. 0), pmp_n = 0, pmp = (\<lambda>_. \<lparr>pmp_lo = 0, pmp_hi = 0\<rparr>),
     pmpcfg = (\<lambda>_. 0), stvec = 0, sscratch = 0, sepc = 0, scause = 0, stval = 0, satp = 0,
     scounteren = 0, dcsr = 0, dpc = 0, dscratch = 0, plic_enable_irq = 0, load_res = 0,
     physical_addr_len = 0, tlb_read = (\<lambda>_. \<lparr>vaddr = 0, mem_addend = 0\<rparr>),
     tlb_write = (\<lambda>_. \<lparr>vaddr = 0, mem_addend = 0\<rparr>), tlb_code = (\<lambda>_. \<lparr>vaddr = 0, mem_addend = 0\<rparr>),
     tlb_read_paddr_addend = (\<lambda>_. 0), tlb_write_paddr_addend = (\<lambda>_. 0),
     tlb_code_paddr_addend = (\<lambda>_. 0), benchmark_exit_code = 0, info = ctf_nop, next_addr = 0,
     timecmp = 0, ignore_sbi_shutdown = False\<rparr>"

section \<open>Physical memory (iomem.h)\<close>

text \<open>
  The callback pair and the opaque pointer of a device range are a name of the device;
  \<open>Devices\<close> maps the name to the callbacks. A NULL \<open>dirty_bits\<close> pointer is
  \<^const>\<open>None\<close>, otherwise it is the index of the table it points to.
\<close>

datatype device = DEV_MMIO | DEV_UART | DEV_DW_APB_UART | DEV_CLINT | DEV_PLIC

record PhysMemoryRange =
  pr_addr :: u64
  pr_org_size :: u64
  pr_size :: u64
  is_ram :: bool
  devram_flags :: u32
  phys_mem :: u64
  dirty_bits_size :: nat
  dirty_bits :: "nat option"
  dirty_bits_tab :: "nat \<Rightarrow> nat \<Rightarrow> u32"
  dirty_bits_index :: nat
  pr_device :: device
  devio_flags :: u32

record PhysMemoryMap =
  n_phys_mem_range :: nat
  phys_mem_range :: "nat \<Rightarrow> PhysMemoryRange"

section \<open>Devices and the machine\<close>

record SiFiveUARTState =
  rx_fifo_len :: u32
  uart_ie :: u32
  uart_ip :: u32
  txctrl :: u32
  rxctrl :: u32
  uart_div :: u32

record DW_apb_uart_state =
  div_latch :: u16
  rbr :: u8
  ier :: u8
  fcr :: u8
  iid :: u8
  lcr :: u8
  lsr :: u8

text \<open>
  The machine. \<open>host_mem\<close> is the memory of the host process that \<open>phys_mem\<close> pointers
  and TLB addends point into; the console is the queue of pending input bytes and the
  bytes written so far. \<open>missing_csrs\<close> and \<open>skip_commit\<close> carry their sizes as
  list lengths; \<open>common\<close> is flattened.
\<close>

record RISCVMachine =
  maxinsns :: u64
  trace :: u64
  cosim :: bool
  pending_interrupt :: int
  m_pending_exception :: int
  hooks_csr_read :: "(RISCVCPUState \<Rightarrow> u32 \<Rightarrow> u64 option) option"
  hooks_csr_write :: "(RISCVCPUState \<Rightarrow> u32 \<Rightarrow> u64 \<Rightarrow> int \<times> RISCVCPUState) option"
  mem_map :: PhysMemoryMap
  cpu_state :: "nat \<Rightarrow> RISCVCPUState"
  ncpus :: nat
  ram_size :: u64
  ram_base_addr :: u64
  plic_pending_irq :: u32
  plic_served_irq :: u32
  htif_tohost_addr :: u64
  mmio_start :: u64
  mmio_end :: u64
  mmio_addrset :: "(u64 \<times> u64) list"
  reset_vector :: u64
  compact_bootrom :: bool
  plic_base_addr :: u64
  plic_size :: u64
  clint_base_addr :: u64
  clint_size :: u64
  custom_extension :: bool
  missing_csrs :: "u64 list"
  skip_commit :: "u64 list"
  plic_priority :: "nat \<Rightarrow> u32"
  uart :: SiFiveUARTState
  dw_apb_uart :: DW_apb_uart_state
  console_in :: "u8 list"
  console_out :: "u8 list"
  host_mem :: hostmem

record hart = RISCVCPUState +
  machine :: RISCVMachine

text \<open>\<open>m->cpu_state[i]\<close> is a null pointer from \<open>ncpus\<close> on.\<close>

definition cpu_at :: "RISCVMachine \<Rightarrow> nat \<Rightarrow> RISCVCPUState option" where
  "cpu_at m i = (if i < ncpus m then Some (cpu_state m i) else None)"

definition set_cpu :: "nat \<Rightarrow> RISCVCPUState \<Rightarrow> RISCVMachine \<Rightarrow> RISCVMachine" where
  "set_cpu i c m = m\<lparr>cpu_state := (cpu_state m)(i := c)\<rparr>"

definition cpu_of :: "hart \<Rightarrow> RISCVCPUState" where
  "cpu_of s = RISCVCPUState.truncate s"

definition hart_of :: "RISCVMachine \<Rightarrow> nat \<Rightarrow> hart" where
  "hart_of m i = RISCVCPUState.extend (cpu_state m i) \<lparr>machine = m\<rparr>"

definition machine_of :: "hart \<Rightarrow> RISCVMachine" where
  "machine_of s = set_cpu (unat (mhartid s)) (cpu_of s) (machine s)"

end
