(* ===== verification/Tlb.thy ===== *)
theory Tlb
  imports Cpu_State
begin

text \<open>
  The translation look-aside buffers: initialisation, flushing, the selective flush of the
  write entries that point into a block of host memory, and the privilege switch, which
  flushes (\<^verbatim>\<open>riscv_cpu.cpp\<close>). An entry with \<open>vaddr = -1\<close> matches no access: the fast paths
  compare \<open>vaddr\<close> with a page address or with an address that is aligned to the access.
\<close>

definition tlb_invalidate :: "(nat \<Rightarrow> TLBEntry) \<Rightarrow> nat \<Rightarrow> TLBEntry" where
  "tlb_invalidate t = (\<lambda>i. if i < TLB_SIZE then (t i)\<lparr>vaddr := - 1\<rparr> else t i)"

definition tlb_init :: "'a RISCVCPUState_scheme \<Rightarrow> 'a RISCVCPUState_scheme" where
  "tlb_init s = s\<lparr>tlb_read := tlb_invalidate (tlb_read s),
                  tlb_write := tlb_invalidate (tlb_write s),
                  tlb_code := tlb_invalidate (tlb_code s)\<rparr>"

definition tlb_flush_all :: "'a RISCVCPUState_scheme \<Rightarrow> 'a RISCVCPUState_scheme" where
  "tlb_flush_all s = tlb_init s"

definition tlb_flush_vaddr :: "'a RISCVCPUState_scheme \<Rightarrow> u64 \<Rightarrow> 'a RISCVCPUState_scheme" where
  "tlb_flush_vaddr s va = tlb_flush_all s"

definition riscv_cpu_flush_tlb_write_range_ram ::
    "'a RISCVCPUState_scheme \<Rightarrow> u64 \<Rightarrow> u64 \<Rightarrow> 'a RISCVCPUState_scheme" where
  "riscv_cpu_flush_tlb_write_range_ram s ram_ptr ram_sz =
     (let ram_end = ram_ptr + ram_sz in
      s\<lparr>tlb_write := (\<lambda>i. let e = tlb_write s i; ptr = mem_addend e + vaddr e in
           if i < TLB_SIZE \<and> vaddr e \<noteq> - 1 \<and> ram_ptr \<le> ptr \<and> ptr < ram_end
           then e\<lparr>vaddr := - 1\<rparr> else e)\<rparr>)"

definition set_priv :: "'a RISCVCPUState_scheme \<Rightarrow> u8 \<Rightarrow> 'a RISCVCPUState_scheme" where
  "set_priv s p = (if priv s \<noteq> p then (tlb_flush_all s)\<lparr>priv := p\<rparr> else s)"

end
