(* ===== verification/Csr.thy ===== *)
theory Csr
  imports Tlb
begin

text \<open>
  Control and status registers (\<^verbatim>\<open>riscv_cpu.cpp\<close>): \<open>mstatus\<close> with its separately kept FS
  field, counter access control, the unpacking of the physical memory protection registers,
  \<open>csr_read\<close> and \<open>csr_write\<close>. A failed \<open>csr_read\<close> (return value -1) is \<^const>\<open>None\<close>;
  \<open>csr_write\<close> returns the C return code with the new state.
\<close>

section \<open>mstatus\<close>

abbreviation SSTATUS_MASK :: u64 where
  "SSTATUS_MASK \<equiv> MSTATUS_SIE OR MSTATUS_SPIE OR MSTATUS_SPP OR MSTATUS_FS OR MSTATUS_SUM
     OR MSTATUS_MXR OR MSTATUS_UXL_MASK"

abbreviation MSTATUS_MASK :: u64 where
  "MSTATUS_MASK \<equiv> MSTATUS_SIE OR MSTATUS_MIE OR MSTATUS_SPIE OR MSTATUS_MPIE OR MSTATUS_SPP
     OR MSTATUS_MPP OR MSTATUS_FS OR MSTATUS_MPRV OR MSTATUS_SUM OR MSTATUS_MXR OR MSTATUS_TVM
     OR MSTATUS_TW OR MSTATUS_TSR OR MSTATUS_UXL_MASK OR MSTATUS_SXL_MASK"

definition get_mstatus :: "'a RISCVCPUState_scheme \<Rightarrow> u64 \<Rightarrow> u64" where
  "get_mstatus s msk =
     (let val = (mstatus s OR push_bit MSTATUS_FS_SHIFT (ucast (fs s))) AND msk;
          sd = (val AND MSTATUS_FS = MSTATUS_FS \<or> val AND MSTATUS_XS = MSTATUS_XS)
      in if sd then val OR push_bit 63 1 else val)"

definition set_mstatus :: "'a RISCVCPUState_scheme \<Rightarrow> u64 \<Rightarrow> 'a RISCVCPUState_scheme" where
  "set_mstatus s val =
     (let modified = mstatus s XOR val;
          s1 = (if modified AND (MSTATUS_MPRV OR MSTATUS_SUM OR MSTATUS_MXR) \<noteq> 0
                   \<or> mstatus s AND MSTATUS_MPRV \<noteq> 0 \<and> modified AND MSTATUS_MPP \<noteq> 0
                then tlb_flush_all s else s);
          msk = MSTATUS_MASK AND NOT (MSTATUS_FS OR MSTATUS_UXL_MASK OR MSTATUS_SXL_MASK)
      in s1\<lparr>fs := ucast (drop_bit MSTATUS_FS_SHIFT val AND 3),
            mstatus := (mstatus s1 AND NOT msk) OR (val AND msk)\<rparr>)"

section \<open>Counters and rounding mode\<close>

definition counter_access_ok :: "'a RISCVCPUState_scheme \<Rightarrow> u32 \<Rightarrow> bool" where
  "counter_access_ok s csr =
     (let counteren = (if priv s = PRV_U then scounteren s
                       else if priv s = PRV_S then mcounteren s
                       else if priv s = PRV_M then NOT 0 else 0)
      in drop_bit (unat (csr AND 31)) counteren AND 1 \<noteq> 0)"

definition set_frm :: "'a RISCVCPUState_scheme \<Rightarrow> u32 \<Rightarrow> 'a RISCVCPUState_scheme" where
  "set_frm s val = s\<lparr>frm := ucast val\<rparr>"

text \<open>\<^verbatim>\<open>get_insn_rm\<close>: a return of -1 is \<^const>\<open>None\<close>.\<close>

definition get_insn_rm :: "'a RISCVCPUState_scheme \<Rightarrow> u32 \<Rightarrow> u32 option" where
  "get_insn_rm s rm =
     (let rm = (if rm = 7 then ucast (frm s) else rm) in if rm \<ge> 5 then None else Some rm)"

section \<open>Physical memory protection registers\<close>

abbreviation CSR_PMPCFG :: "u32 \<Rightarrow> u32" where "CSR_PMPCFG n \<equiv> 0x3A0 + n"
abbreviation CSR_PMPADDR :: "u32 \<Rightarrow> u32" where "CSR_PMPADDR n \<equiv> 0x3B0 + n"

text \<open>
  \<open>1 << j\<close> on an \<open>int\<close>, widened to 64 bits: the shift count is taken modulo 32, as the host
  instruction does (C leaves counts from 32 on undefined), and bit 31 is the sign.
\<close>

definition int_bit :: "nat \<Rightarrow> u64" where
  "int_bit j = scast (push_bit (j mod 32) (1 :: u32))"

text \<open>The trailing-ones loop \<open>for (j = 0; j < 64; ++j) if ((a & (1 << j)) == 0) break;\<close>\<close>

function trailing_ones :: "u64 \<Rightarrow> nat \<Rightarrow> nat" where
  "trailing_ones a j =
     (if j < 64 then (if a AND int_bit j = 0 then j else trailing_ones a (Suc j)) else j)"
  by pat_completeness auto

termination by (relation "measure (\<lambda>(a, j). 64 - j)") auto

declare trailing_ones.simps [simp del]

definition pmp_push :: "u8 \<Rightarrow> u64 \<Rightarrow> u64 \<Rightarrow> 'a RISCVCPUState_scheme \<Rightarrow> 'a RISCVCPUState_scheme" where
  "pmp_push cfg l h s =
     s\<lparr>pmpcfg := (pmpcfg s)(pmp_n s := cfg),
       pmp := (pmp s)(pmp_n s := \<lparr>pmp_lo = l, pmp_hi = h\<rparr>),
       pmp_n := pmp_n s + 1\<rparr>"

definition napot_range :: "u64 \<Rightarrow> u64 \<times> u64" where
  "napot_range a =
     (let j = trailing_ones a 0 + 3 in
      if j \<ge> 64 then (0, NOT 0)
      else let l = push_bit 2 a AND NOT (push_bit j 1 - 1);
               h = l + push_bit j 1
           in (l, if h \<le> l then NOT 0 else h))"

definition unpack_pmp_entry :: "nat \<Rightarrow> 'a RISCVCPUState_scheme \<Rightarrow> 'a RISCVCPUState_scheme" where
  "unpack_pmp_entry i s =
     (let cfg = (if i < 8 then ucast (drop_bit (i * 8) (csr_pmpcfg s 0))
                 else ucast (drop_bit ((i - 8) * 8) (csr_pmpcfg s 2)));
          a = csr_pmpaddr s i;
          mode = cfg AND PMPCFG_A_MASK
      in if mode = PMPCFG_A_TOR
         then pmp_push cfg (if i = 0 then 0 else push_bit 2 (csr_pmpaddr s (i - 1))) (push_bit 2 a) s
         else if mode = PMPCFG_A_NA4 then pmp_push cfg (push_bit 2 a) (push_bit 2 a + 4) s
         else if mode = PMPCFG_A_NAPOT then pmp_push cfg (fst (napot_range a)) (snd (napot_range a)) s
         else s)"

definition unpack_pmpaddrs :: "'a RISCVCPUState_scheme \<Rightarrow> 'a RISCVCPUState_scheme" where
  "unpack_pmpaddrs s = tlb_flush_all (fold unpack_pmp_entry [0..<16] (s\<lparr>pmp_n := 0\<rparr>))"

text \<open>The loop of the \<open>pmpcfg\<close> write: locked bytes keep their value, reserved bits read 0.\<close>

definition pmpcfg_merge_byte :: "u64 \<Rightarrow> u64 \<Rightarrow> nat \<Rightarrow> u64" where
  "pmpcfg_merge_byte orig val i =
     (let cfg = drop_bit (i * 8) orig AND 255;
          cfg = (if cfg AND PMPCFG_L = 0 then drop_bit (i * 8) val AND 255 else cfg)
      in cfg AND NOT PMPCFG_RES)"

definition pmpcfg_merge :: "u64 \<Rightarrow> u64 \<Rightarrow> u64" where
  "pmpcfg_merge orig val =
     fold (\<lambda>i nv. nv OR push_bit (i * 8) (pmpcfg_merge_byte orig val i)) [0..<8] 0"

section \<open>csr_read\<close>

text \<open>The label \<open>invalid_csr\<close> of \<open>csr_read\<close>.\<close>

definition csr_read_invalid :: "hart \<Rightarrow> u32 \<Rightarrow> u64 option" where
  "csr_read_invalid s csr =
     (case hooks_csr_read (machine s) of Some h \<Rightarrow> h (cpu_of s) csr | None \<Rightarrow> None)"

text \<open>Privilege and write permission encoded in the CSR number.\<close>

definition csr_perm_ok :: "'a RISCVCPUState_scheme \<Rightarrow> u32 \<Rightarrow> bool \<Rightarrow> bool" where
  "csr_perm_ok s csr will_write =
     (\<not> (csr AND 0xc00 = 0xc00 \<and> will_write) \<and> \<not> unat (priv s) < unat (drop_bit 8 csr AND 3))"

definition csr_read_body :: "hart \<Rightarrow> u32 \<Rightarrow> u64 option" where
  "csr_read_body s csr =
    (if csr = 0x001 then (if fs s = 0 then None else Some (ucast (fflags s)))
     else if csr = 0x002 then (if fs s = 0 then None else Some (ucast (frm s)))
     else if csr = 0x003 then (if fs s = 0 then None
       else Some (ucast (fflags s OR push_bit 5 (ucast (frm s)))))
     else if csr = 0x100 then Some (get_mstatus s SSTATUS_MASK)
     else if csr = 0x104 then Some (ucast (mie s AND mideleg s))
     else if csr = 0x105 then Some (stvec s)
     else if csr = 0x106 then Some (ucast (scounteren s))
     else if csr = 0x140 then Some (sscratch s)
     else if csr = 0x141 then Some (sepc s)
     else if csr = 0x142 then Some (scause s)
     else if csr = 0x143 then Some (stval s)
     else if csr = 0x144 then Some (ucast (mip s AND mideleg s))
     else if csr = 0x180 then
       (if priv s = PRV_S \<and> mstatus s AND MSTATUS_TVM \<noteq> 0 then None else Some (satp s))
     else if csr = 0x300 then Some (get_mstatus s (- 1))
     else if csr = 0x301 then Some (ucast (misa s) OR push_bit 62 2)
     else if csr = 0x302 then Some (ucast (medeleg s))
     else if csr = 0x303 then Some (ucast (mideleg s))
     else if csr = 0x304 then Some (ucast (mie s))
     else if csr = 0x305 then Some (mtvec s)
     else if csr = 0x306 then Some (ucast (mcounteren s))
     else if csr = 0x320 then Some (ucast (mcountinhibit s))
     else if csr = 0x340 then Some (mscratch s)
     else if csr = 0x341 then Some (mepc s)
     else if csr = 0x342 then Some (mcause s)
     else if csr = 0x343 then Some (mtval s)
     else if csr = 0x344 then Some (ucast (mip s))
     else if csr = 0x7a0 then Some (ucast (tselect s))
     else if csr = 0x7a1 then Some (tdata1 s (unat (tselect s)))
     else if csr = 0x7a2 then Some (tdata2 s (unat (tselect s)))
     else if csr = 0x7a3 then Some (tdata3 s (unat (tselect s)))
     else if csr = 0x7b0 then (if \<not> debug_mode s then csr_read_invalid s csr else Some (dcsr s))
     else if csr = 0x7b1 then (if \<not> debug_mode s then csr_read_invalid s csr else Some (dpc s))
     else if csr = 0x7b2 then (if \<not> debug_mode s then csr_read_invalid s csr else Some (dscratch s))
     else if csr = 0xb00 \<or> csr = 0xc00 then
       (if \<not> counter_access_ok s csr then csr_read_invalid s csr else Some (mcycle s))
     else if csr = 0xb02 \<or> csr = 0xc02 then
       (if \<not> counter_access_ok s csr then csr_read_invalid s csr else Some (minstret s))
     else if 0xb03 \<le> csr \<and> csr \<le> 0xb1f \<or> 0xc03 \<le> csr \<and> csr \<le> 0xc1f then
       (if \<not> counter_access_ok s csr then csr_read_invalid s csr else Some 0)
     else if csr = 0xf14 then Some (mhartid s)
     else if csr = 0xf13 then Some (mimpid s)
     else if csr = 0xf12 then Some (marchid s)
     else if csr = 0xf11 then Some (mvendorid s)
     else if 0x323 \<le> csr \<and> csr \<le> 0x33f then Some (mhpmevent s (unat (csr AND 0x1F)))
     else if csr = CSR_PMPCFG 0 \<or> csr = CSR_PMPCFG 2 then Some (csr_pmpcfg s (unat (csr - CSR_PMPCFG 0)))
     else if CSR_PMPADDR 0 \<le> csr \<and> csr \<le> CSR_PMPADDR 15
       then Some (csr_pmpaddr s (unat (csr - CSR_PMPADDR 0)))
     else csr_read_invalid s csr)"

definition csr_read :: "hart \<Rightarrow> u32 \<Rightarrow> bool \<Rightarrow> u64 option" where
  "csr_read s csr will_write =
     (if \<not> csr_perm_ok s csr will_write then None else csr_read_body s csr)"

section \<open>csr_write\<close>

text \<open>\<^verbatim>\<open>CANONICAL_S49\<close>: keep 49 bits and sign-extend them.\<close>

definition CANONICAL_S49 :: "u64 \<Rightarrow> u64" where
  "CANONICAL_S49 v = signed_drop_bit 15 (push_bit 15 v)"

text \<open>\<open>val & (s->misa & MCPUID_C ? ~1 : ~3)\<close>\<close>

definition pc_align_mask :: "'a RISCVCPUState_scheme \<Rightarrow> u64" where
  "pc_align_mask s = (if misa s AND MCPUID_C \<noteq> 0 then NOT 1 else NOT 3)"

text \<open>\<open>if (val & 1) val &= ~255 + 1;\<close>\<close>

definition tvec_align :: "u64 \<Rightarrow> u64" where
  "tvec_align val = (if val AND 1 \<noteq> 0 then val AND (NOT 255 + 1) else val)"

definition merge32 :: "u32 \<Rightarrow> u64 \<Rightarrow> u64 \<Rightarrow> u32" where
  "merge32 old val msk = ucast ((ucast old AND NOT msk) OR (val AND msk))"

definition write_satp :: "'a RISCVCPUState_scheme \<Rightarrow> u64 \<Rightarrow> 'a RISCVCPUState_scheme" where
  "write_satp s val =
     (let mode = drop_bit 60 val AND 15 in
      tlb_flush_all (if mode = 0 \<or> mode = 8 \<or> mode = 9 then s\<lparr>satp := val AND SATP_MASK\<rparr> else s))"

definition write_tdata1 :: "'a RISCVCPUState_scheme \<Rightarrow> u64 \<Rightarrow> 'a RISCVCPUState_scheme" where
  "write_tdata1 s val =
     (let type = drop_bit 60 val;
          msk = push_bit 60 15 OR MCONTROL_M OR MCONTROL_EXECUTE;
          i = unat (tselect s)
      in if type \<noteq> 0 \<and> type \<noteq> 2 then s
         else s\<lparr>tdata1 := (tdata1 s)(i := (tdata1 s i AND NOT msk) OR (val AND msk))\<rparr>)"

text \<open>\<open>s->stop_the_counter = s->dcsr & 0x600 != 0\<close> parses as \<open>s->dcsr & (0x600 != 0)\<close>.\<close>

definition write_dcsr :: "'a RISCVCPUState_scheme \<Rightarrow> u64 \<Rightarrow> 'a RISCVCPUState_scheme" where
  "write_dcsr s val =
     (let d = (dcsr s AND NOT 0x603) OR (val AND 0x603)
      in s\<lparr>dcsr := d, stop_the_counter := (d AND of_bool ((0x600 :: u64) \<noteq> 0) \<noteq> 0)\<rparr>)"

definition write_pmpcfg :: "'a RISCVCPUState_scheme \<Rightarrow> nat \<Rightarrow> u64 \<Rightarrow> 'a RISCVCPUState_scheme" where
  "write_pmpcfg s c val =
     (if PMP_N \<le> c div 2 * 8 then s
      else unpack_pmpaddrs
        (s\<lparr>csr_pmpcfg := (csr_pmpcfg s)(c := pmpcfg_merge (csr_pmpcfg s c) val)\<rparr>))"

definition write_pmpaddr :: "'a RISCVCPUState_scheme \<Rightarrow> nat \<Rightarrow> u64 \<Rightarrow> 'a RISCVCPUState_scheme" where
  "write_pmpaddr s i val =
     (if PMP_N \<le> i then s
      else unpack_pmpaddrs (s\<lparr>csr_pmpaddr := (csr_pmpaddr s)(i := val AND PMPADDR_MASK)\<rparr>))"

text \<open>The default branch: the machine hook if there is one, otherwise -1.\<close>

definition csr_write_hook :: "hart \<Rightarrow> u32 \<Rightarrow> u64 \<Rightarrow> int \<times> hart" where
  "csr_write_hook s csr val =
     (case hooks_csr_write (machine s) of
        Some h \<Rightarrow> (case h (cpu_of s) csr val of
           (r, c) \<Rightarrow> (r, RISCVCPUState.extend c \<lparr>machine = machine s\<rparr>))
      | None \<Rightarrow> (- 1, s))"

definition csr_write :: "hart \<Rightarrow> u32 \<Rightarrow> u64 \<Rightarrow> int \<times> hart" where
  "csr_write s csr val =
    (if csr = 0x001 then (0, s\<lparr>fflags := ucast (val AND 0x1f), fs := 3\<rparr>)
     else if csr = 0x002 then (0, (set_frm s (ucast (val AND 7)))\<lparr>fs := 3\<rparr>)
     else if csr = 0x003 then
       (0, (set_frm s (ucast (drop_bit 5 val AND 7)))\<lparr>fflags := ucast (val AND 0x1f), fs := 3\<rparr>)
     else if csr = 0x100 then
       (0, set_mstatus s ((mstatus s AND NOT SSTATUS_MASK) OR (val AND SSTATUS_MASK)))
     else if csr = 0x104 then (0, s\<lparr>mie := merge32 (mie s) val (ucast (mideleg s))\<rparr>)
     else if csr = 0x105 then (0, s\<lparr>stvec := tvec_align val AND NOT 2\<rparr>)
     else if csr = 0x106 then (0, s\<lparr>scounteren := ucast val\<rparr>)
     else if csr = 0x140 then (0, s\<lparr>sscratch := val\<rparr>)
     else if csr = 0x141 then (0, s\<lparr>sepc := CANONICAL_S49 (val AND pc_align_mask s)\<rparr>)
     else if csr = 0x142 then (0, s\<lparr>scause := val AND SCAUSE_MASK\<rparr>)
     else if csr = 0x143 then (0, s\<lparr>stval := CANONICAL_S49 val\<rparr>)
     else if csr = 0x144 then (0, s\<lparr>mip := merge32 (mip s) val (ucast (mideleg s))\<rparr>)
     else if csr = 0x180 then
       (if priv s = PRV_S \<and> mstatus s AND MSTATUS_TVM \<noteq> 0 then (- 1, s) else (2, write_satp s val))
     else if csr = 0x300 then (0, set_mstatus s val)
     else if csr = 0x301 then (0, s)
     else if csr = 0x302 then (0, s\<lparr>medeleg := merge32 (medeleg s) val 0xB109\<rparr>)
     else if csr = 0x303 then
       (0, s\<lparr>mideleg := merge32 (mideleg s) val (ucast (MIP_SSIP OR MIP_STIP OR MIP_SEIP))\<rparr>)
     else if csr = 0x304 then
       (0, s\<lparr>mie := merge32 (mie s) val (ucast (MIP_MCIP OR MIP_MEIP OR MIP_SEIP OR MIP_MTIP
              OR MIP_STIP OR MIP_MSIP OR MIP_SSIP))\<rparr>)
     else if csr = 0x305 then
       (0, s\<lparr>mtvec := tvec_align val AND (push_bit (physical_addr_len s) 1 - 3)\<rparr>)
     else if csr = 0x306 then (0, s\<lparr>mcounteren := ucast val\<rparr>)
     else if csr = 0x320 then (0, s\<lparr>mcountinhibit := ucast (val AND NOT 2)\<rparr>)
     else if csr = 0x340 then (0, s\<lparr>mscratch := val\<rparr>)
     else if csr = 0x341 then (0, s\<lparr>mepc := CANONICAL_S49 (val AND pc_align_mask s)\<rparr>)
     else if csr = 0x342 then (0, s\<lparr>mcause := val AND MCAUSE_MASK\<rparr>)
     else if csr = 0x343 then (0, s\<lparr>mtval := CANONICAL_S49 val\<rparr>)
     else if csr = 0x344 then
       (0, s\<lparr>mip := merge32 (mip s) val (ucast (MIP_SEIP OR MIP_STIP OR MIP_SSIP))\<rparr>)
     else if csr = 0x7a0 then (0, s\<lparr>tselect := ucast (val mod of_nat MAX_TRIGGERS)\<rparr>)
     else if csr = 0x7a1 then (0, write_tdata1 s val)
     else if csr = 0x7a2 then (0, s\<lparr>tdata2 := (tdata2 s)(unat (tselect s) := val)\<rparr>)
     else if csr = 0x7a3 then (0, s\<lparr>tdata3 := (tdata3 s)(unat (tselect s) := val)\<rparr>)
     else if csr = 0x7b0 then (if \<not> debug_mode s then (- 1, s) else (0, write_dcsr s val))
     else if csr = 0x7b1 then
       (if \<not> debug_mode s then (- 1, s) else (0, s\<lparr>dpc := val AND pc_align_mask s\<rparr>))
     else if csr = 0x7b2 then (if \<not> debug_mode s then (- 1, s) else (0, s\<lparr>dscratch := val\<rparr>))
     else if 0x323 \<le> csr \<and> csr \<le> 0x33f then
       (0, s\<lparr>mhpmevent := (mhpmevent s)(unat (csr AND 0x1F) :=
              val AND (HPM_EVENT_SETMASK OR HPM_EVENT_EVENTMASK))\<rparr>)
     else if csr = CSR_PMPCFG 0 \<or> csr = CSR_PMPCFG 2 then
       (0, write_pmpcfg s (unat (csr - CSR_PMPCFG 0)) val)
     else if CSR_PMPADDR 0 \<le> csr \<and> csr \<le> CSR_PMPADDR 15 then
       (0, write_pmpaddr s (unat (csr - CSR_PMPADDR 0)) val)
     else if csr = 0xb00 then (0, s\<lparr>mcycle := val\<rparr>)
     else if csr = 0xb02 then (0, s\<lparr>minstret := val\<rparr>)
     else if 0xb03 \<le> csr \<and> csr \<le> 0xb1f then (0, s)
     else csr_write_hook s csr val)"

end
