(* ===== verification/Trap.thy ===== *)
theory Trap
  imports Csr
begin

text \<open>
  Trap entry and return, and interrupt selection (\<^verbatim>\<open>riscv_cpu.cpp\<close>): \<open>raise_exception2\<close>,
  \<open>handle_sret\<close>, \<open>handle_mret\<close>, \<open>handle_dret\<close>, \<open>get_pending_irq_mask\<close>,
  \<open>raise_interrupt\<close>, the \<open>mip\<close> accessors, and the control-flow hint of an indirect jump.
\<close>

section \<open>Trap entry\<close>

definition trap_delegated :: "'a RISCVCPUState_scheme \<Rightarrow> u64 \<Rightarrow> bool" where
  "trap_delegated s cause =
     (if priv s \<le> PRV_S
      then (if cause AND CAUSE_INTERRUPT \<noteq> 0
            then drop_bit (unat (cause AND 63)) (mideleg s) AND 1 \<noteq> 0
            else drop_bit (unat cause) (medeleg s) AND 1 \<noteq> 0)
      else False)"

definition enter_s :: "'a RISCVCPUState_scheme \<Rightarrow> u64 \<Rightarrow> u64 \<Rightarrow> 'a RISCVCPUState_scheme" where
  "enter_s s cause tval =
     (let s = s\<lparr>scause := cause, sepc := CANONICAL_S49 (pc s), stval := CANONICAL_S49 tval\<rparr>;
          st = mstatus s;
          st = (st AND NOT MSTATUS_SPIE)
               OR push_bit MSTATUS_SPIE_SHIFT (of_bool (st AND MSTATUS_SIE \<noteq> 0));
          st = (st AND NOT MSTATUS_SPP) OR push_bit MSTATUS_SPP_SHIFT (ucast (priv s));
          st = st AND NOT MSTATUS_SIE
      in set_priv (s\<lparr>mstatus := st\<rparr>) PRV_S)"

definition enter_m :: "'a RISCVCPUState_scheme \<Rightarrow> u64 \<Rightarrow> u64 \<Rightarrow> 'a RISCVCPUState_scheme" where
  "enter_m s cause tval =
     (let s = s\<lparr>mcause := cause, mepc := CANONICAL_S49 (pc s), mtval := CANONICAL_S49 tval\<rparr>;
          st = mstatus s;
          st = (st AND NOT MSTATUS_MPIE)
               OR push_bit MSTATUS_MPIE_SHIFT (of_bool (st AND MSTATUS_MIE \<noteq> 0));
          st = (st AND NOT MSTATUS_MPP) OR push_bit MSTATUS_MPP_SHIFT (ucast (priv s));
          st = st AND NOT MSTATUS_MIE
      in set_priv (s\<lparr>mstatus := st\<rparr>) PRV_M)"

text \<open>The target of a trap: base address, or base plus four times the interrupt number.\<close>

definition trap_target :: "u64 \<Rightarrow> u64 \<Rightarrow> u64" where
  "trap_target tvec cause =
     (let mode = tvec AND 3; base = tvec AND NOT 3
      in if mode = 1 \<and> cause AND CAUSE_INTERRUPT \<noteq> 0
         then base + 4 * (cause AND NOT CAUSE_INTERRUPT) else base)"

definition raise_exception2 ::
    "'a RISCVCPUState_scheme \<Rightarrow> u64 \<Rightarrow> u64 \<Rightarrow> 'a RISCVCPUState_scheme" where
  "raise_exception2 s cause tval =
     (if trap_delegated s cause
      then let s' = enter_s s cause tval in s'\<lparr>pc := trap_target (stvec s') cause\<rparr>
      else let s' = enter_m s cause tval in s'\<lparr>pc := trap_target (mtvec s') cause\<rparr>)"

definition raise_exception :: "'a RISCVCPUState_scheme \<Rightarrow> u64 \<Rightarrow> 'a RISCVCPUState_scheme" where
  "raise_exception s cause = raise_exception2 s cause 0"

section \<open>Trap return\<close>

definition handle_sret :: "'a RISCVCPUState_scheme \<Rightarrow> 'a RISCVCPUState_scheme" where
  "handle_sret s =
     (let st = mstatus s AND NOT MSTATUS_SIE;
          st = st OR (drop_bit 4 st AND MSTATUS_SIE);
          st = st OR MSTATUS_SPIE;
          spp = drop_bit MSTATUS_SPP_SHIFT (st AND MSTATUS_SPP);
          st = st AND NOT MSTATUS_SPP;
          s' = set_priv (s\<lparr>mstatus := st\<rparr>) (ucast spp)
      in s'\<lparr>pc := sepc s'\<rparr>)"

definition handle_mret :: "'a RISCVCPUState_scheme \<Rightarrow> 'a RISCVCPUState_scheme" where
  "handle_mret s =
     (let st = mstatus s AND NOT MSTATUS_MIE;
          st = st OR (drop_bit 4 st AND MSTATUS_MIE);
          st = st OR MSTATUS_MPIE;
          mpp = drop_bit MSTATUS_MPP_SHIFT (st AND MSTATUS_MPP);
          st = st AND NOT MSTATUS_MPP;
          s' = set_priv (s\<lparr>mstatus := st\<rparr>) (ucast mpp)
      in s'\<lparr>pc := mepc s'\<rparr>)"

definition handle_dret :: "'a RISCVCPUState_scheme \<Rightarrow> 'a RISCVCPUState_scheme" where
  "handle_dret s =
     (let s' = set_priv (s\<lparr>stop_the_counter := False, debug_mode := False\<rparr>) (ucast (dcsr s AND 3))
      in s'\<lparr>pc := dpc s'\<rparr>)"

section \<open>Interrupts\<close>

definition get_pending_irq_mask :: "'a RISCVCPUState_scheme \<Rightarrow> u32" where
  "get_pending_irq_mask s =
     (let pending_ints = mip s AND mie s in
      if pending_ints = 0 then 0
      else let enabled_ints =
             (if priv s = PRV_M
              then (if mstatus s AND MSTATUS_MIE \<noteq> 0 then NOT (mideleg s) else 0)
              else if priv s = PRV_S
              then (if mstatus s AND MSTATUS_SIE \<noteq> 0
                    then NOT (mideleg s) OR mideleg s else NOT (mideleg s))
              else - 1)
           in pending_ints AND enabled_ints)"

text \<open>\<^verbatim>\<open>raise_interrupt\<close> returns -1 (here \<^const>\<open>True\<close>) when it took an interrupt.\<close>

definition raise_interrupt :: "'a RISCVCPUState_scheme \<Rightarrow> bool \<times> 'a RISCVCPUState_scheme" where
  "raise_interrupt s =
     (let msk = get_pending_irq_mask s in
      if msk = 0 then (False, s)
      else (True, raise_exception s (of_nat (ctz32 msk) OR CAUSE_INTERRUPT)))"

definition riscv_cpu_set_mip ::
    "RISCVMachine \<Rightarrow> 'a RISCVCPUState_scheme \<Rightarrow> u32 \<Rightarrow> 'a RISCVCPUState_scheme" where
  "riscv_cpu_set_mip m s msk =
     (let s = s\<lparr>mip := mip s OR msk\<rparr> in
      if power_down_flag s \<and> mip s AND mie s \<noteq> 0 \<and> (pending_interrupt m \<noteq> - 1 \<or> \<not> cosim m)
      then s\<lparr>power_down_flag := False\<rparr> else s)"

definition riscv_cpu_reset_mip :: "'a RISCVCPUState_scheme \<Rightarrow> u32 \<Rightarrow> 'a RISCVCPUState_scheme" where
  "riscv_cpu_reset_mip s msk = s\<lparr>mip := mip s AND NOT msk\<rparr>"

definition riscv_cpu_get_mip :: "'a RISCVCPUState_scheme \<Rightarrow> u32" where
  "riscv_cpu_get_mip s = mip s"

section \<open>Indirect jump hints\<close>

text \<open>The enumeration is ordered, \<open>rd_link * 2 + rs1_link\<close> counts from \<open>ctf_taken_jalr\<close>.\<close>

definition ctf_compute_hint :: "nat \<Rightarrow> nat \<Rightarrow> RISCVCTFInfo" where
  "ctf_compute_hint rd rs1 =
     (let rd_link = (rd = 1 \<or> rd = 5);
          rs1_link = (rs1 = 1 \<or> rs1 = 5);
          k = [ctf_taken_jalr, ctf_taken_jalr_pop, ctf_taken_jalr_push, ctf_taken_jalr_pop_push]
              ! (of_bool rd_link * 2 + of_bool rs1_link)
      in if k = ctf_taken_jalr_pop_push \<and> rs1 = rd then ctf_taken_jalr_push else k)"

end
