(* ===== verification/Iomem.thy ===== *)
theory Iomem
  imports Tlb
begin

text \<open>
  The physical memory map of \<^verbatim>\<open>iomem.cpp\<close> and \<^verbatim>\<open>iomem.h\<close>: registration of RAM and device
  ranges, lookup, dirty-page tracking, moving and disabling ranges. A pointer to a range is
  its index in \<open>phys_mem_range\<close>. A failed assertion or an allocation failure is \<^const>\<open>None\<close>;
  the address \<open>mallocz\<close> returns is an argument.
\<close>

section \<open>Lookup\<close>

definition phys_mem_map_init :: PhysMemoryMap where
  "phys_mem_map_init = \<lparr>n_phys_mem_range = 0, phys_mem_range = (\<lambda>_.
     \<lparr>pr_addr = 0, pr_org_size = 0, pr_size = 0, is_ram = False, devram_flags = 0, phys_mem = 0,
      dirty_bits_size = 0, dirty_bits = None, dirty_bits_tab = (\<lambda>_ _. 0), dirty_bits_index = 0,
      pr_device = DEV_MMIO, devio_flags = 0\<rparr>)\<rparr>"

text \<open>A machine as \<open>mallocz\<close> returns it, with the empty memory map.\<close>

definition zero_machine :: RISCVMachine where
  "zero_machine =
     \<lparr>maxinsns = 0, trace = 0, cosim = False, pending_interrupt = 0, m_pending_exception = 0,
      hooks_csr_read = None, hooks_csr_write = None, mem_map = phys_mem_map_init,
      cpu_state = (\<lambda>_. zero_cpu), ncpus = 0, ram_size = 0, ram_base_addr = 0,
      plic_pending_irq = 0, plic_served_irq = 0, htif_tohost_addr = 0, mmio_start = 0,
      mmio_end = 0, mmio_addrset = [], reset_vector = 0, compact_bootrom = False,
      plic_base_addr = 0, plic_size = 0, clint_base_addr = 0, clint_size = 0,
      custom_extension = False, missing_csrs = [], skip_commit = [], plic_priority = (\<lambda>_. 0),
      uart = \<lparr>rx_fifo_len = 0, uart_ie = 0, uart_ip = 0, txctrl = 0, rxctrl = 0, uart_div = 0\<rparr>,
      dw_apb_uart = \<lparr>div_latch = 0, rbr = 0, ier = 0, fcr = 0, iid = 0, lcr = 0, lsr = 0\<rparr>,
      console_in = [], console_out = [], host_mem = (\<lambda>_. 0)\<rparr>"

definition in_range :: "PhysMemoryRange \<Rightarrow> u64 \<Rightarrow> bool" where
  "in_range pr paddr = (pr_addr pr \<le> paddr \<and> paddr < pr_addr pr + pr_size pr)"

text \<open>The loop of \<open>get_phys_mem_range\<close> runs from the last range down to the first.\<close>

fun find_range :: "PhysMemoryMap \<Rightarrow> u64 \<Rightarrow> nat \<Rightarrow> nat option" where
  "find_range m paddr 0 = None"
| "find_range m paddr (Suc i) =
     (if in_range (phys_mem_range m i) paddr then Some i else find_range m paddr i)"

definition get_phys_mem_range :: "PhysMemoryMap \<Rightarrow> u64 \<Rightarrow> nat option" where
  "get_phys_mem_range m paddr = find_range m paddr (n_phys_mem_range m)"

definition set_range :: "PhysMemoryMap \<Rightarrow> nat \<Rightarrow> PhysMemoryRange \<Rightarrow> PhysMemoryMap" where
  "set_range m i pr = m\<lparr>phys_mem_range := (phys_mem_range m)(i := pr)\<rparr>"

section \<open>Registration\<close>

definition register_ram_entry ::
    "PhysMemoryMap \<Rightarrow> u64 \<Rightarrow> u64 \<Rightarrow> u32 \<Rightarrow> (nat \<times> PhysMemoryMap) option" where
  "register_ram_entry m a sz flags =
     (if \<not> n_phys_mem_range m < PHYS_MEM_RANGE_MAX then None
      else if \<not> (sz AND (DEVRAM_PAGE_SIZE - 1) = 0 \<and> sz \<noteq> 0) then None
      else let i = n_phys_mem_range m;
               pr = (phys_mem_range m i)
                 \<lparr>is_ram := True, devram_flags := flags AND NOT DEVRAM_FLAG_DISABLED,
                  pr_addr := a, pr_org_size := sz,
                  pr_size := (if flags AND DEVRAM_FLAG_DISABLED \<noteq> 0 then 0 else sz),
                  phys_mem := 0, dirty_bits := None\<rparr>
           in Some (i, (set_range m i pr)\<lparr>n_phys_mem_range := i + 1\<rparr>))"

definition zero_block :: "u64 \<Rightarrow> u64 \<Rightarrow> hostmem \<Rightarrow> hostmem" where
  "zero_block p sz h = (\<lambda>q. if q - p < sz then 0 else h q)"

text \<open>
  \<open>cpu_register_ram\<close> calls \<open>default_register_ram\<close>; \<open>p\<close> is what \<open>mallocz(size)\<close>
  returned (0 when it failed, then the program exits).
\<close>

definition default_register_ram :: "u64 \<Rightarrow> PhysMemoryMap \<Rightarrow> hostmem \<Rightarrow> u64 \<Rightarrow> u64 \<Rightarrow> u32
    \<Rightarrow> (nat \<times> PhysMemoryMap \<times> hostmem) option" where
  "default_register_ram p m h a sz flags =
     (case register_ram_entry m a sz flags of
        None \<Rightarrow> None
      | Some (i, m1) \<Rightarrow>
          if p = 0 then None
          else let pr = (phys_mem_range m1 i)\<lparr>phys_mem := p\<rparr>;
                   nb_pages = drop_bit DEVRAM_PAGE_SIZE_LOG2 sz;
                   pr = (if flags AND DEVRAM_FLAG_DIRTY_BITS \<noteq> 0
                         then pr\<lparr>dirty_bits_size := unat ((nb_pages + 31) div 32) * 4,
                                 dirty_bits_index := 0,
                                 dirty_bits_tab := (\<lambda>_ _. 0),
                                 dirty_bits := Some 0\<rparr>
                         else pr)
               in Some (i, set_range m1 i pr, zero_block p sz h))"

definition cpu_register_device ::
    "PhysMemoryMap \<Rightarrow> u64 \<Rightarrow> u64 \<Rightarrow> device \<Rightarrow> u32 \<Rightarrow> (nat \<times> PhysMemoryMap) option" where
  "cpu_register_device m a sz dev flags =
     (if \<not> n_phys_mem_range m < PHYS_MEM_RANGE_MAX then None
      else if \<not> sz \<le> 0xffffffff then None
      else let i = n_phys_mem_range m;
               pr = (phys_mem_range m i)
                 \<lparr>pr_addr := a, pr_org_size := sz,
                  pr_size := (if flags AND DEVIO_DISABLED \<noteq> 0 then 0 else sz),
                  is_ram := False, pr_device := dev, devio_flags := flags\<rparr>
           in Some (i, (set_range m i pr)\<lparr>n_phys_mem_range := i + 1\<rparr>))"

section \<open>Dirty bits\<close>

definition phys_mem_set_dirty_bit :: "PhysMemoryRange \<Rightarrow> u64 \<Rightarrow> PhysMemoryRange" where
  "phys_mem_set_dirty_bit pr off =
     (case dirty_bits pr of
        None \<Rightarrow> pr
      | Some t \<Rightarrow>
          let page_index = drop_bit DEVRAM_PAGE_SIZE_LOG2 off;
              msk = push_bit (unat (page_index AND 0x1f)) 1;
              w = unat (drop_bit 5 page_index);
              tab = dirty_bits_tab pr t
          in pr\<lparr>dirty_bits_tab := (dirty_bits_tab pr)(t := tab(w := tab w OR msk))\<rparr>)"

definition phys_mem_is_dirty_bit :: "PhysMemoryRange \<Rightarrow> u64 \<Rightarrow> bool" where
  "phys_mem_is_dirty_bit pr off =
     (case dirty_bits pr of
        None \<Rightarrow> True
      | Some t \<Rightarrow>
          let page_index = drop_bit DEVRAM_PAGE_SIZE_LOG2 off
          in drop_bit (unat (page_index AND 0x1f)) (dirty_bits_tab pr t (unat (drop_bit 5 page_index)))
             AND 1 \<noteq> 0)"

text \<open>The machine's \<open>flush_tlb_write_range\<close> callback: every hart, in order.\<close>

definition riscv_flush_tlb_write_range :: "RISCVMachine \<Rightarrow> u64 \<Rightarrow> u64 \<Rightarrow> RISCVMachine" where
  "riscv_flush_tlb_write_range m ram_addr ram_sz =
     fold (\<lambda>i m. set_cpu i (riscv_cpu_flush_tlb_write_range_ram (cpu_state m i) ram_addr ram_sz) m)
       [0..<ncpus m] m"

text \<open>
  \<open>default_get_dirty_bits\<close> on range \<open>i\<close>: the table in use is returned, the other one is
  cleared and becomes the one in use. A range without dirty bits has a null table and size 0;
  clearing it is a \<open>memset\<close> of size 0.
\<close>

definition default_get_dirty_bits :: "RISCVMachine \<Rightarrow> nat \<Rightarrow> nat option \<times> RISCVMachine" where
  "default_get_dirty_bits m i =
     (let pr = phys_mem_range (mem_map m) i;
          n = dirty_bits_size pr div 4;
          has_dirty_bits = (case dirty_bits pr of None \<Rightarrow> False
            | Some t \<Rightarrow> \<exists>k \<in> set [0..<n]. dirty_bits_tab pr t k \<noteq> 0);
          m1 = (if has_dirty_bits \<and> pr_size pr \<noteq> 0
                then riscv_flush_tlb_write_range m (phys_mem pr) (pr_org_size pr) else m);
          j = 1 - dirty_bits_index pr;
          pr' = pr\<lparr>dirty_bits_index := j,
                   dirty_bits := (case dirty_bits pr of None \<Rightarrow> None | Some _ \<Rightarrow> Some j),
                   dirty_bits_tab := (dirty_bits_tab pr)
                     (j := (\<lambda>k. if k < n then 0 else dirty_bits_tab pr j k))\<rparr>
      in (dirty_bits pr, m1\<lparr>mem_map := set_range (mem_map m1) i pr'\<rparr>))"

section \<open>Moving and disabling a range\<close>

text \<open>\<open>phys_mem_set_addr\<close> reaches \<open>default_set_addr\<close> for RAM and for devices alike.\<close>

definition default_set_addr :: "RISCVMachine \<Rightarrow> nat \<Rightarrow> u64 \<Rightarrow> bool \<Rightarrow> RISCVMachine" where
  "default_set_addr m i a enabled =
     (let pr = phys_mem_range (mem_map m) i;
          flushed = (if is_ram pr
                     then riscv_flush_tlb_write_range m (phys_mem pr) (pr_org_size pr) else m);
          put = (\<lambda>m pr. m\<lparr>mem_map := set_range (mem_map m) i pr\<rparr>)
      in if enabled
         then (if pr_size pr = 0 \<or> pr_addr pr \<noteq> a
               then put flushed (pr\<lparr>pr_addr := a, pr_size := pr_org_size pr\<rparr>) else m)
         else (if pr_size pr \<noteq> 0
               then put flushed (pr\<lparr>pr_addr := 0, pr_size := 0\<rparr>) else m))"

definition get_ram_ptr :: "RISCVMachine \<Rightarrow> u64 \<Rightarrow> u64 option" where
  "get_ram_ptr m paddr =
     (case get_phys_mem_range (mem_map m) paddr of
        None \<Rightarrow> None
      | Some i \<Rightarrow> (let pr = phys_mem_range (mem_map m) i in
          if \<not> is_ram pr then None else Some (phys_mem pr + (paddr - pr_addr pr))))"

section \<open>Lookup and registration\<close>

lemma find_range_Some:
  "find_range m a n = Some i \<longleftrightarrow>
     i < n \<and> in_range (phys_mem_range m i) a
     \<and> (\<forall>j. i < j \<and> j < n \<longrightarrow> \<not> in_range (phys_mem_range m j) a)"
proof (induction n)
  case (Suc n)
  then show ?case by (auto simp: less_Suc_eq)
qed simp

lemma find_range_None:
  "find_range m a n = None \<longleftrightarrow> (\<forall>j < n. \<not> in_range (phys_mem_range m j) a)"
  by (induction n) (auto simp: less_Suc_eq)

lemma find_range_cong:
  "(\<And>j. j < n \<Longrightarrow> in_range (phys_mem_range m j) a = in_range (phys_mem_range m' j) a)
   \<Longrightarrow> find_range m a n = find_range m' a n"
  by (induction n) auto

lemma get_phys_mem_range_bound:
  "get_phys_mem_range m a = Some i \<Longrightarrow>
     i < n_phys_mem_range m \<and> in_range (phys_mem_range m i) a"
  by (simp add: get_phys_mem_range_def find_range_Some)

lemma range_append:
  assumes "m' = (set_range m (n_phys_mem_range m) pr)\<lparr>n_phys_mem_range := n_phys_mem_range m + 1\<rparr>"
  shows "get_phys_mem_range m' x =
    (if in_range pr x then Some (n_phys_mem_range m) else get_phys_mem_range m x)"
proof -
  have "find_range m' x (n_phys_mem_range m) = find_range m x (n_phys_mem_range m)"
    by (rule find_range_cong) (simp add: assms set_range_def)
  then show ?thesis by (simp add: get_phys_mem_range_def assms set_range_def)
qed

text \<open>
  The contract of a registration: the new range answers for its addresses, every other address
  is resolved as before. The properties of a sequence of registrations follow from it.
\<close>

locale range_registry =
  fixes lookup :: "'m \<Rightarrow> u64 \<Rightarrow> nat option"
    and register :: "'m \<Rightarrow> u64 \<Rightarrow> u64 \<Rightarrow> (nat \<times> 'm) option"
  assumes lookup_register:
    "register m a sz = Some (i, m') \<Longrightarrow>
       lookup m' x = (if a \<le> x \<and> x < a + sz then Some i else lookup m x)"
begin

lemma later_range_wins:
  assumes "register m a sz = Some (i, m1)" and "register m1 b tz = Some (j, m2)"
    and "b \<le> x" and "x < b + tz"
  shows "lookup m2 x = Some j"
  using assms lookup_register [of m1 b tz j m2 x] by simp

lemma earlier_range_kept:
  assumes "register m a sz = Some (i, m1)" and "register m1 b tz = Some (j, m2)"
    and "a \<le> x" and "x < a + sz" and "\<not> (b \<le> x \<and> x < b + tz)"
  shows "lookup m2 x = Some i"
  using assms lookup_register [of m1 b tz j m2 x] lookup_register [of m a sz i m1 x] by auto

end

lemma cpu_register_device_lookup:
  assumes "cpu_register_device m a sz d fl = Some (i, m')" and "fl AND DEVIO_DISABLED = 0"
  shows "get_phys_mem_range m' x =
    (if a \<le> x \<and> x < a + sz then Some i else get_phys_mem_range m x)"
  using assms
  by (auto simp: cpu_register_device_def Let_def in_range_def range_append split: if_splits)

lemma register_ram_entry_lookup:
  assumes "register_ram_entry m a sz fl = Some (i, m')" and "fl AND DEVRAM_FLAG_DISABLED = 0"
  shows "get_phys_mem_range m' x =
    (if a \<le> x \<and> x < a + sz then Some i else get_phys_mem_range m x)"
  using assms
  by (auto simp: register_ram_entry_def Let_def in_range_def range_append split: if_splits)

interpretation ram_registry:
  range_registry get_phys_mem_range "\<lambda>m a sz. register_ram_entry m a sz 0"
  by unfold_locales (simp add: register_ram_entry_lookup)

interpretation dev_registry:
  range_registry get_phys_mem_range "\<lambda>m a sz. cpu_register_device m a sz d DEVIO_SIZE32" for d
  by unfold_locales (simp add: cpu_register_device_lookup)


section \<open>Dirty pages\<close>

abbreviation page_of :: "u64 \<Rightarrow> u64" where
  "page_of off \<equiv> drop_bit DEVRAM_PAGE_SIZE_LOG2 off"

lemma split_page_index:
  fixes p q :: u64
  assumes "unat (drop_bit 5 p) = unat (drop_bit 5 q)" and "unat (p AND 0x1f) = unat (q AND 0x1f)"
  shows "p = q"
proof -
  have "drop_bit 5 p = drop_bit 5 q" "take_bit 5 p = take_bit 5 q"
    using assms by (simp_all add: word_unat_eq_iff take_bit_eq_mask mask_eq_exp_minus_1)
  then show ?thesis by (metis bits_ident)
qed

lemma bit_test_word: "drop_bit k (w :: u32) AND 1 \<noteq> 0 \<longleftrightarrow> bit w k"
  by (simp add: and_one_eq odd_iff_mod_2_eq_one [symmetric] bit_iff_odd_drop_bit)

lemma set_bit_in_table:
  fixes p q :: u64 and tab :: "nat \<Rightarrow> u32"
  defines "i \<equiv> \<lambda>x :: u64. unat (x AND 0x1f)" and "w \<equiv> \<lambda>x :: u64. unat (drop_bit 5 x)"
  shows "bit ((tab(w p := tab (w p) OR push_bit (i p) 1)) (w q)) (i q) \<longleftrightarrow> p = q \<or> bit (tab (w q)) (i q)"
proof -
  have lt: "i x < 32" for x
    using word_and_le1 [of x "0x1f"] by (simp add: word_le_nat_alt i_def)
  have "bit (push_bit (i p) (1 :: u32)) (i q) \<longleftrightarrow> i p = i q"
    using lt [of p] lt [of q] by (auto simp: bit_exp_iff)
  moreover have "p = q" if "w p = w q" "i p = i q"
    using that split_page_index [of p q] by (simp add: i_def w_def)
  ultimately show ?thesis by (cases "w q = w p") (metis bit_or_iff fun_upd_same, metis fun_upd_other)
qed

lemma is_dirty_after_set:
  "phys_mem_is_dirty_bit (phys_mem_set_dirty_bit pr off) off' \<longleftrightarrow>
     dirty_bits pr = None \<or> page_of off = page_of off' \<or> phys_mem_is_dirty_bit pr off'"
proof (cases "dirty_bits pr")
  case (Some t)
  then show ?thesis
    using set_bit_in_table [of "dirty_bits_tab pr t" "page_of off" "page_of off'"]
    by (simp add: phys_mem_is_dirty_bit_def phys_mem_set_dirty_bit_def Let_def bit_test_word
        del: drop_bit_drop_bit)
qed (simp add: phys_mem_is_dirty_bit_def phys_mem_set_dirty_bit_def)


text \<open>
  The table in use is one of the two and has a bit for every page of the range. A write TLB
  entry into the range stands for a page that is marked, so a page whose bit is clear can only
  be written through the slow path, which marks it.
\<close>

definition dirty_wf :: "PhysMemoryRange \<Rightarrow> bool" where
  "dirty_wf pr = (\<forall>t. dirty_bits pr = Some t \<longrightarrow>
     t = dirty_bits_index pr \<and> t \<le> 1
     \<and> (\<forall>off < pr_org_size pr. unat (drop_bit 5 (page_of off)) < dirty_bits_size pr div 4))"

definition tlb_ptr :: "TLBEntry \<Rightarrow> u64" where
  "tlb_ptr e = mem_addend e + vaddr e"

definition points_into :: "TLBEntry \<Rightarrow> u64 \<Rightarrow> u64 \<Rightarrow> bool" where
  "points_into e p sz = (vaddr e \<noteq> - 1 \<and> p \<le> tlb_ptr e \<and> tlb_ptr e < p + sz)"

definition dirty_tracked :: "RISCVMachine \<Rightarrow> nat \<Rightarrow> bool" where
  "dirty_tracked m i =
     (let pr = phys_mem_range (mem_map m) i in
      \<forall>h < ncpus m. \<forall>k < TLB_SIZE. let e = tlb_write (cpu_state m h) k in
        points_into e (phys_mem pr) (pr_org_size pr)
        \<longrightarrow> phys_mem_is_dirty_bit pr (tlb_ptr e - phys_mem pr))"

lemma fold_set_cpu:
  "fold (\<lambda>i m. set_cpu i (f (cpu_state m i)) m) [0..<n] m
     = m\<lparr>cpu_state := (\<lambda>i. if i < n then f (cpu_state m i) else cpu_state m i)\<rparr>"
proof (induction n)
  case (Suc n)
  then show ?case by (simp add: set_cpu_def fun_eq_iff less_Suc_eq)
qed simp

lemma flush_clears:
  assumes "k < TLB_SIZE"
  shows "\<not> points_into (tlb_write (riscv_cpu_flush_tlb_write_range_ram s p sz) k) p sz"
  using assms
  by (simp add: riscv_cpu_flush_tlb_write_range_ram_def points_into_def tlb_ptr_def Let_def)

lemma flush_range_eq:
  "riscv_flush_tlb_write_range m p sz = m\<lparr>cpu_state := (\<lambda>i. if i < ncpus m
     then riscv_cpu_flush_tlb_write_range_ram (cpu_state m i) p sz else cpu_state m i)\<rparr>"
  unfolding riscv_flush_tlb_write_range_def
  by (rule fold_set_cpu [of "\<lambda>c. riscv_cpu_flush_tlb_write_range_ram c p sz"])

lemma flush_all_clears:
  assumes "h < ncpus m" "k < TLB_SIZE"
  shows "\<not> points_into (tlb_write (cpu_state (riscv_flush_tlb_write_range m p sz) h) k) p sz"
  using assms flush_clears [of k "cpu_state m h" p sz] by (simp add: flush_range_eq)

lemma flush_frame [simp]:
  "mem_map (riscv_flush_tlb_write_range m p sz) = mem_map m"
  "ncpus (riscv_flush_tlb_write_range m p sz) = ncpus m"
  by (simp_all add: flush_range_eq)

lemma unmarked_page:
  assumes "dirty_bits pr = Some t" "\<forall>k \<in> set [0..<n]. dirty_bits_tab pr t k = 0"
    and "unat (drop_bit 5 (page_of off)) < n"
  shows "\<not> phys_mem_is_dirty_bit pr off"
  using assms by (simp add: phys_mem_is_dirty_bit_def Let_def del: drop_bit_drop_bit)

lemma points_into_offset: "points_into e p sz \<Longrightarrow> tlb_ptr e - p < sz"
  unfolding points_into_def by unat_arith


lemma page_table_covers:
  fixes sz off :: u64
  assumes al: "sz AND (DEVRAM_PAGE_SIZE - 1) = 0" and lt: "off < sz"
  shows "unat (drop_bit 5 (page_of off)) < unat ((page_of sz + 31) div 32)"
proof -
  have "take_bit 12 sz = 0" using al by (simp add: take_bit_eq_mask mask_eq_exp_minus_1)
  then have "take_bit 12 (unat sz) = 0" by (metis unsigned_0 unsigned_take_bit_eq)
  then have "unat sz mod 4096 = 0" by (simp add: take_bit_eq_mod)
  moreover have "unat off < unat sz" using lt by (simp add: word_less_nat_alt)
  ultimately have pg: "unat off div 4096 < unat sz div 4096"
    by (auto simp: mod_eq_0_iff_dvd elim!: dvdE intro!: less_mult_imp_div_less)
  have nb: "unat (page_of sz) = unat sz div 4096" by (simp add: drop_bit_eq_div unat_div)
  have "unat sz < 2 ^ 64" using unsigned_less [of sz, where ?'a = nat] by simp
  then have "unat (page_of sz + 31) = unat sz div 4096 + 31"
    using nb by (simp add: unat_word_ariths)
  then have "unat ((page_of sz + 31) div 32) = (unat sz div 4096 + 31) div 32"
    by (simp add: unat_div)
  moreover have "unat (drop_bit 5 (page_of off)) = unat off div 4096 div 32"
    by (simp add: drop_bit_eq_div unat_div div_mult2_eq [symmetric])
  ultimately show ?thesis using pg by linarith
qed

text \<open>
  C27. Registering a RAM range appends it to the memory map: the new range answers for exactly its
  addresses, also where an older range answered before, every other address is resolved as
  before; the range is RAM backed by the allocated block, which reads as zero; and its dirty
  bitmap, if it has one, covers every page.
\<close>

theorem register_ram_spec:
  assumes reg: "default_register_ram p m h a sz fl = Some (i, m', h')"
    and en: "fl AND DEVRAM_FLAG_DISABLED = 0"
  shows "get_phys_mem_range m' x = (if a \<le> x \<and> x < a + sz then Some i else get_phys_mem_range m x)
    \<and> i < n_phys_mem_range m' \<and> (let pr = phys_mem_range m' i in
         is_ram pr \<and> pr_addr pr = a \<and> pr_size pr = sz \<and> phys_mem pr = p \<and> dirty_wf pr)
    \<and> h' q = (if q - p < sz then 0 else h q)"
proof -
  obtain m1 where e: "register_ram_entry m a sz fl = Some (i, m1)" and p: "p \<noteq> 0"
    using reg
    by (auto simp: default_register_ram_def Let_def split: option.splits prod.splits if_splits)
  define pr where "pr = phys_mem_range m' i"
  have i: "i = n_phys_mem_range m" "n_phys_mem_range m1 = i + 1"
    and al: "sz AND (DEVRAM_PAGE_SIZE - 1) = 0"
    and pr1: "is_ram (phys_mem_range m1 i)" "pr_addr (phys_mem_range m1 i) = a"
      "pr_size (phys_mem_range m1 i) = sz" "pr_org_size (phys_mem_range m1 i) = sz"
      "dirty_bits (phys_mem_range m1 i) = None"
    using e en by (auto simp: register_ram_entry_def Let_def set_range_def split: if_splits)
  have m': "m' = set_range m1 i pr" "h' = zero_block p sz h"
    and pr: "is_ram pr" "pr_addr pr = a" "pr_size pr = sz" "phys_mem pr = p"
      "pr_org_size pr = sz"
      "dirty_bits pr = None \<or> dirty_bits pr = Some 0 \<and> dirty_bits_index pr = 0
         \<and> dirty_bits_size pr = unat ((page_of sz + 31) div 32) * 4"
    using reg e p pr1
    by (auto simp: default_register_ram_def Let_def set_range_def pr_def split: if_splits)
  have "dirty_wf pr" using pr page_table_covers [OF al] by (auto simp: dirty_wf_def)
  moreover have "find_range m' x (n_phys_mem_range m1) = find_range m1 x (n_phys_mem_range m1)"
    by (rule find_range_cong) (use pr pr1 in \<open>auto simp: m' set_range_def in_range_def\<close>)
  then have "get_phys_mem_range m' x = get_phys_mem_range m1 x"
    by (simp add: get_phys_mem_range_def m' set_range_def)
  moreover have "i < n_phys_mem_range m'" using i by (simp add: m'(1) set_range_def)
  moreover have "h' q = (if q - p < sz then 0 else h q)" by (simp add: m'(2) zero_block_def)
  ultimately show ?thesis
    using register_ram_entry_lookup [OF e en, of x] pr unfolding pr_def Let_def by simp
qed

theorem register_ram_spec_witness:
  "\<exists>m' h'. default_register_ram 0x7000 phys_mem_map_init (\<lambda>_. 1) 0x80000000 0x2000
      DEVRAM_FLAG_DIRTY_BITS = Some (0, m', h')
    \<and> get_phys_mem_range m' 0x80001fff = Some 0 \<and> get_phys_mem_range m' 0x80002000 = None
    \<and> h' 0x7fff = 0"
proof -
  obtain m' h' where r: "default_register_ram 0x7000 phys_mem_map_init (\<lambda>_. 1) 0x80000000 0x2000
      DEVRAM_FLAG_DIRTY_BITS = Some (0, m', h')"
    by (simp add: default_register_ram_def register_ram_entry_def phys_mem_map_init_def Let_def)
  show ?thesis
    using r register_ram_spec [OF r, of "0x80001fff" "0x7fff"]
      register_ram_spec [OF r, of "0x80002000"]
    by (auto simp: phys_mem_map_init_def get_phys_mem_range_def)
qed

text \<open>
  C20. Reading and clearing the dirty bitmap of a range loses no write: the caller gets the table
  with exactly the bits set so far, afterwards no page of the range is marked, and no hart keeps
  a write TLB entry into the range, so the next write to any page marks it again.
\<close>

theorem get_dirty_bits_exact:
  fixes m :: RISCVMachine and i :: nat
  defines "pr \<equiv> phys_mem_range (mem_map m) i"
    and "m' \<equiv> snd (default_get_dirty_bits m i)"
  defines "pr' \<equiv> phys_mem_range (mem_map m') i"
  assumes t: "dirty_bits pr = Some t" and wf: "dirty_wf pr" and en: "pr_size pr \<noteq> 0"
    and tr: "dirty_tracked m i"
  shows "fst (default_get_dirty_bits m i) = Some t
    \<and> dirty_bits_tab pr' t = dirty_bits_tab pr t
    \<and> (\<forall>off < pr_org_size pr'. \<not> phys_mem_is_dirty_bit pr' off)
    \<and> (\<forall>h < ncpus m'. \<forall>k < TLB_SIZE.
         \<not> points_into (tlb_write (cpu_state m' h) k) (phys_mem pr') (pr_org_size pr'))
    \<and> dirty_wf pr' \<and> dirty_tracked m' i"
proof -
  let ?n = "dirty_bits_size pr div 4" and ?j = "1 - dirty_bits_index pr"
  from wf t have ti: "t = dirty_bits_index pr" "t \<le> 1" and
    cov: "\<And>off. off < pr_org_size pr \<Longrightarrow> unat (drop_bit 5 (page_of off)) < ?n"
    by (simp_all add: dirty_wf_def)
  have pr': "pr' = pr\<lparr>dirty_bits_index := ?j, dirty_bits := Some ?j,
      dirty_bits_tab := (dirty_bits_tab pr)(?j := (\<lambda>k. if k < ?n then 0 else dirty_bits_tab pr ?j k))\<rparr>"
    using t by (simp add: pr'_def m'_def default_get_dirty_bits_def Let_def set_range_def pr_def
        cong: if_cong)
  have clean: "\<not> phys_mem_is_dirty_bit pr' off" if "off < pr_org_size pr'" for off
    by (rule unmarked_page [of _ ?j ?n]) (use that cov in \<open>simp_all add: pr'\<close>)
  have no_entry: "\<not> points_into (tlb_write (cpu_state m' h) k) (phys_mem pr') (pr_org_size pr')"
    if h: "h < ncpus m'" and k: "k < TLB_SIZE" for h k
  proof (cases "\<exists>k \<in> set [0..<?n]. dirty_bits_tab pr t k \<noteq> 0")
    case True
    then have "cpu_state m' h
        = cpu_state (riscv_flush_tlb_write_range m (phys_mem pr) (pr_org_size pr)) h"
      "ncpus m' = ncpus m"
      using t en by (auto simp: m'_def default_get_dirty_bits_def Let_def pr_def)
    with h k show ?thesis using flush_all_clears [of h m k] by (simp add: pr')
  next
    case False
    then have same: "cpu_state m' h = cpu_state m h" "ncpus m' = ncpus m"
      using t by (auto simp: m'_def default_get_dirty_bits_def Let_def pr_def)
    show ?thesis
    proof
      let ?e = "tlb_write (cpu_state m' h) k"
      assume pe: "points_into ?e (phys_mem pr') (pr_org_size pr')"
      then have "phys_mem_is_dirty_bit pr (tlb_ptr ?e - phys_mem pr)"
        using tr h k same by (simp add: dirty_tracked_def Let_def pr_def [symmetric] pr')
      moreover have "unat (drop_bit 5 (page_of (tlb_ptr ?e - phys_mem pr))) < ?n"
        using points_into_offset [OF pe] cov by (simp add: pr')
      ultimately show False using unmarked_page [OF t, of ?n] False by auto
    qed
  qed
  have "dirty_wf pr'" using cov by (simp add: dirty_wf_def pr')
  moreover have "dirty_tracked m' i"
    using no_entry by (simp add: dirty_tracked_def Let_def pr'_def [symmetric])
  moreover have "fst (default_get_dirty_bits m i) = Some t"
    using t by (simp add: default_get_dirty_bits_def Let_def pr_def)
  moreover have "?j \<noteq> t" using ti by arith
  then have "dirty_bits_tab pr' t = dirty_bits_tab pr t" by (simp add: pr')
  ultimately show ?thesis using clean no_entry by blast
qed


definition dirty_example :: RISCVMachine where
  "dirty_example = zero_machine\<lparr>ncpus := 1, mem_map :=
     (case default_register_ram 0x7000 phys_mem_map_init (\<lambda>_. 0) 0x80000000 0x2000
        DEVRAM_FLAG_DIRTY_BITS of Some (_, mm, _) \<Rightarrow> mm | None \<Rightarrow> phys_mem_map_init)\<rparr>"

lemma dirty_example_range:
  "phys_mem_range (mem_map dirty_example) 0 =
     \<lparr>pr_addr = 0x80000000, pr_org_size = 0x2000, pr_size = 0x2000, is_ram = True,
      devram_flags = 2, phys_mem = 0x7000, dirty_bits_size = 4, dirty_bits = Some 0,
      dirty_bits_tab = (\<lambda>_ _. 0), dirty_bits_index = 0, pr_device = DEV_MMIO, devio_flags = 0\<rparr>"
  by (simp add: dirty_example_def default_register_ram_def register_ram_entry_def
      phys_mem_map_init_def Let_def set_range_def)

lemma dirty_example_wf:
  "dirty_wf (phys_mem_range (mem_map dirty_example) 0) \<and> dirty_tracked dirty_example 0"
proof
  show "dirty_wf (phys_mem_range (mem_map dirty_example) 0)"
    using page_table_covers [of "0x2000"] by (simp add: dirty_wf_def dirty_example_range)
  show "dirty_tracked dirty_example 0"
    unfolding dirty_tracked_def Let_def dirty_example_range
    by (simp add: points_into_def tlb_ptr_def dirty_example_def zero_machine_def zero_cpu_def)
qed

theorem get_dirty_bits_exact_witness:
  "fst (default_get_dirty_bits dirty_example 0) = Some 0
   \<and> \<not> phys_mem_is_dirty_bit
        (phys_mem_range (mem_map (snd (default_get_dirty_bits dirty_example 0))) 0) 0
   \<and> dirty_tracked (snd (default_get_dirty_bits dirty_example 0)) 0"
  using get_dirty_bits_exact [of dirty_example 0 0] dirty_example_wf
  by (simp add: dirty_example_range default_get_dirty_bits_def Let_def set_range_def cong: if_cong)

end
