(* ===== verification/Devices.thy ===== *)
theory Devices
  imports Trap Iomem
begin

text \<open>
  The memory-mapped devices: the CLINT, the PLIC, the SiFive UART and the dummy MMIO range of
  \<^verbatim>\<open>riscv_machine.cpp\<close>, and the Synopsys UART of \<^verbatim>\<open>dw_apb_uart.cpp\<close>. A read callback
  returns a value and the machine; \<^const>\<open>None\<close> is a failed assertion or the dereference of a
  null \<open>cpu_state\<close> pointer. Messages on the error stream have no effect on the state.
\<close>

section \<open>Console\<close>

text \<open>\<open>cs->read_data(cs->opaque, &r, 1)\<close>: one byte when there is one.\<close>

definition console_read :: "RISCVMachine \<Rightarrow> u8 option \<times> RISCVMachine" where
  "console_read m =
     (case console_in m of [] \<Rightarrow> (None, m) | c # cs \<Rightarrow> (Some c, m\<lparr>console_in := cs\<rparr>))"

definition console_write :: "RISCVMachine \<Rightarrow> u8 \<Rightarrow> RISCVMachine" where
  "console_write m c = m\<lparr>console_out := console_out m @ [c]\<rparr>"

section \<open>Dummy MMIO range and SiFive UART\<close>

definition mmio_read :: "RISCVMachine \<Rightarrow> u32 \<Rightarrow> nat \<Rightarrow> u32 \<times> RISCVMachine" where
  "mmio_read m offset size_log2 = (0, m)"

definition mmio_write :: "RISCVMachine \<Rightarrow> u32 \<Rightarrow> u32 \<Rightarrow> nat \<Rightarrow> RISCVMachine" where
  "mmio_write m offset val size_log2 = m"

definition uart_read :: "RISCVMachine \<Rightarrow> u32 \<Rightarrow> nat \<Rightarrow> u32 \<times> RISCVMachine" where
  "uart_read m offset size_log2 =
     (let s = uart m in
      if offset = 4 then (case console_read m of (Some r, m') \<Rightarrow> (ucast r, m') | (None, m') \<Rightarrow> (0x80000000, m'))
      else if offset = 0 then (0, m)
      else if offset = 16 then (uart_ie s, m)
      else if offset = 20 then ((if rx_fifo_len s \<noteq> 0 then 2 else 0), m)
      else if offset = 8 then (txctrl s, m)
      else if offset = 12 then (rxctrl s, m)
      else if offset = 24 then (uart_div s, m)
      else (0, m))"

definition uart_write :: "RISCVMachine \<Rightarrow> u32 \<Rightarrow> u32 \<Rightarrow> nat \<Rightarrow> RISCVMachine" where
  "uart_write m offset val size_log2 =
     (let s = uart m in
      if offset = 0 then console_write m (ucast val)
      else if offset = 16 then m\<lparr>uart := s\<lparr>uart_ie := val\<rparr>\<rparr>
      else if offset = 8 then m\<lparr>uart := s\<lparr>txctrl := val\<rparr>\<rparr>
      else if offset = 12 then m\<lparr>uart := s\<lparr>rxctrl := val\<rparr>\<rparr>
      else if offset = 24 then m\<lparr>uart := s\<lparr>uart_div := val\<rparr>\<rparr>
      else m)"

section \<open>Synopsys UART\<close>

definition dw_apb_uart_read :: "RISCVMachine \<Rightarrow> u32 \<Rightarrow> nat \<Rightarrow> (u32 \<times> RISCVMachine) option" where
  "dw_apb_uart_read m offset size_log2 =
     (let s = dw_apb_uart m in
      if \<not> (offset mod 4 = 0 \<and> offset div 4 < 64) then None
      else if offset = 0x00 then
        (if lcr s AND 0x80 \<noteq> 0 then Some (ucast (div_latch s AND 255), m)
         else Some (ucast (rbr s), m\<lparr>dw_apb_uart := s\<lparr>lsr := lsr s AND NOT 1 AND NOT 30\<rparr>\<rparr>))
      else if offset = 0x04 then
        (if lcr s AND 0x80 \<noteq> 0 then Some (ucast (drop_bit 8 (div_latch s)), m)
         else Some (ucast (ier s), m))
      else if offset = 0x08 then
        Some ((if fcr s AND 1 \<noteq> 0 then 0xc0 else 0) + 1, m\<lparr>dw_apb_uart := s\<lparr>iid := 1\<rparr>\<rparr>)
      else if offset = 0x0c then Some (ucast (lcr s), m)
      else if offset = 0x14 then
        (let l = (lsr s OR 0x40 OR 0x20) AND NOT 30 in
         if l AND 1 = 0
         then (case console_read m of
             (Some buf, m') \<Rightarrow> Some (ucast (lsr s), m'\<lparr>dw_apb_uart := s\<lparr>lsr := l OR 1, rbr := buf\<rparr>\<rparr>)
           | (None, m') \<Rightarrow> Some (ucast (lsr s), m'\<lparr>dw_apb_uart := s\<lparr>lsr := l\<rparr>\<rparr>))
         else Some (ucast (lsr s), m\<lparr>dw_apb_uart := s\<lparr>lsr := l\<rparr>\<rparr>))
      else Some (0, m))"

definition dw_apb_uart_write :: "RISCVMachine \<Rightarrow> u32 \<Rightarrow> u32 \<Rightarrow> nat \<Rightarrow> RISCVMachine option" where
  "dw_apb_uart_write m offset val0 size_log2 =
     (let s = dw_apb_uart m; val = val0 AND 255 in
      if \<not> (offset mod 4 = 0 \<and> offset div 4 < 64) then None
      else if offset = 0x00 then
        (if lcr s AND 0x80 \<noteq> 0
         then Some (m\<lparr>dw_apb_uart := s\<lparr>div_latch := (div_latch s AND NOT 255) + ucast val\<rparr>\<rparr>)
         else Some ((console_write m (ucast val))
                \<lparr>dw_apb_uart := s\<lparr>lsr := lsr s AND NOT 0x20 AND NOT 0x40\<rparr>\<rparr>))
      else if offset = 0x04 then
        (if lcr s AND 0x80 \<noteq> 0
         then Some (m\<lparr>dw_apb_uart := s\<lparr>div_latch := (div_latch s AND 255) + ucast (val * 256)\<rparr>\<rparr>)
         else Some (m\<lparr>dw_apb_uart := s\<lparr>ier := ucast (val AND 0xFF)\<rparr>\<rparr>))
      else if offset = 0x08 then Some (m\<lparr>dw_apb_uart := s\<lparr>fcr := ucast val\<rparr>\<rparr>)
      else if offset = 0x0c then Some (m\<lparr>dw_apb_uart := s\<lparr>lcr := ucast val\<rparr>\<rparr>)
      else Some m)"

section \<open>CLINT\<close>

definition rtc_get_time :: "RISCVMachine \<Rightarrow> u64" where
  "rtc_get_time m = mcycle (cpu_state m 0) div RTC_FREQ_DIV"

text \<open>The switch on \<open>size_log2\<close> masks 16-bit accesses; the other widths keep the value.\<close>

definition clint_size_mask :: "u32 \<Rightarrow> nat \<Rightarrow> u32" where
  "clint_size_mask val size_log2 = (if size_log2 = 1 then val AND 0xffff else val)"

definition clint_read :: "RISCVMachine \<Rightarrow> u32 \<Rightarrow> nat \<Rightarrow> u32 \<times> RISCVMachine" where
  "clint_read m offset size_log2 =
     (let val =
        (if offset < 0x4000 then
           (let hartid = unat (drop_bit 2 offset) in
            if ncpus m \<le> hartid then 0
            else of_bool (riscv_cpu_get_mip (cpu_state m hartid) AND MIP_MSIP \<noteq> 0))
         else if offset = 0xbff8 then ucast (rtc_get_time m)
         else if offset = 0xbffc then ucast (drop_bit 32 (rtc_get_time m))
         else if offset < 0xbff8 then
           (let hartid = unat (drop_bit 3 (offset - 0x4000)) in
            if ncpus m \<le> hartid then 0
            else if drop_bit 2 offset AND 1 \<noteq> 0 then ucast (drop_bit 32 (timecmp (cpu_state m hartid)))
            else ucast (timecmp (cpu_state m hartid)))
         else 0)
      in (clint_size_mask val size_log2, m))"

text \<open>
  In the write of a lower \<open>mtimecmp\<close> word the mask is \<open>~0xffffffff\<close>: the literal has type
  \<open>unsigned int\<close>, so the complement is taken at 32 bits before it is widened.
\<close>

definition clint_write :: "RISCVMachine \<Rightarrow> u32 \<Rightarrow> u32 \<Rightarrow> nat \<Rightarrow> RISCVMachine" where
  "clint_write m offset val0 size_log2 =
     (let val = clint_size_mask val0 size_log2 in
      if offset < 0x4000 then
        (let hartid = unat (drop_bit 2 offset); c = cpu_state m hartid in
         if ncpus m \<le> hartid then m
         else if val AND 1 \<noteq> 0 then set_cpu hartid (riscv_cpu_set_mip m c MIP_MSIP) m
         else set_cpu hartid (riscv_cpu_reset_mip c MIP_MSIP) m)
      else if offset = 0xbff8 then
        (let mtime = (rtc_get_time m AND 0xFFFFFFFF00000000) + ucast val in
         set_cpu 0 ((cpu_state m 0)\<lparr>mcycle := mtime * RTC_FREQ_DIV\<rparr>) m)
      else if offset = 0xbffc then
        (let mtime = (rtc_get_time m AND 0x00000000FFFFFFFF) + push_bit 32 (ucast val) in
         set_cpu 0 ((cpu_state m 0)\<lparr>mcycle := mtime * RTC_FREQ_DIV\<rparr>) m)
      else if offset < 0xbff8 then
        (let hartid = unat (drop_bit 3 (offset - 0x4000)); c = cpu_state m hartid in
         if ncpus m \<le> hartid then m
         else if drop_bit 2 offset AND 1 \<noteq> 0
         then set_cpu hartid (riscv_cpu_reset_mip
                (c\<lparr>timecmp := (timecmp c AND 0xffffffff) OR push_bit 32 (ucast val)\<rparr>) MIP_MTIP) m
         else set_cpu hartid (riscv_cpu_reset_mip
                (c\<lparr>timecmp := (timecmp c AND ucast (NOT (0xffffffff :: u32))) OR ucast val\<rparr>) MIP_MTIP) m)
      else m)"

section \<open>PLIC\<close>

definition plic_update_mip :: "RISCVMachine \<Rightarrow> nat \<Rightarrow> RISCVMachine option" where
  "plic_update_mip m hartid =
     (case cpu_at m hartid of
        None \<Rightarrow> None
      | Some cpu \<Rightarrow>
          let msk = plic_pending_irq m AND NOT (plic_served_irq m) in
          Some (set_cpu hartid
            (if msk \<noteq> 0 then riscv_cpu_set_mip m cpu (MIP_MEIP OR MIP_SEIP)
             else riscv_cpu_reset_mip cpu (MIP_MEIP OR MIP_SEIP)) m))"

definition plic_read :: "RISCVMachine \<Rightarrow> u32 \<Rightarrow> nat \<Rightarrow> (u32 \<times> RISCVMachine) option" where
  "plic_read m offset size_log2 =
     (if size_log2 \<noteq> 2 then None
      else if 4 \<le> offset \<and> offset < 4 + push_bit 2 127 then
        (let irq = drop_bit 2 (offset - 4) + 1 in
         if \<not> irq < 127 then None else Some (plic_priority m (unat irq), m))
      else if 0x1000 \<le> offset \<and> offset < 0x1000 + drop_bit 3 127 then
        Some (if offset = 0x1000 then plic_pending_irq m else 0, m)
      else if 0x2000 \<le> offset \<and> offset < 0x2000 + 0x80 * of_nat MAX_CPUS then
        (let hartid = unat ((offset - 0x2000) div 0x80 div 2) in
         if hartid \<le> ncpus m
         then (case cpu_at m hartid of None \<Rightarrow> None | Some cpu \<Rightarrow> Some (plic_enable_irq cpu, m))
         else Some (0, m))
      else if 0x200000 \<le> offset \<and> offset < 0x200000 + 0x1000 * of_nat MAX_CPUS then
        (let hartid = unat ((offset - 0x200000) div 0x1000);
             wordid = drop_bit 2 (offset AND (0x1000 - 1))
         in if wordid = 4 then
              (let msk = plic_pending_irq m AND NOT (plic_served_irq m) in
               if msk \<noteq> 0 then
                 (let i = ctz32 msk;
                      m1 = m\<lparr>plic_served_irq := plic_served_irq m OR push_bit i 1\<rparr>
                  in case plic_update_mip m1 hartid of
                       None \<Rightarrow> None | Some m2 \<Rightarrow> Some (of_nat (i + 1), m2))
               else Some (0, m))
            else Some (0, m))
      else Some (0, m))"

text \<open>
  \<open>1 << (irq - 1)\<close> with \<open>irq\<close> in 0..31; for \<open>irq = 0\<close> the count is -1, which the host
  instruction takes modulo 32.
\<close>

definition irq_bit :: "nat \<Rightarrow> u32" where
  "irq_bit irq = push_bit ((irq + 31) mod 32) 1"

definition plic_write :: "RISCVMachine \<Rightarrow> u32 \<Rightarrow> u32 \<Rightarrow> nat \<Rightarrow> RISCVMachine option" where
  "plic_write m offset val size_log2 =
     (if size_log2 \<noteq> 2 then None
      else if 4 \<le> offset \<and> offset < 4 + push_bit 2 127 then
        (let irq = drop_bit 2 (offset - 4) + 1 in
         if \<not> irq < 127 then None
         else Some (m\<lparr>plic_priority := (plic_priority m)(unat irq := val AND 7)\<rparr>))
      else if 0x1000 \<le> offset \<and> offset < 0x1000 + drop_bit 3 127 then Some m
      else if 0x2000 \<le> offset \<and> offset < 0x2000 + 0x80 * of_nat MAX_CPUS then
        (let hartid = unat ((offset - 0x2000) div 0x80 div 2) in
         if hartid \<le> ncpus m
         then (case cpu_at m hartid of None \<Rightarrow> None
               | Some cpu \<Rightarrow> Some (set_cpu hartid (cpu\<lparr>plic_enable_irq := val\<rparr>) m))
         else Some m)
      else if 0x200000 \<le> offset \<and> offset < 0x200000 + 0x1000 * of_nat MAX_CPUS then
        (let wordid = drop_bit 2 (offset AND (0x1000 - 1)) in
         if wordid = 0 then Some (m\<lparr>plic_priority := (plic_priority m)(0 := val)\<rparr>)
         else if wordid = 4 then
           Some (m\<lparr>plic_served_irq := plic_served_irq m AND NOT (irq_bit (unat (val AND 31)))\<rparr>)
         else Some m)
      else Some m)"

definition update_all_mip :: "RISCVMachine \<Rightarrow> RISCVMachine option" where
  "update_all_mip m = fold (\<lambda>hartid r. Option.bind r (\<lambda>m. plic_update_mip m hartid)) [0..<ncpus m] (Some m)"

definition plic_set_irq :: "RISCVMachine \<Rightarrow> nat \<Rightarrow> bool \<Rightarrow> RISCVMachine option" where
  "plic_set_irq m irq_num state =
     (let msk = irq_bit irq_num in
      update_all_mip
        (m\<lparr>plic_pending_irq := (if state then plic_pending_irq m OR msk
                                else plic_pending_irq m AND NOT msk)\<rparr>))"

section \<open>Dispatch\<close>

text \<open>\<open>pr->read_func(pr->opaque, offset, size_log2)\<close> and \<open>pr->write_func\<close>.\<close>

fun device_read :: "device \<Rightarrow> RISCVMachine \<Rightarrow> u32 \<Rightarrow> nat \<Rightarrow> (u32 \<times> RISCVMachine) option" where
  "device_read DEV_MMIO m off sz = Some (mmio_read m off sz)"
| "device_read DEV_UART m off sz = Some (uart_read m off sz)"
| "device_read DEV_DW_APB_UART m off sz = dw_apb_uart_read m off sz"
| "device_read DEV_CLINT m off sz = Some (clint_read m off sz)"
| "device_read DEV_PLIC m off sz = plic_read m off sz"

fun device_write :: "device \<Rightarrow> RISCVMachine \<Rightarrow> u32 \<Rightarrow> u32 \<Rightarrow> nat \<Rightarrow> RISCVMachine option" where
  "device_write DEV_MMIO m off v sz = Some (mmio_write m off v sz)"
| "device_write DEV_UART m off v sz = Some (uart_write m off v sz)"
| "device_write DEV_DW_APB_UART m off v sz = dw_apb_uart_write m off v sz"
| "device_write DEV_CLINT m off v sz = Some (clint_write m off v sz)"
| "device_write DEV_PLIC m off v sz = plic_write m off v sz"

end
