(* ===== verification/Mmu.thy ===== *)
theory Mmu
  imports Devices
begin

text \<open>
  Memory access of a hart (\<^verbatim>\<open>riscv_cpu.cpp\<close>): physical memory protection, physical reads
  and writes, the Sv39/Sv48 page walk, the slow paths that fill the TLBs, the fast paths that
  use them, and instruction fetch. Host pointers are 64-bit addresses of \<open>host_mem\<close>; a TLB
  entry holds the difference between the host pointer and the virtual address, as the code
  does. Hardware update of the A and D bits is configured off, misaligned data accesses
  raise an exception.
\<close>

section \<open>Results\<close>

text \<open>
  An access returns a value, or -1 with the exception in \<open>pending_exception\<close> and
  \<open>pending_tval\<close>, or ends the process (a failed assertion, \<open>abort\<close>, a null pointer).
\<close>

datatype 'a mres = Val 'a hart | Exc hart | Abort

definition mbind :: "'a mres \<Rightarrow> ('a \<Rightarrow> hart \<Rightarrow> 'b mres) \<Rightarrow> 'b mres" where
  "mbind r f = (case r of Val v s \<Rightarrow> f v s | Exc s \<Rightarrow> Exc s | Abort \<Rightarrow> Abort)"

lemma mbind_simps [simp]:
  "mbind (Val v s) f = f v s" "mbind (Exc s) f = Exc s" "mbind Abort f = Abort"
  by (simp_all add: mbind_def)

definition pend :: "'a RISCVCPUState_scheme \<Rightarrow> int \<Rightarrow> u64 \<Rightarrow> 'a RISCVCPUState_scheme" where
  "pend s cause tval = s\<lparr>pending_tval := tval, pending_exception := cause\<rparr>"

text \<open>Entering the machine from the running hart, and coming back.\<close>

definition with_machine ::
    "(RISCVMachine \<Rightarrow> ('a \<times> RISCVMachine) option) \<Rightarrow> hart \<Rightarrow> ('a \<times> hart) option" where
  "with_machine f s =
     (case f (machine_of s) of None \<Rightarrow> None
      | Some (v, m) \<Rightarrow> Some (v, hart_of m (unat (mhartid s))))"

section \<open>Physical memory protection\<close>

definition riscv_cpu_pmp_access_ok :: "'a RISCVCPUState_scheme \<Rightarrow> u64 \<Rightarrow> u64 \<Rightarrow> u8 \<Rightarrow> bool" where
  "riscv_cpu_pmp_access_ok s paddr sz perm = True"

text \<open>The check that stands behind the unconditional \<open>return true\<close>.\<close>

fun pmp_scan :: "'a RISCVCPUState_scheme \<Rightarrow> u8 \<Rightarrow> u64 \<Rightarrow> u64 \<Rightarrow> u8 \<Rightarrow> nat list \<Rightarrow> bool" where
  "pmp_scan s p paddr sz perm [] = (p = PRV_M)"
| "pmp_scan s p paddr sz perm (i # is) =
     (if pmp_lo (pmp s i) \<le> paddr + sz - 1 \<and> paddr < pmp_hi (pmp s i)
      then (if p < PRV_M \<or> ucast (pmpcfg s i) AND PMPCFG_L \<noteq> 0
            then perm AND pmpcfg s i = perm else True)
      else pmp_scan s p paddr sz perm is)"

definition effective_priv :: "'a RISCVCPUState_scheme \<Rightarrow> bool \<Rightarrow> u8" where
  "effective_priv s is_code =
     (if mstatus s AND MSTATUS_MPRV \<noteq> 0 \<and> \<not> is_code
      then ucast (drop_bit MSTATUS_MPP_SHIFT (mstatus s) AND 3) else priv s)"

definition pmp_access_unreached :: "'a RISCVCPUState_scheme \<Rightarrow> u64 \<Rightarrow> u64 \<Rightarrow> u8 \<Rightarrow> bool" where
  "pmp_access_unreached s paddr sz perm =
     (if drop_bit (physical_addr_len s) paddr \<noteq> 0 then False
      else pmp_scan s (effective_priv s (perm AND PMPCFG_X \<noteq> 0)) paddr sz perm [0..<pmp_n s])"

definition get_phys_mem_range_pmp :: "hart \<Rightarrow> u64 \<Rightarrow> u64 \<Rightarrow> u8 \<Rightarrow> PhysMemoryRange option" where
  "get_phys_mem_range_pmp s paddr sz perm =
     (if \<not> riscv_cpu_pmp_access_ok s paddr sz perm then None
      else map_option (phys_mem_range (mem_map (machine s)))
             (get_phys_mem_range (mem_map (machine s)) paddr))"

section \<open>Physical accesses\<close>

definition set_host_mem :: "hostmem \<Rightarrow> hart \<Rightarrow> hart" where
  "set_host_mem h s = s\<lparr>machine := (machine s)\<lparr>host_mem := h\<rparr>\<rparr>"

definition host_ptr :: "PhysMemoryRange \<Rightarrow> u64 \<Rightarrow> u64" where
  "host_ptr pr paddr = phys_mem pr + (paddr - pr_addr pr)"

text \<open>\<open>riscv_phys_write_u8/32/64\<close> with \<open>n\<close> bytes; \<^const>\<open>None\<close> is \<open>*fail = true\<close>.\<close>

definition riscv_phys_write :: "nat \<Rightarrow> hart \<Rightarrow> u64 \<Rightarrow> u64 \<Rightarrow> hart option" where
  "riscv_phys_write n s paddr val =
     (case get_phys_mem_range_pmp s paddr (of_nat n) PMPCFG_W of
        None \<Rightarrow> None
      | Some pr \<Rightarrow> if \<not> is_ram pr then None
          else Some (set_host_mem (store_le n (host_mem (machine s)) (host_ptr pr paddr) val) s))"

text \<open>
  \<open>riscv_phys_read_u8/32/64\<close>. The range is not checked to be RAM; the \<open>phys_mem\<close> pointer
  of a device range is null, so the read ends the process.
\<close>

datatype pread = PVal u64 | PFail | PCrash

definition riscv_phys_read :: "nat \<Rightarrow> hart \<Rightarrow> u64 \<Rightarrow> pread" where
  "riscv_phys_read n s paddr =
     (case get_phys_mem_range_pmp s paddr (of_nat n) PMPCFG_R of
        None \<Rightarrow> PFail
      | Some pr \<Rightarrow> if \<not> is_ram pr then PCrash
          else PVal (load_le n (host_mem (machine s)) (host_ptr pr paddr)))"

section \<open>Address translation\<close>

abbreviation ACCESS_READ :: nat where "ACCESS_READ \<equiv> 0"
abbreviation ACCESS_WRITE :: nat where "ACCESS_WRITE \<equiv> 1"
abbreviation ACCESS_CODE :: nat where "ACCESS_CODE \<equiv> 2"

abbreviation PTE_V_MASK :: u64 where "PTE_V_MASK \<equiv> 0x1"
abbreviation PTE_U_MASK :: u64 where "PTE_U_MASK \<equiv> 0x10"
abbreviation PTE_A_MASK :: u64 where "PTE_A_MASK \<equiv> 0x40"
abbreviation PTE_D_MASK :: u64 where "PTE_D_MASK \<equiv> 0x80"

text \<open>Return 0 with an address, -1, -2, or the end of the process.\<close>

datatype xlate = Paddr u64 | XFault | XIllegal | XCrash

text \<open>The checks on a leaf entry found with \<open>j\<close> levels below it.\<close>

definition leaf_ok :: "'a RISCVCPUState_scheme \<Rightarrow> u8 \<Rightarrow> nat \<Rightarrow> nat \<Rightarrow> u64 \<Rightarrow> bool" where
  "leaf_ok s p access j pte =
     (let xwr = drop_bit 1 pte AND 7;
          xwr' = (if mstatus s AND MSTATUS_MXR \<noteq> 0 then xwr OR drop_bit 2 xwr else xwr);
          ppn = ucast (drop_bit 10 pte) :: u32
      in \<not> (xwr = 2 \<or> xwr = 6)
       \<and> (if p = PRV_S then \<not> (pte AND PTE_U_MASK \<noteq> 0 \<and> mstatus s AND MSTATUS_SUM = 0)
          else pte AND PTE_U_MASK \<noteq> 0)
       \<and> drop_bit access xwr' AND 1 \<noteq> 0
       \<and> (push_bit j 1 - 1) AND ppn = 0
       \<and> pte AND PTE_A_MASK \<noteq> 0
       \<and> \<not> (access = ACCESS_WRITE \<and> pte AND PTE_D_MASK = 0))"

text \<open>The loop over the levels; the counter is \<open>levels - i\<close>.\<close>

fun walk :: "hart \<Rightarrow> u8 \<Rightarrow> nat \<Rightarrow> u64 \<Rightarrow> nat \<Rightarrow> u64 \<Rightarrow> xlate" where
  "walk s p access va 0 pte_addr = XFault"
| "walk s p access va (Suc j) pte_addr =
     (let vaddr_shift = PG_SHIFT + 9 * j;
          pte_idx = drop_bit vaddr_shift va AND 0x1ff;
          pte_addr' = pte_addr + push_bit 3 pte_idx
      in case riscv_phys_read 8 s pte_addr' of
           PFail \<Rightarrow> XIllegal
         | PCrash \<Rightarrow> XCrash
         | PVal pte \<Rightarrow>
             if pte AND PTE_V_MASK = 0 then XFault
             else let paddr = push_bit PG_SHIFT (drop_bit 10 pte) in
                  if drop_bit 1 pte AND 7 \<noteq> 0
                  then (if leaf_ok s p access j pte
                        then let vaddr_mask = push_bit vaddr_shift 1 - 1
                             in Paddr ((paddr AND NOT vaddr_mask) OR (va AND vaddr_mask))
                        else XFault)
                  else walk s p access va j paddr)"

text \<open>
  \<open>levels\<close> and the sign-extension shift are C ints; a shift count outside 0..63, which a
  paging mode other than Sv39, Sv48 and their neighbours would give, is undefined.
\<close>

definition riscv_cpu_get_phys_addr :: "hart \<Rightarrow> u64 \<Rightarrow> nat \<Rightarrow> xlate" where
  "riscv_cpu_get_phys_addr s va access =
     (let p = effective_priv s (access = ACCESS_CODE);
          mode = unat (drop_bit 60 (satp s) AND 0xf)
      in if p = PRV_M then Paddr va
         else if mode = 0 then Paddr va
         else let levels = int mode - 8 + 3;
                  shift = 64 - (12 + levels * 9)
              in if shift < 0 \<or> 63 < shift then XCrash
                 else if signed_drop_bit (nat shift) (push_bit (nat shift) va) \<noteq> va then XFault
                 else walk s p access va (nat levels)
                        (push_bit PG_SHIFT (satp s AND (push_bit 44 1 - 1))))"

section \<open>TLB entries\<close>

definition tlb_index :: "u64 \<Rightarrow> nat" where
  "tlb_index addr = unat (drop_bit PG_SHIFT addr AND (of_nat TLB_SIZE - 1))"

definition tlb_entry :: "u64 \<Rightarrow> u64 \<Rightarrow> TLBEntry" where
  "tlb_entry addr ptr = \<lparr>vaddr = addr AND NOT PG_MASK, mem_addend = ptr - addr\<rparr>"

definition fill_tlb_read :: "u64 \<Rightarrow> u64 \<Rightarrow> u64 \<Rightarrow> hart \<Rightarrow> hart" where
  "fill_tlb_read addr paddr ptr s =
     s\<lparr>tlb_read := (tlb_read s)(tlb_index addr := tlb_entry addr ptr),
       tlb_read_paddr_addend := (tlb_read_paddr_addend s)(tlb_index addr := paddr - addr)\<rparr>"

definition fill_tlb_write :: "u64 \<Rightarrow> u64 \<Rightarrow> u64 \<Rightarrow> hart \<Rightarrow> hart" where
  "fill_tlb_write addr paddr ptr s =
     s\<lparr>tlb_write := (tlb_write s)(tlb_index addr := tlb_entry addr ptr),
       tlb_write_paddr_addend := (tlb_write_paddr_addend s)(tlb_index addr := paddr - addr)\<rparr>"

definition fill_tlb_code :: "u64 \<Rightarrow> u64 \<Rightarrow> u64 \<Rightarrow> hart \<Rightarrow> hart" where
  "fill_tlb_code addr paddr ptr s =
     s\<lparr>tlb_code := (tlb_code s)(tlb_index addr := tlb_entry addr ptr),
       tlb_code_paddr_addend := (tlb_code_paddr_addend s)(tlb_index addr := paddr - addr)\<rparr>"

section \<open>Slow paths\<close>

definition misaligned :: "nat \<Rightarrow> u64 \<Rightarrow> bool" where
  "misaligned size_log2 addr = (addr AND (push_bit size_log2 1 - 1) \<noteq> 0)"

text \<open>A read callback, or two of them for a 64-bit access to a 32-bit device.\<close>

definition device_load :: "PhysMemoryRange \<Rightarrow> u64 \<Rightarrow> nat \<Rightarrow> RISCVMachine \<Rightarrow> (u64 \<times> RISCVMachine) option" where
  "device_load pr offset size_log2 m =
     (if drop_bit size_log2 (devio_flags pr) AND 1 \<noteq> 0
      then map_option (\<lambda>(v, m). (ucast v, m)) (device_read (pr_device pr) m (ucast offset) size_log2)
      else if devio_flags pr AND DEVIO_SIZE32 \<noteq> 0 \<and> size_log2 = 3
      then Option.bind (device_read (pr_device pr) m (ucast offset) 2) (\<lambda>(l, m).
           map_option (\<lambda>(h, m). (ucast l OR push_bit 32 (ucast h), m))
             (device_read (pr_device pr) m (ucast (offset + 4)) 2))
      else Some (0, m))"

definition device_store :: "PhysMemoryRange \<Rightarrow> u64 \<Rightarrow> u64 \<Rightarrow> nat \<Rightarrow> RISCVMachine \<Rightarrow> (unit \<times> RISCVMachine) option" where
  "device_store pr offset val size_log2 m =
     (if drop_bit size_log2 (devio_flags pr) AND 1 \<noteq> 0
      then map_option (Pair ()) (device_write (pr_device pr) m (ucast offset) (ucast val) size_log2)
      else if devio_flags pr AND DEVIO_SIZE32 \<noteq> 0 \<and> size_log2 = 3
      then Option.bind (device_write (pr_device pr) m (ucast offset) (ucast (val AND 0xffffffff)) 2) (\<lambda>m.
           map_option (Pair ()) (device_write (pr_device pr) m (ucast (offset + 4))
             (ucast (drop_bit 32 val AND 0xffffffff)) 2))
      else Some ((), m))"

definition riscv_cpu_read_memory :: "hart \<Rightarrow> u64 \<Rightarrow> nat \<Rightarrow> u64 mres" where
  "riscv_cpu_read_memory s addr size_log2 =
     (if misaligned size_log2 addr then Exc (pend s CAUSE_MISALIGNED_LOAD addr)
      else case riscv_cpu_get_phys_addr s addr ACCESS_READ of
        XFault \<Rightarrow> Exc (pend s CAUSE_LOAD_PAGE_FAULT addr)
      | XIllegal \<Rightarrow> Exc (pend s CAUSE_FAULT_LOAD addr)
      | XCrash \<Rightarrow> Abort
      | Paddr paddr \<Rightarrow>
         (case get_phys_mem_range_pmp s paddr (push_bit size_log2 1) PMPCFG_R of
            None \<Rightarrow> Exc (pend s CAUSE_FAULT_LOAD addr)
          | Some pr \<Rightarrow>
              if is_ram pr
              then let ptr = host_ptr pr paddr in
                   if 3 < size_log2 then Abort
                   else Val (load_le (2 ^ size_log2) (host_mem (machine s)) ptr)
                            (fill_tlb_read addr paddr ptr s)
              else (case with_machine (device_load pr (paddr - pr_addr pr) size_log2) s of
                      None \<Rightarrow> Abort | Some (v, s') \<Rightarrow> Val v s')))"

text \<open>
  A RAM write sets the dirty bit of the page in the range, fills the write TLB, and stores.
  The range index is looked up again to update the range in place.
\<close>

definition mark_dirty :: "u64 \<Rightarrow> hart \<Rightarrow> hart" where
  "mark_dirty paddr s =
     (let m = machine s; mm = mem_map m in
      case get_phys_mem_range mm paddr of
        None \<Rightarrow> s
      | Some i \<Rightarrow> (let pr = phys_mem_range mm i in
          s\<lparr>machine := m\<lparr>mem_map := set_range mm i
               (phys_mem_set_dirty_bit pr (paddr - pr_addr pr))\<rparr>\<rparr>))"

definition riscv_cpu_write_memory :: "hart \<Rightarrow> u64 \<Rightarrow> u64 \<Rightarrow> nat \<Rightarrow> unit mres" where
  "riscv_cpu_write_memory s addr val size_log2 =
     (if misaligned size_log2 addr then Exc (pend s CAUSE_MISALIGNED_STORE addr)
      else case riscv_cpu_get_phys_addr s addr ACCESS_WRITE of
        XFault \<Rightarrow> Exc (pend s CAUSE_STORE_PAGE_FAULT addr)
      | XIllegal \<Rightarrow> Exc (pend s CAUSE_FAULT_STORE addr)
      | XCrash \<Rightarrow> Abort
      | Paddr paddr \<Rightarrow>
         (case get_phys_mem_range_pmp s paddr (push_bit size_log2 1) PMPCFG_W of
            None \<Rightarrow> Exc (pend s CAUSE_FAULT_STORE addr)
          | Some pr \<Rightarrow>
              if is_ram pr
              then let ptr = host_ptr pr paddr; s1 = fill_tlb_write addr paddr ptr (mark_dirty paddr s) in
                   if 3 < size_log2 then Abort
                   else Val () (set_host_mem
                          (store_le (2 ^ size_log2) (host_mem (machine s1)) ptr val) s1)
              else (case with_machine (device_store pr (paddr - pr_addr pr) val size_log2) s of
                      None \<Rightarrow> Abort | Some (_, s') \<Rightarrow> Val () s')))"

section \<open>Fast paths\<close>

text \<open>\<open>addr & ~(PG_MASK & ~((size / 8) - 1))\<close>\<close>

definition tlb_tag :: "nat \<Rightarrow> u64 \<Rightarrow> u64" where
  "tlb_tag size_log2 addr = addr AND NOT (PG_MASK AND NOT (push_bit size_log2 1 - 1))"

definition target_read :: "nat \<Rightarrow> hart \<Rightarrow> u64 \<Rightarrow> u64 mres" where
  "target_read size_log2 s addr =
     (if misaligned size_log2 addr then Exc (pend s CAUSE_MISALIGNED_LOAD addr)
      else let e = tlb_read s (tlb_index addr) in
           if vaddr e = tlb_tag size_log2 addr
           then Val (load_le (2 ^ size_log2) (host_mem (machine s)) (mem_addend e + addr)) s
           else mbind (riscv_cpu_read_memory s addr size_log2)
                  (\<lambda>v s. Val (take_bit (8 * 2 ^ size_log2) v) s))"

definition target_write :: "nat \<Rightarrow> hart \<Rightarrow> u64 \<Rightarrow> u64 \<Rightarrow> unit mres" where
  "target_write size_log2 s addr val0 =
     (let val = take_bit (8 * 2 ^ size_log2) val0 in
      if misaligned size_log2 addr then Exc (pend s CAUSE_MISALIGNED_STORE addr)
      else let e = tlb_write s (tlb_index addr) in
           if vaddr e = tlb_tag size_log2 addr
           then Val () (set_host_mem
                  (store_le (2 ^ size_log2) (host_mem (machine s)) (mem_addend e + addr) val) s)
           else riscv_cpu_write_memory s addr val size_log2)"

section \<open>Instruction fetch\<close>

definition fetch_fault :: "hart \<Rightarrow> u64 \<Rightarrow> xlate \<Rightarrow> 'a mres" where
  "fetch_fault s addr x =
     (case x of XFault \<Rightarrow> Exc (pend s CAUSE_FETCH_PAGE_FAULT addr)
      | XCrash \<Rightarrow> Abort
      | _ \<Rightarrow> Exc (pend s CAUSE_FAULT_FETCH addr))"

definition exec_range :: "hart \<Rightarrow> u64 \<Rightarrow> u64 \<Rightarrow> PhysMemoryRange option" where
  "exec_range s paddr sz =
     (case get_phys_mem_range_pmp s paddr sz PMPCFG_X of
        None \<Rightarrow> None | Some pr \<Rightarrow> if is_ram pr then Some pr else None)"

definition target_read_insn_slow :: "hart \<Rightarrow> nat \<Rightarrow> u64 \<Rightarrow> u32 mres" where
  "target_read_insn_slow s sz addr =
     (case riscv_cpu_get_phys_addr s addr ACCESS_CODE of
        Paddr paddr \<Rightarrow>
         (case exec_range s paddr (of_nat (sz div 8)) of
            None \<Rightarrow> Exc (pend s CAUSE_FAULT_FETCH addr)
          | Some pr \<Rightarrow>
             (let ptr = host_ptr pr paddr;
                  s1 = (if riscv_cpu_pmp_access_ok s (paddr AND NOT PG_MASK) (PG_MASK + 1) PMPCFG_X
                        then fill_tlb_code addr paddr ptr s else s);
                  h = host_mem (machine s1)
              in if tlb_index addr \<noteq> tlb_index (addr + 2) \<and> sz = 32
                 then (case riscv_cpu_get_phys_addr s1 (addr + 2) ACCESS_CODE of
                     Paddr paddr_cross \<Rightarrow>
                      (case exec_range s1 paddr_cross 2 of
                         None \<Rightarrow> Exc (pend s1 CAUSE_FAULT_FETCH addr)
                       | Some pr_cross \<Rightarrow>
                          Val (ucast (load_le 2 h ptr)
                               OR push_bit 16 (ucast (load_le 2 h (host_ptr pr_cross paddr_cross)))) s1)
                   | x \<Rightarrow> fetch_fault s1 addr x)
                 else if sz = 32 then Val (ucast (load_le 4 h ptr)) s1
                 else if sz = 16 then Val (ucast (load_le 2 h ptr)) s1
                 else Abort))
      | x \<Rightarrow> fetch_fault s addr x)"

definition target_read_insn_u16 :: "hart \<Rightarrow> u64 \<Rightarrow> u16 mres" where
  "target_read_insn_u16 s addr =
     (let e = tlb_code s (tlb_index addr) in
      if vaddr e = addr AND NOT PG_MASK
      then Val (ucast (load_le 2 (host_mem (machine s)) (mem_addend e + addr))) s
      else mbind (target_read_insn_slow s 16 addr) (\<lambda>v s. Val (ucast v) s))"

definition get_insn32 :: "hostmem \<Rightarrow> u64 \<Rightarrow> u32" where
  "get_insn32 h ptr = ucast (load_le 4 h ptr)"

end
