(* ===== verification/Exec_Base.thy ===== *)
theory Exec_Base
  imports Mmu
begin

text \<open>
  Vocabulary of the instruction bodies of \<^verbatim>\<open>dromajo_template.h\<close> at \<open>XLEN = 64\<close>: register
  access, operand fields, and the ways an instruction body ends. \<open>GET_PC()\<close> of the
  interpreter is \<open>s->pc\<close> during a body: the loop head stores it there, and the fetch keeps
  it (\<open>Interp\<close>).
\<close>

section \<open>Registers\<close>

definition write_reg :: "nat \<Rightarrow> u64 \<Rightarrow> 'a RISCVCPUState_scheme \<Rightarrow> 'a RISCVCPUState_scheme" where
  "write_reg x val s =
     s\<lparr>most_recently_written_reg := int x,
       reg_prior := (reg_prior s)(x := reg s x),
       reg := (reg s)(x := val)\<rparr>"

text \<open>\<open>if (rd != 0) write_reg(rd, val)\<close>\<close>

definition write_rd :: "nat \<Rightarrow> u64 \<Rightarrow> 'a RISCVCPUState_scheme \<Rightarrow> 'a RISCVCPUState_scheme" where
  "write_rd rd val s = (if rd \<noteq> 0 then write_reg rd val s else s)"

definition write_fp_reg :: "nat \<Rightarrow> u64 \<Rightarrow> 'a RISCVCPUState_scheme \<Rightarrow> 'a RISCVCPUState_scheme" where
  "write_fp_reg x val s =
     s\<lparr>most_recently_written_fp_reg := int x, fp_reg := (fp_reg s)(x := val), fs := 3\<rparr>"

section \<open>Operand fields\<close>

definition insn_rd :: "u32 \<Rightarrow> nat" where "insn_rd insn = unat (drop_bit 7 insn AND 0x1f)"
definition insn_rs1 :: "u32 \<Rightarrow> nat" where "insn_rs1 insn = unat (drop_bit 15 insn AND 0x1f)"
definition insn_rs2 :: "u32 \<Rightarrow> nat" where "insn_rs2 insn = unat (drop_bit 20 insn AND 0x1f)"
definition insn_funct3 :: "u32 \<Rightarrow> u32" where "insn_funct3 insn = drop_bit 12 insn AND 7"

text \<open>A 32-bit immediate added to a register is sign-extended; \<open>(int32_t)\<close> casts keep 32 bits.\<close>

definition sx :: "u32 \<Rightarrow> u64" where "sx imm = scast imm"
definition sext32 :: "u64 \<Rightarrow> u64" where "sext32 v = scast (ucast v :: u32)"

lemmas insn_fields = insn_rd_def insn_rs1_def insn_rs2_def insn_funct3_def

section \<open>Ends of an instruction body\<close>

text \<open>
  \<open>NEXT_INSN\<close> and \<open>C_NEXT_INSN\<close> advance by 4 and by 2; \<open>JUMP_INSN\<close> has stored the target
  in \<open>s->pc\<close>; \<open>illegal_insn\<close>, \<open>mmu_exception\<close>, \<open>exception\<close> and
  \<open>done_interp\<close> are the labels of the interpreter; \<open>F_CRASH\<close> is the end of the process.
\<close>

datatype flow = F_NEXT nat hart | F_JUMP RISCVCTFInfo hart | F_ILLEGAL hart
  | F_MMU_EXCEPTION hart | F_EXCEPTION hart | F_DONE hart | F_CRASH

definition load_then :: "nat \<Rightarrow> hart \<Rightarrow> u64 \<Rightarrow> (u64 \<Rightarrow> hart \<Rightarrow> flow) \<Rightarrow> flow" where
  "load_then size_log2 s addr k =
     (case target_read size_log2 s addr of
        Val v s' \<Rightarrow> k v s' | Exc s' \<Rightarrow> F_MMU_EXCEPTION s' | Abort \<Rightarrow> F_CRASH)"

definition store_then :: "nat \<Rightarrow> hart \<Rightarrow> u64 \<Rightarrow> u64 \<Rightarrow> (hart \<Rightarrow> flow) \<Rightarrow> flow" where
  "store_then size_log2 s addr val k =
     (case target_write size_log2 s addr val of
        Val _ s' \<Rightarrow> k s' | Exc s' \<Rightarrow> F_MMU_EXCEPTION s' | Abort \<Rightarrow> F_CRASH)"

definition raise_pending :: "int \<Rightarrow> hart \<Rightarrow> flow" where
  "raise_pending cause s = F_EXCEPTION (s\<lparr>pending_exception := cause, pending_tval := 0\<rparr>)"

text \<open>The check before a jump or a taken branch when compressed instructions are disabled.\<close>

definition misaligned_target :: "'a RISCVCPUState_scheme \<Rightarrow> u64 \<Rightarrow> bool" where
  "misaligned_target s new_pc = (misa s AND MCPUID_C = 0 \<and> new_pc AND 3 \<noteq> 0)"

end
