(* ===== verification/Exec_C.thy ===== *)
theory Exec_C
  imports Exec_Base
begin

text \<open>
  The compressed instructions of \<^verbatim>\<open>dromajo_template.h\<close>, one definition per quadrant. The
  immediates are assembled with \<open>get_field1\<close> exactly as in the source.
\<close>

section \<open>Immediates\<close>

definition imm_ci :: "u32 \<Rightarrow> u32" where
  "imm_ci insn = sext (get_field1 insn 12 5 5 OR get_field1 insn 2 0 4) 6"

definition imm_cl_w :: "u32 \<Rightarrow> u32" where
  "imm_cl_w insn = get_field1 insn 10 3 5 OR get_field1 insn 6 2 2 OR get_field1 insn 5 6 6"

definition imm_cl_d :: "u32 \<Rightarrow> u32" where
  "imm_cl_d insn = get_field1 insn 10 3 5 OR get_field1 insn 5 6 7"

definition imm_cj :: "u32 \<Rightarrow> u32" where
  "imm_cj insn = sext (get_field1 insn 12 11 11 OR get_field1 insn 11 4 4 OR get_field1 insn 9 8 9
     OR get_field1 insn 8 10 10 OR get_field1 insn 7 6 6 OR get_field1 insn 6 7 7
     OR get_field1 insn 3 1 3 OR get_field1 insn 2 5 5) 12"

definition imm_cb :: "u32 \<Rightarrow> u32" where
  "imm_cb insn = sext (get_field1 insn 12 8 8 OR get_field1 insn 10 3 4 OR get_field1 insn 5 6 7
     OR get_field1 insn 3 1 2 OR get_field1 insn 2 5 5) 9"

definition imm_addi4spn :: "u32 \<Rightarrow> u32" where
  "imm_addi4spn insn = get_field1 insn 11 4 5 OR get_field1 insn 7 6 9 OR get_field1 insn 6 2 2
     OR get_field1 insn 5 3 3"

definition imm_addi16sp :: "u32 \<Rightarrow> u32" where
  "imm_addi16sp insn = sext (get_field1 insn 12 9 9 OR get_field1 insn 6 4 4 OR get_field1 insn 5 6 6
     OR get_field1 insn 3 7 8 OR get_field1 insn 2 5 5) 10"

definition imm_clui :: "u32 \<Rightarrow> u32" where
  "imm_clui insn = sext (get_field1 insn 12 17 17 OR get_field1 insn 2 12 16) 18"

definition imm_lwsp :: "u32 \<Rightarrow> u32" where
  "imm_lwsp insn = get_field1 insn 12 5 5 OR (drop_bit 2 insn AND 0x1f AND 0x1c)
     OR get_field1 insn 2 6 7"

definition imm_ldsp :: "u32 \<Rightarrow> u32" where
  "imm_ldsp insn = get_field1 insn 12 5 5 OR (drop_bit 2 insn AND 0x1f AND 0x18)
     OR get_field1 insn 2 6 8"

definition imm_swsp :: "u32 \<Rightarrow> u32" where
  "imm_swsp insn = get_field1 insn 9 2 5 OR get_field1 insn 7 6 7"

definition imm_sdsp :: "u32 \<Rightarrow> u32" where
  "imm_sdsp insn = get_field1 insn 10 3 5 OR get_field1 insn 7 6 8"

text \<open>Three-bit register fields name x8 to x15.\<close>

definition creg_lo :: "u32 \<Rightarrow> nat" where "creg_lo insn = unat ((drop_bit 2 insn AND 7) OR 8)"
definition creg_hi :: "u32 \<Rightarrow> nat" where "creg_hi insn = unat ((drop_bit 7 insn AND 7) OR 8)"

section \<open>Quadrant 0\<close>

definition exec_c0 :: "hart \<Rightarrow> u32 \<Rightarrow> flow" where
  "exec_c0 s insn =
     (let funct3 = drop_bit 13 insn AND 7;
          rd = creg_lo insn;
          rs1 = creg_hi insn;
          addr_w = reg s rs1 + sx (imm_cl_w insn);
          addr_d = reg s rs1 + sx (imm_cl_d insn)
      in if funct3 = 0 then
           (let imm = imm_addi4spn insn in
            if imm = 0 then F_ILLEGAL s
            else F_NEXT 2 (write_reg rd (reg s 2 + sx imm) s))
         else if funct3 = 1 then
           (if fs s = 0 then F_ILLEGAL s
            else load_then 3 s addr_d (\<lambda>v s. F_NEXT 2 (write_fp_reg rd (v OR F64_HIGH) s)))
         else if funct3 = 2 then
           load_then 2 s addr_w (\<lambda>v s. F_NEXT 2 (write_reg rd (sext32 v) s))
         else if funct3 = 3 then
           load_then 3 s addr_d (\<lambda>v s. F_NEXT 2 (write_reg rd v s))
         else if funct3 = 5 then
           (if fs s = 0 then F_ILLEGAL s
            else store_then 3 s addr_d (fp_reg s rd) (F_NEXT 2))
         else if funct3 = 6 then store_then 2 s addr_w (reg s rd) (F_NEXT 2)
         else if funct3 = 7 then store_then 3 s addr_d (reg s rd) (F_NEXT 2)
         else F_ILLEGAL s)"

section \<open>Quadrant 1\<close>

definition exec_c1_alu :: "hart \<Rightarrow> u32 \<Rightarrow> flow" where
  "exec_c1_alu s insn =
     (let funct2 = drop_bit 10 insn AND 3;
          rd = creg_hi insn;
          rs2 = creg_lo insn;
          shamt = unat (get_field1 insn 12 5 5 OR get_field1 insn 2 0 4);
          op = (drop_bit 5 insn AND 3) OR (drop_bit 10 insn AND 4)
      in if funct2 = 0 then F_NEXT 2 (write_reg rd (drop_bit shamt (reg s rd)) s)
         else if funct2 = 1 then F_NEXT 2 (write_reg rd (signed_drop_bit shamt (reg s rd)) s)
         else if funct2 = 2 then F_NEXT 2 (write_reg rd (reg s rd AND sx (imm_ci insn)) s)
         else if op = 0 then F_NEXT 2 (write_reg rd (reg s rd - reg s rs2) s)
         else if op = 1 then F_NEXT 2 (write_reg rd (reg s rd XOR reg s rs2) s)
         else if op = 2 then F_NEXT 2 (write_reg rd (reg s rd OR reg s rs2) s)
         else if op = 3 then F_NEXT 2 (write_reg rd (reg s rd AND reg s rs2) s)
         else if op = 4 then F_NEXT 2 (write_reg rd (sext32 (reg s rd - reg s rs2)) s)
         else if op = 5 then F_NEXT 2 (write_reg rd (sext32 (reg s rd + reg s rs2)) s)
         else F_ILLEGAL s)"

definition exec_c1 :: "hart \<Rightarrow> u32 \<Rightarrow> flow" where
  "exec_c1 s insn =
     (let funct3 = drop_bit 13 insn AND 7;
          rd = insn_rd insn;
          rs1 = creg_hi insn
      in if funct3 = 0 then
           F_NEXT 2 (if rd \<noteq> 0 then write_reg rd (reg s rd + sx (imm_ci insn)) s else s)
         else if funct3 = 1 then
           (if rd = 0 then F_ILLEGAL s
            else F_NEXT 2 (write_reg rd (sext32 (reg s rd + sx (imm_ci insn))) s))
         else if funct3 = 2 then
           F_NEXT 2 (if rd \<noteq> 0 then write_reg rd (sx (imm_ci insn)) s else s)
         else if funct3 = 3 then
           (if rd = 2 then
              (let imm = imm_addi16sp insn in
               if imm = 0 then F_ILLEGAL s
               else F_NEXT 2 (write_reg 2 (reg s 2 + sx imm) s))
            else if rd \<noteq> 0 then
              (let imm = imm_clui insn in
               if imm = 0 then F_ILLEGAL s else F_NEXT 2 (write_reg rd (sx imm) s))
            else F_NEXT 2 s)
         else if funct3 = 4 then exec_c1_alu s insn
         else if funct3 = 5 then F_JUMP ctf_taken_jump (s\<lparr>pc := pc s + sx (imm_cj insn)\<rparr>)
         else if funct3 = 6 then
           (if reg s rs1 = 0 then F_JUMP ctf_taken_branch (s\<lparr>pc := pc s + sx (imm_cb insn)\<rparr>)
            else F_NEXT 2 s)
         else
           (if reg s rs1 \<noteq> 0 then F_JUMP ctf_taken_branch (s\<lparr>pc := pc s + sx (imm_cb insn)\<rparr>)
            else F_NEXT 2 s))"

section \<open>Quadrant 2\<close>

definition exec_c2_cr :: "hart \<Rightarrow> u32 \<Rightarrow> flow" where
  "exec_c2_cr s insn =
     (let rd = insn_rd insn; rs2 = unat (drop_bit 2 insn AND 0x1f) in
      if drop_bit 12 insn AND 1 = 0 then
        (if rs2 = 0 then
           (if rd = 0 then F_ILLEGAL s
            else F_JUMP (ctf_compute_hint 0 rd) (s\<lparr>pc := reg s rd AND NOT 1\<rparr>))
         else F_NEXT 2 (if rd \<noteq> 0 then write_reg rd (reg s rs2) s else s))
      else if rs2 = 0 then
        (if rd = 0 then raise_pending CAUSE_BREAKPOINT s
         else F_JUMP (ctf_compute_hint 1 rd)
                (write_reg 1 (pc s + 2) (s\<lparr>pc := reg s rd AND NOT 1\<rparr>)))
      else F_NEXT 2 (if rd \<noteq> 0 then write_reg rd (reg s rd + reg s rs2) s else s))"

definition exec_c2 :: "hart \<Rightarrow> u32 \<Rightarrow> flow" where
  "exec_c2 s insn =
     (let funct3 = drop_bit 13 insn AND 7;
          rd = insn_rd insn;
          rs2 = unat (drop_bit 2 insn AND 0x1f);
          shamt = unat (get_field1 insn 12 5 5 OR (drop_bit 2 insn AND 0x1f))
      in if funct3 = 0 then
           F_NEXT 2 (if rd \<noteq> 0 then write_reg rd (push_bit shamt (reg s rd)) s else s)
         else if funct3 = 1 then
           (if fs s = 0 then F_ILLEGAL s
            else load_then 3 s (reg s 2 + sx (imm_ldsp insn))
                   (\<lambda>v s. F_NEXT 2 (write_fp_reg rd (v OR F64_HIGH) s)))
         else if funct3 = 2 then
           (if rd = 0 then F_ILLEGAL s
            else load_then 2 s (reg s 2 + sx (imm_lwsp insn))
                   (\<lambda>v s. F_NEXT 2 (write_reg rd (sext32 v) s)))
         else if funct3 = 3 then
           (if rd = 0 then F_ILLEGAL s
            else load_then 3 s (reg s 2 + sx (imm_ldsp insn))
                   (\<lambda>v s. F_NEXT 2 (write_reg rd v s)))
         else if funct3 = 4 then exec_c2_cr s insn
         else if funct3 = 5 then
           (if fs s = 0 then F_ILLEGAL s
            else store_then 3 s (reg s 2 + sx (imm_sdsp insn)) (fp_reg s rs2) (F_NEXT 2))
         else if funct3 = 6 then
           store_then 2 s (reg s 2 + sx (imm_swsp insn)) (reg s rs2) (F_NEXT 2)
         else store_then 3 s (reg s 2 + sx (imm_sdsp insn)) (reg s rs2) (F_NEXT 2))"

end
