(* ===== verification/Int_Arith.thy ===== *)
theory Int_Arith
  imports Prelude
begin

text \<open>
  The integer helpers of \<^verbatim>\<open>dromajo_template.h\<close>: division and remainder with the results
  RISC-V prescribes where C is undefined, and the upper half of a product, both in the
  \<open>__int128\<close> version the build uses and in the half-word version the same file keeps for
  hosts without \<open>__int128\<close>. The helpers the file instantiates for 32 and for 64 bits are
  stated for every word length.
\<close>

section \<open>Division and remainder\<close>

text \<open>\<open>(intx_t)1 << (XLEN - 1)\<close>: the most negative value.\<close>

definition int_min :: "'a::len word" where
  "int_min = push_bit (LENGTH('a) - 1) 1"

definition divX :: "'a::len word \<Rightarrow> 'a word \<Rightarrow> 'a word" where
  "divX a b =
     (if b = 0 then - 1
      else if a = int_min \<and> b = - 1 then a
      else word_of_int (sint a sdiv sint b))"

definition divuX :: "'a::len word \<Rightarrow> 'a word \<Rightarrow> 'a word" where
  "divuX a b = (if b = 0 then - 1 else a div b)"

definition remX :: "'a::len word \<Rightarrow> 'a word \<Rightarrow> 'a word" where
  "remX a b =
     (if b = 0 then a
      else if a = int_min \<and> b = - 1 then 0
      else word_of_int (sint a smod sint b))"

definition remuX :: "'a::len word \<Rightarrow> 'a word \<Rightarrow> 'a word" where
  "remuX a b = (if b = 0 then a else a mod b)"

section \<open>Upper half of a product, with a double-width product\<close>

text \<open>
  \<open>((int128_t)a * (int128_t)b) >> 64\<close>; the product of two unsigned operands can exceed
  the signed range and wraps at 128 bits.
\<close>

definition mulh64 :: "u64 \<Rightarrow> u64 \<Rightarrow> u64" where
  "mulh64 a b = ucast (signed_drop_bit 64 ((scast a :: 128 word) * scast b))"

definition mulhsu64 :: "u64 \<Rightarrow> u64 \<Rightarrow> u64" where
  "mulhsu64 a b = ucast (signed_drop_bit 64 ((scast a :: 128 word) * ucast b))"

definition mulhu64 :: "u64 \<Rightarrow> u64 \<Rightarrow> u64" where
  "mulhu64 a b = ucast (signed_drop_bit 64 ((ucast a :: 128 word) * ucast b))"

section \<open>Upper half of a product, from half words\<close>

definition mulhu_half :: "u64 \<Rightarrow> u64 \<Rightarrow> u64" where
  "mulhu_half a b =
     (let a0 = ucast a :: u32;
          a1 = ucast (drop_bit 32 a) :: u32;
          b0 = ucast b :: u32;
          b1 = ucast (drop_bit 32 b) :: u32;
          r00 = ucast a0 * ucast b0 :: u64;
          r01 = ucast a0 * ucast b1 :: u64;
          r10 = ucast a1 * ucast b0 :: u64;
          r11 = ucast a1 * ucast b1 :: u64;
          c = drop_bit 32 r00 + ucast (ucast r01 :: u32) + ucast (ucast r10 :: u32);
          c = drop_bit 32 c + drop_bit 32 r01 + drop_bit 32 r10 + ucast (ucast r11 :: u32);
          r2 = ucast c :: u32;
          r3 = ucast (drop_bit 32 c + drop_bit 32 r11) :: u32
      in push_bit 32 (ucast r3) OR ucast r2)"

definition mulh_half :: "u64 \<Rightarrow> u64 \<Rightarrow> u64" where
  "mulh_half a b =
     (let r1 = mulhu_half a b;
          r1 = (if a <s 0 then r1 - a else r1);
          r1 = (if b <s 0 then r1 - b else r1)
      in r1)"

definition mulhsu_half :: "u64 \<Rightarrow> u64 \<Rightarrow> u64" where
  "mulhsu_half a b =
     (let r1 = mulhu_half a b;
          r1 = (if a <s 0 then r1 - a else r1)
      in r1)"

section \<open>Division: the RISC-V rules\<close>

lemma sdiv_upper:
  fixes x y :: int
  assumes "- b \<le> x" "x < b" "\<not> (x = - b \<and> y = - 1)" "y \<noteq> 0"
  shows "- b \<le> x sdiv y" "x sdiv y < b"
proof -
  have le: "- \<bar>x\<bar> \<le> x sdiv y" "x sdiv y \<le> \<bar>x\<bar>" using sdiv_int_range [of x y] by auto
  with assms show "- b \<le> x sdiv y" by linarith
  show "x sdiv y < b"
  proof (cases "x = - b")
    case False with le assms show ?thesis by linarith
  next
    case True
    with assms have "0 < b" by linarith
    with True assms int_sdiv_negated_is_minus1 [of x y] have "x sdiv y \<noteq> - x" by simp
    with le True \<open>0 < b\<close> show ?thesis by linarith
  qed
qed

lemma sint_bounds:
  fixes a :: "'a::len word"
  shows "- (2 ^ (LENGTH('a) - 1)) \<le> sint a" "sint a < 2 ^ (LENGTH('a) - 1)"
  using sint_greater_eq [of a] sint_less [of a] by simp_all

lemma sint_of_int_range:
  assumes "- (2 ^ (LENGTH('a) - 1)) \<le> x" "x < 2 ^ (LENGTH('a) - 1)"
  shows "sint (word_of_int x :: 'a::len word) = x"
  using assms by (simp add: sint_sbintrunc' signed_take_bit_int_eq_self)

lemma double_min: "int_min + int_min = (0 :: 'a::len word)"
  by (simp add: int_min_def push_bit_eq_mult flip: mult_2 power_Suc)

lemma min_eq_neg: "(int_min :: 'a::len word) = word_of_int (- (2 ^ (LENGTH('a) - 1)))"
  using double_min [where 'a = 'a]
  by (simp add: int_min_def push_bit_eq_mult eq_neg_iff_add_eq_0)

lemma sint_int_min: "sint (int_min :: 'a::len word) = - (2 ^ (LENGTH('a) - 1))"
  unfolding min_eq_neg by (rule sint_of_int_range) simp_all

lemma sint_min_iff: "sint a = - (2 ^ (LENGTH('a) - 1)) \<longleftrightarrow> a = (int_min :: 'a::len word)"
  unfolding sint_int_min [symmetric] by (auto intro: signed_word_eqI)

lemma sint_minus_one_iff: "sint b = - 1 \<longleftrightarrow> b = (- 1 :: 'a::len word)"
  by (auto intro!: signed_word_eqI)

lemma sint_zero_iff: "sint b = 0 \<longleftrightarrow> b = (0 :: 'a::len word)"
  by (auto intro!: signed_word_eqI)

lemma sint_divX:
  assumes "b \<noteq> 0" "\<not> (a = int_min \<and> b = - 1)"
  shows "sint (divX a (b :: 'a::len word)) = sint a sdiv sint b"
proof -
  have "\<not> (sint a = - (2 ^ (LENGTH('a) - 1)) \<and> sint b = - 1)" "sint b \<noteq> 0"
    using assms sint_min_iff [of a] by (auto simp: sint_minus_one_iff sint_zero_iff)
  from sdiv_upper [OF sint_bounds this] assms show ?thesis
    by (auto simp: divX_def intro: sint_of_int_range)
qed

lemma divX_remX_word: "divX a b * b + remX a b = (a :: 'a::len word)"
proof (cases "b = 0 \<or> a = int_min \<and> b = - 1")
  case True
  then consider "b = 0" | "a = int_min" "b = - 1" by blast
  then show ?thesis
  proof cases
    case 1 then show ?thesis by (simp add: remX_def)
  next
    case 2
    then have "divX a b * b + remX a b = - a" by (simp add: divX_def remX_def)
    also have "\<dots> = a" using double_min [where 'a = 'a] 2(1) by (simp only: neg_eq_iff_add_eq_0)
    finally show ?thesis .
  qed
next
  case False
  then have "divX a b * b + remX a b
      = word_of_int (sint a sdiv sint b) * word_of_int (sint b) + word_of_int (sint a smod sint b)"
    by (auto simp: divX_def remX_def)
  also have "\<dots> = word_of_int (sint a sdiv sint b * sint b + sint a smod sint b)"
    by (simp only: wi_hom_add wi_hom_mult)
  also have "\<dots> = a" by (simp only: sdiv_mult_smod_eq) simp
  finally show ?thesis .
qed

lemma abs_smod_le: "\<bar>x smod y\<bar> \<le> \<bar>x :: int\<bar>"
proof (cases "y = 0")
  case False
  then have "\<bar>x\<bar> mod \<bar>y\<bar> \<le> \<bar>x\<bar>" "0 \<le> \<bar>x\<bar> mod \<bar>y\<bar>" by (auto intro: zmod_le_nonneg_dividend)
  then show ?thesis by (cases "0 < x"; cases "x = 0") (simp_all add: signed_modulo_int_def)
qed simp

lemma smod_one [simp]: "x smod 1 = (0 :: int)"
  by (simp add: signed_modulo_int_def)

lemma sint_remX:
  assumes "b \<noteq> 0"
  shows "sint (remX a (b :: 'a::len word)) = sint a smod sint b"
proof (cases "a = int_min \<and> b = - 1")
  case True
  then show ?thesis by (simp add: remX_def)
next
  case False
  have "sint a smod sint b < 2 ^ (LENGTH('a) - 1)"
  proof (cases "0 \<le> sint a")
    case True
    then show ?thesis using abs_smod_le [of "sint a" "sint b"] sint_bounds [of a] by linarith
  next
    case False
    then have "sint a smod sint b \<le> 0" by (simp add: signed_modulo_int_def sint_zero_iff assms)
    then show ?thesis by (rule le_less_trans) simp
  qed
  moreover have "- (2 ^ (LENGTH('a) - 1)) \<le> sint a smod sint b"
    using abs_smod_le [of "sint a" "sint b"] sint_bounds [of a] by linarith
  ultimately show ?thesis using False assms by (simp add: remX_def sint_of_int_range)
qed

section \<open>Products\<close>

lemma high_half:
  "(ucast (signed_drop_bit 64 (word_of_int y :: 128 word)) :: u64) = word_of_int (y div 2 ^ 64)"
proof -
  have "(ucast (signed_drop_bit 64 (word_of_int y :: 128 word)) :: u64) = word_of_int (drop_bit 64 y)"
    by (rule bit_word_eqI) (simp add: bit_simps)
  then show ?thesis by (simp add: drop_bit_eq_div)
qed

lemma mulhu64_int: "mulhu64 a b = word_of_int (uint a * uint b div 2 ^ 64)"
  unfolding mulhu64_def high_half [symmetric] wi_hom_mult [symmetric] by (simp only: of_int_uint)

lemma mulh64_int: "mulh64 a b = word_of_int (sint a * sint b div 2 ^ 64)"
  unfolding mulh64_def high_half [symmetric] wi_hom_mult [symmetric] by (simp only: of_int_sint)

lemma mulhsu64_int: "mulhsu64 a b = word_of_int (sint a * uint b div 2 ^ 64)"
  unfolding mulhsu64_def high_half [symmetric] wi_hom_mult [symmetric]
  by (simp only: of_int_sint of_int_uint)

lemma uint_mulhu64: "uint (mulhu64 a b) = uint a * uint b div 2 ^ 64"
proof -
  have "uint a * uint b < 2 ^ 64 * 2 ^ 64"
    using uint_lt2p [of a] uint_lt2p [of b] by (intro mult_strict_mono) auto
  then have "uint a * uint b div 2 ^ 64 < 2 ^ 64"
    by (simp add: div_int_pos_iff div_less_iff_less_mult)
  moreover have "0 \<le> uint a * uint b div 2 ^ 64" by (simp add: pos_imp_zdiv_nonneg_iff)
  ultimately show ?thesis unfolding mulhu64_int uint_word_of_int by (simp add: mod_pos_pos_trivial)
qed

text \<open>The carry chain of the half-word product, on natural numbers.\<close>

lemma carry_chain:
  fixes a0 a1 b0 b1 B :: nat
  assumes "0 < B"
  shows "(a1 * B + a0) * (b1 * B + b0) div (B * B)
       = (a0 * b0 div B + a0 * b1 mod B + a1 * b0 mod B) div B
         + a0 * b1 div B + a1 * b0 div B + a1 * b1"
proof -
  let ?x = "a0 * b1" and ?y = "a1 * b0" and ?z = "a0 * b0"
  let ?c = "?z div B + ?x mod B + ?y mod B"
  have "(a1 * B + a0) * (b1 * B + b0) = ?z + (a1 * b1 * B + ?x + ?y) * B"
    by (simp add: algebra_simps)
  then have "(a1 * B + a0) * (b1 * B + b0) div B = ?z div B + (a1 * b1 * B + ?x + ?y)"
    using assms by simp
  also have "\<dots> = ?c + (a1 * b1 + ?x div B + ?y div B) * B"
    using div_mult_mod_eq [of ?x B] div_mult_mod_eq [of ?y B] by (simp add: algebra_simps)
  finally show ?thesis using assms by (simp add: div_mult2_eq)
qed

lemma unat_u64: "unat (x :: u64) < 2 ^ 32 * 2 ^ 32"
  by (rule order.strict_trans2 [OF unsigned_less]) simp

lemma unat_lo: "unat (ucast (ucast (x :: u64) :: u32) :: u64) = unat x mod 2 ^ 32"
  by (simp add: unsigned_ucast_eq unsigned_take_bit_eq flip: take_bit_eq_mod) (simp add: take_bit_eq_mod)

lemma unat_hi: "unat (drop_bit 32 x :: u64) = unat x div 2 ^ 32"
  by (simp only: unat_drop_bit_eq flip: drop_bit_eq_div)

lemma unat_hi_half: "unat (ucast (ucast (drop_bit 32 (x :: u64)) :: u32) :: u64) = unat x div 2 ^ 32"
proof -
  have "unat x div 2 ^ 32 < 2 ^ 32" by (intro less_mult_imp_div_less unat_u64)
  then show ?thesis by (simp only: unat_lo unat_hi mod_less)
qed

lemma half_products:
  fixes a b :: nat
  assumes "a < 2 ^ 32" "b < 2 ^ 32"
  shows "a * b \<le> 2 ^ 64 - 2 ^ 33 + 1"
proof -
  have "a * b \<le> (2 ^ 32 - 1) * (2 ^ 32 - 1)" using assms by (intro mult_mono) auto
  then show ?thesis by simp
qed

lemma concat_halves:
  "unat (push_bit 32 (ucast (ucast (h :: u64) :: u32)) OR ucast (ucast (l :: u64) :: u32) :: u64)
     = unat h mod 2 ^ 32 * 2 ^ 32 + unat l mod 2 ^ 32" (is "unat (?h OR ?l) = _")
proof -
  have "?h OR ?l = ?h + ?l"
    by (rule disjunctive_add [symmetric]) (auto simp: bit_simps)
  moreover have "unat (?h + ?l) = unat h mod 2 ^ 32 * 2 ^ 32 + unat l mod 2 ^ 32"
  proof -
    have "unat h mod 2 ^ 32 * 2 ^ 32 + unat l mod 2 ^ 32 < 2 ^ 64"
      by simp
    then show ?thesis by (simp add: unat_word_ariths push_bit_eq_mult unat_lo [simplified])
  qed
  ultimately show ?thesis by simp
qed

lemma unat_mult_exact: "unat x * unat y < 2 ^ 64 \<Longrightarrow> unat (x * y :: u64) = unat x * unat y"
  by (simp add: unat_word_ariths)

lemma unat_add_exact: "unat x + unat y < 2 ^ 64 \<Longrightarrow> unat (x + y :: u64) = unat x + unat y"
  by (simp add: unat_word_ariths)

lemma unat_mulhu_half: "unat (mulhu_half a b) = unat a * unat b div 2 ^ 64"
proof -
  let ?B = "2 ^ 32 :: nat"
  define a0 a1 b0 b1 where defs: "a0 = (ucast (ucast a :: u32) :: u64)"
    "a1 = (ucast (ucast (drop_bit 32 a) :: u32) :: u64)"
    "b0 = (ucast (ucast b :: u32) :: u64)" "b1 = (ucast (ucast (drop_bit 32 b) :: u32) :: u64)"
  have lt: "unat a0 < ?B" "unat a1 < ?B" "unat b0 < ?B" "unat b1 < ?B"
    unfolding defs unat_hi_half unfolding unat_lo
    by (intro less_mult_imp_div_less unat_u64 mod_less_divisor; simp)+
  define r00 r01 r10 r11 where r: "r00 = a0 * b0" "r01 = a0 * b1" "r10 = a1 * b0" "r11 = a1 * b1"
  have p: "unat x * unat y < 2 ^ 64" if "unat x < ?B" "unat y < ?B" for x y :: u64
    using half_products [OF that] by simp
  have ur: "unat r00 = unat a0 * unat b0" "unat r01 = unat a0 * unat b1"
    "unat r10 = unat a1 * unat b0" "unat r11 = unat a1 * unat b1"
    unfolding r by (simp_all only: unat_mult_exact p lt)
  define c where "c = drop_bit 32 r00 + ucast (ucast r01 :: u32) + ucast (ucast r10 :: u32)"
  define d where "d = drop_bit 32 c + drop_bit 32 r01 + drop_bit 32 r10 + ucast (ucast r11 :: u32)"
  have hi: "unat (drop_bit 32 x) < ?B" for x :: u64
    unfolding unat_hi by (intro less_mult_imp_div_less unat_u64)
  have lo: "unat (ucast (ucast x :: u32) :: u64) < ?B" for x :: u64
    unfolding unat_lo by simp
  have uc: "unat c = unat r00 div ?B + unat r01 mod ?B + unat r10 mod ?B"
    using hi [of r00] lo [of r01] lo [of r10]
    by (simp add: c_def unat_add_exact unat_hi unat_lo)
  have ud: "unat d = unat c div ?B + unat r01 div ?B + unat r10 div ?B + unat r11 mod ?B"
    using hi [of c] hi [of r01] hi [of r10] lo [of r11]
    by (simp add: d_def unat_add_exact unat_hi unat_lo)
  let ?R = "unat c div ?B + unat r01 div ?B + unat r10 div ?B + unat r11"
  have split: "(unat d div ?B + unat r11 div ?B) * ?B + unat d mod ?B = ?R"
    unfolding ud by (simp add: algebra_simps)
  have res: "unat a * unat b div 2 ^ 64 = ?R"
  proof -
    have "unat a1 * ?B + unat a0 = unat a" "unat b1 * ?B + unat b0 = unat b"
      unfolding defs unat_hi_half unfolding unat_lo by (rule div_mult_mod_eq)+
    with carry_chain [of ?B "unat a1" "unat a0" "unat b1" "unat b0"]
    show ?thesis by (simp add: uc ur)
  qed
  have "mulhu_half a b
      = push_bit 32 (ucast (ucast (drop_bit 32 d + drop_bit 32 r11) :: u32)) OR ucast (ucast d :: u32)"
    by (simp add: mulhu_half_def Let_def defs r c_def d_def)
  then have "unat (mulhu_half a b) = (unat d div ?B + unat r11 div ?B) mod ?B * ?B + unat d mod ?B"
    using hi [of d] hi [of r11] by (simp add: concat_halves unat_add_exact unat_hi)
  moreover have "unat d div ?B + unat r11 div ?B < ?B"
  proof -
    have "unat a * unat b < 2 ^ 64 * 2 ^ 64"
      using unat_u64 [of a] unat_u64 [of b] by (intro mult_strict_mono) auto
    then have "?R < 2 ^ 64" unfolding res [symmetric] by (intro less_mult_imp_div_less)
    with split show ?thesis by simp
  qed
  ultimately show ?thesis by (simp only: res split mod_less)
qed

lemma mulhu_half_eq: "mulhu_half a b = mulhu64 a b"
proof (rule word_uint_eqI)
  have "int (unat (mulhu_half a b)) = int (unat a * unat b div 2 ^ 64)"
    by (simp only: unat_mulhu_half)
  then show "uint (mulhu_half a b) = uint (mulhu64 a b)"
    by (simp add: uint_mulhu64 zdiv_int)
qed

lemma sint_uint_neg: "sint (a :: u64) = uint a - (if a <s 0 then 2 ^ 64 else 0)"
proof -
  have "bit (uint a) 63 \<longleftrightarrow> sint a < 0" by (simp add: sint_uint)
  moreover have "take_bit 64 (uint a) = uint a"
    by (simp add: bintr_uint)
  ultimately show ?thesis
    by (simp add: word_sless_alt sint_uint signed_take_bit_eq_take_bit_minus)
qed

lemma high_minus: "(x - 2 ^ 64 * y) div 2 ^ 64 = x div 2 ^ 64 - (y :: int)"
  using div_mult_self2 [of "2 ^ 64" x "- y"] by simp

lemma mulh64_from_mulhu:
  "mulh64 a b = mulhu64 a b - (if a <s 0 then b else 0) - (if b <s 0 then a else 0)"
proof -
  have "sint a * sint b = uint a * uint b - 2 ^ 64 *
      ((if b <s 0 then uint a else 0) + (if a <s 0 then uint b else 0)
        - (if a <s 0 \<and> b <s 0 then 2 ^ 64 else 0))"
    by (simp add: sint_uint_neg algebra_simps)
  then show ?thesis
    unfolding mulh64_int mulhu64_int by (simp add: high_minus del: power_numeral)
qed

lemma mulhsu64_from_mulhu: "mulhsu64 a b = mulhu64 a b - (if a <s 0 then b else 0)"
proof -
  have "sint a * uint b = uint a * uint b - 2 ^ 64 * (if a <s 0 then uint b else 0)"
    by (simp add: sint_uint_neg algebra_simps)
  then show ?thesis
    unfolding mulhsu64_int mulhu64_int by (simp add: high_minus del: power_numeral)
qed

lemma mulh_half_eq_iff: "mulh_half a b = mulh64 a b \<longleftrightarrow> (a <s 0 \<longleftrightarrow> b <s 0)"
  by (auto simp: mulh64_from_mulhu mulh_half_def mulhu_half_eq Let_def)

lemma mulhsu_half_eq_iff: "mulhsu_half a b = mulhsu64 a b \<longleftrightarrow> (a <s 0 \<longrightarrow> a = b)"
  by (auto simp: mulhsu64_from_mulhu mulhsu_half_def mulhu_half_eq Let_def)

section \<open>Properties\<close>



text \<open>
  C26. The upper halves of the 128-bit products are exact for all operands: \<open>mulhu\<close> is the
  upper word of the unsigned product, \<open>mulh\<close> and \<open>mulhsu\<close> those of the signed and of the
  mixed product (floor division by \<open>2^64\<close>, read modulo \<open>2^64\<close>), and the half-word
  \<open>mulhu\<close> with its carry chain computes the same function as the 128-bit one.
\<close>

theorem mulh_exact:
  "uint (mulhu64 a b) = uint a * uint b div 2 ^ 64
   \<and> mulh64 a b = word_of_int (sint a * sint b div 2 ^ 64)
   \<and> mulhsu64 a b = word_of_int (sint a * uint b div 2 ^ 64)
   \<and> mulhu_half a b = mulhu64 a b"
  by (intro conjI uint_mulhu64 mulh64_int mulhsu64_int mulhu_half_eq)

text \<open>
  The half-word \<open>mulh\<close> and \<open>mulhsu\<close> correct the unsigned product by subtracting the
  negative operand itself instead of the other operand. They agree with the 128-bit
  versions exactly where this makes no difference: \<open>mulh\<close> when both operands have the same
  sign, \<open>mulhsu\<close> when the signed operand is not negative or equals the other one.
\<close>

theorem half_word_mulh_sign:
  "(mulh_half a b = mulh64 a b) = ((a <s 0) = (b <s 0))
   \<and> (mulhsu_half a b = mulhsu64 a b) = (\<not> (a <s 0 \<and> a \<noteq> b))"
  by (simp add: mulh_half_eq_iff mulhsu_half_eq_iff)

end
