(* ===== verification/Exec_Int.thy ===== *)
theory Exec_Int
  imports Exec_Base Int_Arith
begin

text \<open>
  The 32-bit integer instructions of \<^verbatim>\<open>dromajo_template.h\<close>: upper immediates, jumps,
  branches, loads, stores, register-immediate and register-register operations, their
  32-bit variants, and the M extension.
\<close>

section \<open>Upper immediates, jumps, branches\<close>

definition exec_lui :: "hart \<Rightarrow> u32 \<Rightarrow> flow" where
  "exec_lui s insn = F_NEXT 4 (write_rd (insn_rd insn) (sx (insn AND 0xfffff000)) s)"

definition exec_auipc :: "hart \<Rightarrow> u32 \<Rightarrow> flow" where
  "exec_auipc s insn = F_NEXT 4 (write_rd (insn_rd insn) (pc s + sx (insn AND 0xfffff000)) s)"

definition imm_jal :: "u32 \<Rightarrow> u32" where
  "imm_jal insn =
     (let imm = (drop_bit 11 insn AND push_bit 20 1) OR (drop_bit 20 insn AND 0x7fe)
                OR (drop_bit 9 insn AND push_bit 11 1) OR (insn AND 0xff000)
      in signed_drop_bit 11 (push_bit 11 imm))"

definition exec_jal :: "hart \<Rightarrow> u32 \<Rightarrow> flow" where
  "exec_jal s insn =
     (let new_pc = pc s + sx (imm_jal insn) in
      if misaligned_target s new_pc then raise_pending CAUSE_MISALIGNED_FETCH s
      else F_JUMP ctf_taken_jump ((write_rd (insn_rd insn) (pc s + 4) s)\<lparr>pc := new_pc\<rparr>))"

definition imm_i :: "u32 \<Rightarrow> u32" where
  "imm_i insn = signed_drop_bit 20 insn"

definition exec_jalr :: "hart \<Rightarrow> u32 \<Rightarrow> flow" where
  "exec_jalr s insn =
     (let rd = insn_rd insn; rs1 = insn_rs1 insn;
          val = pc s + 4;
          new_pc = (reg s rs1 + sx (imm_i insn)) AND NOT 1
      in if insn_funct3 insn \<noteq> 0 then F_ILLEGAL s
         else if misaligned_target s new_pc then raise_pending CAUSE_MISALIGNED_FETCH s
         else F_JUMP (ctf_compute_hint rd rs1) (write_rd rd val (s\<lparr>pc := new_pc\<rparr>)))"

definition imm_b :: "u32 \<Rightarrow> u32" where
  "imm_b insn =
     (let imm = (drop_bit 19 insn AND push_bit 12 1) OR (drop_bit 20 insn AND 0x7e0)
                OR (drop_bit 7 insn AND 0x1e) OR (push_bit 4 insn AND push_bit 11 1)
      in signed_drop_bit 19 (push_bit 19 imm))"

text \<open>The comparison selected by \<open>funct3 >> 1\<close>; \<^const>\<open>None\<close> is an illegal instruction.\<close>

definition branch_cond :: "u32 \<Rightarrow> u64 \<Rightarrow> u64 \<Rightarrow> bool option" where
  "branch_cond funct3 a b =
     (let f = drop_bit 1 funct3; neg = (funct3 AND 1 \<noteq> 0) in
      if f = 0 then Some ((a = b) \<noteq> neg)
      else if f = 2 then Some ((a <s b) \<noteq> neg)
      else if f = 3 then Some ((a < b) \<noteq> neg)
      else None)"

definition exec_branch :: "hart \<Rightarrow> u32 \<Rightarrow> flow" where
  "exec_branch s insn =
     (case branch_cond (insn_funct3 insn) (reg s (insn_rs1 insn)) (reg s (insn_rs2 insn)) of
        None \<Rightarrow> F_ILLEGAL s
      | Some cond \<Rightarrow>
          if cond
          then let new_pc = pc s + sx (imm_b insn) in
               if misaligned_target s new_pc then raise_pending CAUSE_MISALIGNED_FETCH s
               else F_JUMP ctf_taken_branch (s\<lparr>pc := new_pc\<rparr>)
          else F_NEXT 4 s)"

section \<open>Loads and stores\<close>

definition sext_load :: "nat \<Rightarrow> u64 \<Rightarrow> u64" where
  "sext_load size_log2 v =
     (if size_log2 = 0 then scast (ucast v :: u8)
      else if size_log2 = 1 then scast (ucast v :: u16)
      else if size_log2 = 2 then scast (ucast v :: u32) else v)"

definition exec_load :: "hart \<Rightarrow> u32 \<Rightarrow> flow" where
  "exec_load s insn =
     (let funct3 = insn_funct3 insn; rd = insn_rd insn;
          addr = reg s (insn_rs1 insn) + sx (imm_i insn);
          signed = (\<lambda>sz. load_then sz s addr (\<lambda>v s. F_NEXT 4 (write_rd rd (sext_load sz v) s)));
          unsigned = (\<lambda>sz. load_then sz s addr (\<lambda>v s. F_NEXT 4 (write_rd rd v s)))
      in if funct3 = 0 then signed 0
         else if funct3 = 1 then signed 1
         else if funct3 = 2 then signed 2
         else if funct3 = 4 then unsigned 0
         else if funct3 = 5 then unsigned 1
         else if funct3 = 3 then unsigned 3
         else if funct3 = 6 then unsigned 2
         else F_ILLEGAL s)"

definition imm_s :: "u32 \<Rightarrow> u32" where
  "imm_s insn =
     (let imm = (drop_bit 7 insn AND 0x1f) OR (drop_bit 20 insn AND 0xfe0)
      in signed_drop_bit 20 (push_bit 20 imm))"

definition exec_store :: "hart \<Rightarrow> u32 \<Rightarrow> flow" where
  "exec_store s insn =
     (let funct3 = insn_funct3 insn;
          addr = reg s (insn_rs1 insn) + sx (imm_s insn);
          val = reg s (insn_rs2 insn)
      in if funct3 = 0 then store_then 0 s addr val (F_NEXT 4)
         else if funct3 = 1 then store_then 1 s addr val (F_NEXT 4)
         else if funct3 = 2 then store_then 2 s addr val (F_NEXT 4)
         else if funct3 = 3 then store_then 3 s addr val (F_NEXT 4)
         else F_ILLEGAL s)"

section \<open>Register-immediate operations\<close>

text \<open>The value of an operation; \<^const>\<open>None\<close> is an illegal instruction.\<close>

definition finish_op :: "hart \<Rightarrow> u32 \<Rightarrow> u64 option \<Rightarrow> flow" where
  "finish_op s insn r =
     (case r of None \<Rightarrow> F_ILLEGAL s | Some val \<Rightarrow> F_NEXT 4 (write_rd (insn_rd insn) val s))"

definition op_imm :: "u32 \<Rightarrow> u32 \<Rightarrow> u64 \<Rightarrow> u64 option" where
  "op_imm funct3 imm a =
     (let sh = unat (imm AND 63) in
      if funct3 = 0 then Some (a + sx imm)
      else if funct3 = 1 then (if imm AND NOT 63 \<noteq> 0 then None else Some (push_bit sh a))
      else if funct3 = 2 then Some (of_bool (a <s sx imm))
      else if funct3 = 3 then Some (of_bool (a < sx imm))
      else if funct3 = 4 then Some (a XOR sx imm)
      else if funct3 = 5 then
        (if imm AND NOT (63 OR 0x400) \<noteq> 0 then None
         else if imm AND 0x400 \<noteq> 0 then Some (signed_drop_bit sh a)
         else Some (drop_bit sh a))
      else if funct3 = 6 then Some (a OR sx imm)
      else Some (a AND sx imm))"

definition exec_op_imm :: "hart \<Rightarrow> u32 \<Rightarrow> flow" where
  "exec_op_imm s insn =
     finish_op s insn (op_imm (insn_funct3 insn) (imm_i insn) (reg s (insn_rs1 insn)))"

definition op_imm_32 :: "u32 \<Rightarrow> u32 \<Rightarrow> u64 \<Rightarrow> u64 option" where
  "op_imm_32 funct3 imm a =
     (let sh = unat (imm AND 31) in
      if funct3 = 0 then Some (sext32 (a + sx imm))
      else if funct3 = 1 then (if imm AND NOT 31 \<noteq> 0 then None else Some (sext32 (push_bit sh a)))
      else if funct3 = 5 then
        (if imm AND NOT (31 OR 0x400) \<noteq> 0 then None
         else if imm AND 0x400 \<noteq> 0 then Some (scast (signed_drop_bit sh (ucast a :: u32)))
         else Some (scast (drop_bit sh (ucast a :: u32))))
      else None)"

definition exec_op_imm_32 :: "hart \<Rightarrow> u32 \<Rightarrow> flow" where
  "exec_op_imm_32 s insn =
     finish_op s insn (op_imm_32 (insn_funct3 insn) (imm_i insn) (reg s (insn_rs1 insn)))"

section \<open>Register-register operations\<close>

definition op_funct :: "u32 \<Rightarrow> u32" where
  "op_funct insn = (drop_bit 12 insn AND 7) OR (drop_bit 27 insn AND push_bit 3 1)"

definition op_m :: "u32 \<Rightarrow> u64 \<Rightarrow> u64 \<Rightarrow> u64 option" where
  "op_m funct3 a b =
     (if funct3 = 0 then Some (a * b)
      else if funct3 = 1 then Some (mulh64 a b)
      else if funct3 = 2 then Some (mulhsu64 a b)
      else if funct3 = 3 then Some (mulhu64 a b)
      else if funct3 = 4 then Some (divX a b)
      else if funct3 = 5 then Some (divuX a b)
      else if funct3 = 6 then Some (remX a b)
      else if funct3 = 7 then Some (remuX a b)
      else None)"

definition op_alu :: "u32 \<Rightarrow> u64 \<Rightarrow> u64 \<Rightarrow> u64 option" where
  "op_alu funct a b =
     (let sh = unat (b AND 63) in
      if funct = 0 then Some (a + b)
      else if funct = 8 then Some (a - b)
      else if funct = 1 then Some (push_bit sh a)
      else if funct = 2 then Some (of_bool (a <s b))
      else if funct = 3 then Some (of_bool (a < b))
      else if funct = 4 then Some (a XOR b)
      else if funct = 5 then Some (drop_bit sh a)
      else if funct = 13 then Some (signed_drop_bit sh a)
      else if funct = 6 then Some (a OR b)
      else if funct = 7 then Some (a AND b)
      else None)"

definition op_value :: "u32 \<Rightarrow> u64 \<Rightarrow> u64 \<Rightarrow> u64 option" where
  "op_value insn a b =
     (let imm = drop_bit 25 insn in
      if imm = 1 then op_m (insn_funct3 insn) a b
      else if imm AND NOT 0x20 \<noteq> 0 then None
      else op_alu (op_funct insn) a b)"

definition exec_op :: "hart \<Rightarrow> u32 \<Rightarrow> flow" where
  "exec_op s insn =
     finish_op s insn (op_value insn (reg s (insn_rs1 insn)) (reg s (insn_rs2 insn)))"

definition op_m_32 :: "u32 \<Rightarrow> u32 \<Rightarrow> u32 \<Rightarrow> u64 option" where
  "op_m_32 funct3 a b =
     (if funct3 = 0 then Some (scast (a * b))
      else if funct3 = 4 then Some (scast (divX a b))
      else if funct3 = 5 then Some (scast (divuX a b))
      else if funct3 = 6 then Some (scast (remX a b))
      else if funct3 = 7 then Some (scast (remuX a b))
      else None)"

definition op_alu_32 :: "u32 \<Rightarrow> u64 \<Rightarrow> u64 \<Rightarrow> u64 option" where
  "op_alu_32 funct a b =
     (let sh = unat (b AND 31); w = ucast a :: u32 in
      if funct = 0 then Some (sext32 (a + b))
      else if funct = 8 then Some (sext32 (a - b))
      else if funct = 1 then Some (scast (push_bit sh w))
      else if funct = 5 then Some (scast (drop_bit sh w))
      else if funct = 13 then Some (scast (signed_drop_bit sh w))
      else None)"

definition op_value_32 :: "u32 \<Rightarrow> u64 \<Rightarrow> u64 \<Rightarrow> u64 option" where
  "op_value_32 insn a b =
     (let imm = drop_bit 25 insn in
      if imm = 1 then op_m_32 (insn_funct3 insn) (ucast a) (ucast b)
      else if imm AND NOT 0x20 \<noteq> 0 then None
      else op_alu_32 (op_funct insn) a b)"

definition exec_op_32 :: "hart \<Rightarrow> u32 \<Rightarrow> flow" where
  "exec_op_32 s insn =
     finish_op s insn (op_value_32 insn (reg s (insn_rs1 insn)) (reg s (insn_rs2 insn)))"

end
