(* ===== verification/Softfp.thy ===== *)
theory Softfp
  imports Prelude
begin

text \<open>
  The software floating point of \<^verbatim>\<open>softfp_template.h\<close>, \<^verbatim>\<open>softfp_template_icvt.h\<close> and
  \<^verbatim>\<open>softfp.cpp\<close>. The template parameter \<open>F_SIZE\<close> is the length of the word type, so every
  definition is the template itself; \<open>MANT_SIZE\<close> and \<open>EXP_SIZE\<close> are selected as in the
  source. Signs are truth values, exponents are integers (the C ints never leave their
  range), the accrued flags are passed in and out. \<^const>\<open>None\<close> is a failed assertion.
\<close>

section \<open>Formats\<close>

datatype RoundingModeEnum = RM_RNE | RM_RTZ | RM_RDN | RM_RUP | RM_RMM

abbreviation FFLAG_INVALID_OP :: u32 where "FFLAG_INVALID_OP \<equiv> 0x10"
abbreviation FFLAG_DIVIDE_ZERO :: u32 where "FFLAG_DIVIDE_ZERO \<equiv> 0x8"
abbreviation FFLAG_OVERFLOW :: u32 where "FFLAG_OVERFLOW \<equiv> 0x4"
abbreviation FFLAG_UNDERFLOW :: u32 where "FFLAG_UNDERFLOW \<equiv> 0x2"
abbreviation FFLAG_INEXACT :: u32 where "FFLAG_INEXACT \<equiv> 0x1"

definition MANT_SIZE :: "'f::len itself \<Rightarrow> nat" where
  "MANT_SIZE _ = (if LENGTH('f) = 32 then 23 else if LENGTH('f) = 64 then 52 else 112)"

definition EXP_SIZE :: "'f::len itself \<Rightarrow> nat" where
  "EXP_SIZE _ = (if LENGTH('f) = 32 then 8 else if LENGTH('f) = 64 then 11 else 15)"

definition EXP_MASK :: "'f::len itself \<Rightarrow> int" where
  "EXP_MASK t = 2 ^ EXP_SIZE t - 1"

definition IMANT_SIZE :: "'f::len itself \<Rightarrow> nat" where
  "IMANT_SIZE _ = LENGTH('f) - 2"

definition RND_SIZE :: "'f::len itself \<Rightarrow> nat" where
  "RND_SIZE t = IMANT_SIZE t - MANT_SIZE t"

definition MANT_MASK :: "'f::len word" where
  "MANT_MASK = push_bit (MANT_SIZE TYPE('f)) 1 - 1"

definition SIGN_MASK :: "'f::len word" where
  "SIGN_MASK = push_bit (LENGTH('f) - 1) 1"

definition QNAN_MASK :: "'f::len word" where
  "QNAN_MASK = push_bit (MANT_SIZE TYPE('f) - 1) 1"

definition F_QNAN :: "'f::len word" where
  "F_QNAN = push_bit (MANT_SIZE TYPE('f)) (word_of_int (EXP_MASK TYPE('f)))
            OR push_bit (MANT_SIZE TYPE('f) - 1) 1"

text \<open>The three fields of a float.\<close>

definition fsign :: "'f::len word \<Rightarrow> bool" where
  "fsign a = (drop_bit (LENGTH('f) - 1) a \<noteq> 0)"

definition fexp :: "'f::len word \<Rightarrow> int" where
  "fexp a = uint (drop_bit (MANT_SIZE TYPE('f)) a AND word_of_int (EXP_MASK TYPE('f)))"

definition fmant :: "'f::len word \<Rightarrow> 'f word" where
  "fmant a = a AND MANT_MASK"

definition pack_sf :: "bool \<Rightarrow> int \<Rightarrow> 'f::len word \<Rightarrow> 'f word" where
  "pack_sf a_sign a_exp a_mant =
     push_bit (LENGTH('f) - 1) (of_bool a_sign)
     OR push_bit (MANT_SIZE TYPE('f)) (word_of_int a_exp)
     OR (a_mant AND MANT_MASK)"

definition unpack_sf :: "'f::len word \<Rightarrow> bool \<times> int \<times> 'f word" where
  "unpack_sf a = (fsign a, fexp a, fmant a)"

definition issignan_sf :: "'f::len word \<Rightarrow> bool" where
  "issignan_sf a =
     (uint (drop_bit (MANT_SIZE TYPE('f) - 1) a AND (push_bit (EXP_SIZE TYPE('f) + 1) 1 - 1))
        = 2 * EXP_MASK TYPE('f)
      \<and> fmant a \<noteq> 0)"

definition isnan_sf :: "'f::len word \<Rightarrow> bool" where
  "isnan_sf a = (fexp a = EXP_MASK TYPE('f) \<and> fmant a \<noteq> 0)"

section \<open>Leading zeros and sticky shifts\<close>

text \<open>\<open>clz32\<close>, \<open>clz64\<close>, \<open>clz128\<close>: the builtin, and the size of the type for 0.\<close>

fun bit_length :: "nat \<Rightarrow> nat" where
  "bit_length n = (if n = 0 then 0 else Suc (bit_length (n div 2)))"

declare bit_length.simps [simp del]

definition clz :: "'f::len word \<Rightarrow> nat" where
  "clz a = LENGTH('f) - bit_length (unat a)"

definition rshift_rnd :: "'f::len word \<Rightarrow> nat \<Rightarrow> 'f word" where
  "rshift_rnd a d =
     (if d \<noteq> 0
      then (if LENGTH('f) \<le> d then of_bool (a \<noteq> 0)
            else let msk = push_bit d 1 - 1 in drop_bit d a OR of_bool (a AND msk \<noteq> 0))
      else a)"

section \<open>Rounding and normalisation\<close>

definition rnd_addend :: "'f::len itself \<Rightarrow> RoundingModeEnum \<Rightarrow> bool \<Rightarrow> 'f word" where
  "rnd_addend t rm a_sign =
     (case rm of
        RM_RNE \<Rightarrow> push_bit (RND_SIZE t - 1) 1
      | RM_RMM \<Rightarrow> push_bit (RND_SIZE t - 1) 1
      | RM_RTZ \<Rightarrow> 0
      | RM_RDN \<Rightarrow> if a_sign then push_bit (RND_SIZE t) 1 - 1 else 0
      | RM_RUP \<Rightarrow> if \<not> a_sign then push_bit (RND_SIZE t) 1 - 1 else 0)"

definition round_pack_sf ::
    "bool \<Rightarrow> int \<Rightarrow> 'f::len word \<Rightarrow> RoundingModeEnum \<Rightarrow> u32 \<Rightarrow> 'f word \<times> u32" where
  "round_pack_sf a_sign a_exp0 a_mant0 rm fl0 =
     (let t = TYPE('f);
          addend = rnd_addend t rm a_sign;
          rmask = push_bit (RND_SIZE t) 1 - 1;
          is_subnormal = (a_exp0 < 0 \<or> a_mant0 + addend < push_bit (LENGTH('f) - 1) 1);
          a_mant1 = (if a_exp0 \<le> 0 then rshift_rnd a_mant0 (nat (1 - a_exp0)) else a_mant0);
          rnd_bits = a_mant1 AND rmask;
          fl1 = (if a_exp0 \<le> 0 \<and> is_subnormal \<and> rnd_bits \<noteq> 0 then fl0 OR FFLAG_UNDERFLOW else fl0);
          a_exp1 = (if a_exp0 \<le> 0 then 1 else a_exp0);
          fl2 = (if rnd_bits \<noteq> 0 then fl1 OR FFLAG_INEXACT else fl1);
          a_mant2 = drop_bit (RND_SIZE t) (a_mant1 + addend);
          a_mant3 = (if rm = RM_RNE \<and> rnd_bits = push_bit (RND_SIZE t - 1) 1
                     then a_mant2 AND NOT 1 else a_mant2);
          a_exp2 = a_exp1 + uint (drop_bit (MANT_SIZE t + 1) a_mant3)
      in if a_mant3 \<le> MANT_MASK then (pack_sf a_sign 0 a_mant3, fl2)
         else if EXP_MASK t \<le> a_exp2
         then ((if addend = 0 then pack_sf a_sign (EXP_MASK t - 1) MANT_MASK
                else pack_sf a_sign (EXP_MASK t) 0),
               fl2 OR FFLAG_OVERFLOW OR FFLAG_INEXACT)
         else (pack_sf a_sign a_exp2 a_mant3, fl2))"

definition normalize_sf ::
    "bool \<Rightarrow> int \<Rightarrow> 'f::len word \<Rightarrow> RoundingModeEnum \<Rightarrow> u32 \<Rightarrow> ('f word \<times> u32) option" where
  "normalize_sf a_sign a_exp a_mant rm fl =
     (let shift = int (clz a_mant) - (int LENGTH('f) - 1 - int (IMANT_SIZE TYPE('f))) in
      if shift < 0 then None
      else Some (round_pack_sf a_sign (a_exp - shift) (push_bit (nat shift) a_mant) rm fl))"

definition normalize2_sf ::
    "bool \<Rightarrow> int \<Rightarrow> 'f::len word \<Rightarrow> 'f word \<Rightarrow> RoundingModeEnum \<Rightarrow> u32 \<Rightarrow> ('f word \<times> u32) option" where
  "normalize2_sf a_sign a_exp a_mant1 a_mant0 rm fl =
     (let n = LENGTH('f);
          l = (if a_mant1 = 0 then n + clz a_mant0 else clz a_mant1);
          shift = int l - (int n - 1 - int (IMANT_SIZE TYPE('f)));
          d = nat shift
      in if shift < 0 then None
         else let m = (if d = 0 then a_mant1 OR of_bool (a_mant0 \<noteq> 0)
                       else if d < n
                       then push_bit d a_mant1 OR drop_bit (n - d) a_mant0
                            OR of_bool (push_bit d a_mant0 \<noteq> 0)
                       else push_bit (d - n) a_mant0)
              in Some (round_pack_sf a_sign (a_exp - shift) m rm fl))"

text \<open>The exponent and the mantissa of a subnormal number.\<close>

definition normalize_subnormal_sf :: "'f::len word \<Rightarrow> int \<times> 'f word" where
  "normalize_subnormal_sf a_mant =
     (let shift = MANT_SIZE TYPE('f) - (LENGTH('f) - 1 - clz a_mant)
      in (1 - int shift, push_bit shift a_mant))"

section \<open>Addition\<close>

definition add_sf :: "'f::len word \<Rightarrow> 'f word \<Rightarrow> RoundingModeEnum \<Rightarrow> u32 \<Rightarrow> ('f word \<times> u32) option" where
  "add_sf a0 b0 rm fl =
     (let t = TYPE('f);
          sw = (a0 AND NOT SIGN_MASK < b0 AND NOT SIGN_MASK);
          a = (if sw then b0 else a0);
          b = (if sw then a0 else b0);
          a_mant = push_bit 3 (fmant a);
          b_mant = push_bit 3 (fmant b);
          hidden = push_bit (MANT_SIZE t + 3) 1
      in if fexp a = EXP_MASK t then
           (if a_mant \<noteq> 0
            then Some (F_QNAN, if a_mant AND push_bit 3 QNAN_MASK = 0 \<or> issignan_sf b
                               then fl OR FFLAG_INVALID_OP else fl)
            else if fexp b = EXP_MASK t \<and> fsign a \<noteq> fsign b
            then Some (F_QNAN, fl OR FFLAG_INVALID_OP)
            else Some (a, fl))
         else
           let a_exp = (if fexp a = 0 then 1 else fexp a);
               a_mant = (if fexp a = 0 then a_mant else a_mant OR hidden);
               b_exp = (if fexp b = 0 then 1 else fexp b);
               b_mant = (if fexp b = 0 then b_mant else b_mant OR hidden);
               b_mant = rshift_rnd b_mant (nat (a_exp - b_exp));
               r_mant = (if fsign a = fsign b then a_mant + b_mant else a_mant - b_mant);
               r_sign = (if fsign a \<noteq> fsign b \<and> r_mant = 0 then rm = RM_RDN else fsign a)
           in normalize_sf r_sign (a_exp + (int (RND_SIZE t) - 3)) r_mant rm fl)"

definition sub_sf :: "'f::len word \<Rightarrow> 'f word \<Rightarrow> RoundingModeEnum \<Rightarrow> u32 \<Rightarrow> ('f word \<times> u32) option" where
  "sub_sf a b rm fl = add_sf a (b XOR SIGN_MASK) rm fl"

section \<open>Multiplication\<close>

text \<open>\<open>mul_u\<close> with a double-width product: upper and lower word.\<close>

definition mul_u :: "'f::len word \<Rightarrow> 'f word \<Rightarrow> 'f word \<times> 'f word" where
  "mul_u a b = (of_nat (unat a * unat b div 2 ^ LENGTH('f)), a * b)"

text \<open>The significand and the exponent of a finite nonzero number.\<close>

definition significand :: "'f::len word \<Rightarrow> int \<times> 'f word" where
  "significand a =
     (if fexp a = 0 then normalize_subnormal_sf (fmant a)
      else (fexp a, fmant a OR push_bit (MANT_SIZE TYPE('f)) 1))"

definition is_zero :: "'f::len word \<Rightarrow> bool" where
  "is_zero a = (fexp a = 0 \<and> fmant a = 0)"

definition invalid_if :: "bool \<Rightarrow> u32 \<Rightarrow> u32" where
  "invalid_if c fl = (if c then fl OR FFLAG_INVALID_OP else fl)"

definition mul_sf :: "'f::len word \<Rightarrow> 'f word \<Rightarrow> RoundingModeEnum \<Rightarrow> u32 \<Rightarrow> ('f word \<times> u32) option" where
  "mul_sf a b rm fl =
     (let t = TYPE('f); M = EXP_MASK t; r_sign = (fsign a \<noteq> fsign b) in
      if fexp a = M \<or> fexp b = M then
        (if isnan_sf a \<or> isnan_sf b
         then Some (F_QNAN, invalid_if (issignan_sf a \<or> issignan_sf b) fl)
         else if fexp a = M \<and> is_zero b \<or> fexp b = M \<and> is_zero a
         then Some (F_QNAN, fl OR FFLAG_INVALID_OP)
         else Some (pack_sf r_sign M 0, fl))
      else if is_zero a \<or> is_zero b then Some (pack_sf r_sign 0 0, fl)
      else let (a_exp, a_mant) = significand a;
               (b_exp, b_mant) = significand b;
               r_exp = a_exp + b_exp - 2 ^ (EXP_SIZE t - 1) + 2;
               (r_mant, r_mant_low) = mul_u (push_bit (RND_SIZE t) a_mant) (push_bit (RND_SIZE t + 1) b_mant)
           in normalize_sf r_sign r_exp (r_mant OR of_bool (r_mant_low \<noteq> 0)) rm fl)"

section \<open>Fused multiply-add\<close>

text \<open>The right shift of the double-width addend, with a sticky bit.\<close>

definition fma_align :: "'f::len word \<Rightarrow> 'f word \<Rightarrow> nat \<Rightarrow> 'f word \<times> 'f word" where
  "fma_align c1 c0 shift =
     (let n = LENGTH('f) in
      if 2 * n \<le> shift then (0, of_bool (c0 OR c1 \<noteq> 0))
      else if n + 1 \<le> shift then (0, rshift_rnd c1 (shift - n))
      else if shift = n then (0, c1 OR of_bool (c0 \<noteq> 0))
      else if shift \<noteq> 0
      then (drop_bit shift c1,
            push_bit (n - shift) c1 OR drop_bit shift c0 OR of_bool (c0 AND (push_bit shift 1 - 1) \<noteq> 0))
      else (c1, c0))"

text \<open>The addition or subtraction of the aligned operands, and the final normalisation.\<close>

definition fma_add :: "bool \<Rightarrow> int \<Rightarrow> 'f::len word \<Rightarrow> 'f word \<Rightarrow> bool \<Rightarrow> int \<Rightarrow> 'f word \<Rightarrow> 'f word
    \<Rightarrow> RoundingModeEnum \<Rightarrow> u32 \<Rightarrow> ('f word \<times> u32) option" where
  "fma_add r_sign r_exp r1 r0 c_sign c_exp c1 c0 rm fl =
     (let (c1', c0') = fma_align c1 c0 (nat (r_exp - c_exp)) in
      if r_sign = c_sign
      then let s0 = r0 + c0'; s1 = r1 + (c1' + of_bool (s0 < c0'))
           in normalize2_sf r_sign r_exp s1 s0 rm fl
      else let d0 = r0 - c0'; d1 = r1 - c1' - of_bool (d0 > r0);
               sg = (if d0 OR d1 = 0 then rm = RM_RDN else r_sign)
           in normalize2_sf sg r_exp d1 d0 rm fl)"

definition fma_sf :: "'f::len word \<Rightarrow> 'f word \<Rightarrow> 'f word \<Rightarrow> RoundingModeEnum \<Rightarrow> u32
    \<Rightarrow> ('f word \<times> u32) option" where
  "fma_sf a b c rm fl =
     (let t = TYPE('f); M = EXP_MASK t; n = LENGTH('f); r_sign = (fsign a \<noteq> fsign b) in
      if fexp a = M \<or> fexp b = M \<or> fexp c = M then
        (if is_zero a \<and> fexp b = M \<and> fmant b = 0 \<or> is_zero b \<and> fexp a = M \<and> fmant a = 0
         then Some (F_QNAN, fl OR FFLAG_INVALID_OP)
         else if isnan_sf a \<or> isnan_sf b \<or> isnan_sf c
         then Some (F_QNAN, invalid_if (issignan_sf a \<or> issignan_sf b \<or> issignan_sf c) fl)
         else if fexp a = M \<and> is_zero b \<or> fexp b = M \<and> is_zero a
                 \<or> (fexp a = M \<or> fexp b = M) \<and> fexp c = M \<and> r_sign \<noteq> fsign c
         then Some (F_QNAN, fl OR FFLAG_INVALID_OP)
         else if fexp c = M then Some (pack_sf (fsign c) M 0, fl)
         else Some (pack_sf r_sign M 0, fl))
      else if is_zero a \<or> is_zero b then
        (if is_zero c
         then Some (pack_sf (if fsign c \<noteq> r_sign then rm = RM_RDN else r_sign) 0 0, fl)
         else Some (c, fl))
      else
        let (a_exp, a_mant) = significand a;
            (b_exp, b_mant) = significand b;
            r_exp = a_exp + b_exp - 2 ^ (EXP_SIZE t - 1) + 3;
            (r1, r0) = mul_u (push_bit (RND_SIZE t) a_mant) (push_bit (RND_SIZE t) b_mant);
            small = (r1 < push_bit (n - 3) 1);
            r_exp = (if small then r_exp - 1 else r_exp);
            r1' = (if small then push_bit 1 r1 OR drop_bit (n - 1) r0 else r1);
            r0' = (if small then push_bit 1 r0 else r0)
        in if is_zero c
           then normalize_sf r_sign r_exp (r1' OR of_bool (r0' \<noteq> 0)) rm fl
           else
             let (c_exp, c_mant) = significand c;
                 c_exp = c_exp + 1;
                 c1 = push_bit (RND_SIZE t - 1) c_mant
             in if c_exp < r_exp \<or> r_exp = c_exp \<and> c1 \<le> r1'
                then fma_add r_sign r_exp r1' r0' (fsign c) c_exp c1 0 rm fl
                else fma_add (fsign c) c_exp c1 0 r_sign r_exp r1' r0' rm fl)"

section \<open>Division\<close>

text \<open>
  \<open>divrem_u\<close> with a double-width dividend: quotient (cut to one word) and remainder; and the
  shift-and-subtract loop the template has for types without a double-width type.
\<close>

definition divrem_u :: "'f::len word \<Rightarrow> 'f word \<Rightarrow> 'f word \<Rightarrow> 'f word \<times> 'f word" where
  "divrem_u ah al b =
     (let a = unat ah * 2 ^ LENGTH('f) + unat al in (of_nat (a div unat b), of_nat (a mod unat b)))"

fun divrem_loop :: "nat \<Rightarrow> 'f::len word \<Rightarrow> 'f word \<Rightarrow> 'f word \<Rightarrow> 'f word \<times> 'f word" where
  "divrem_loop 0 a1 a0 b = (a0, a1)"
| "divrem_loop (Suc i) a1 a0 b =
     (let n = LENGTH('f);
          ab = drop_bit (n - 1) a1 \<noteq> 0;
          a1' = push_bit 1 a1 OR drop_bit (n - 1) a0
      in if ab \<or> b \<le> a1'
         then divrem_loop i (a1' - b) (push_bit 1 a0 OR 1) b
         else divrem_loop i a1' (push_bit 1 a0 OR 0) b)"

definition divrem_u_loop :: "'f::len word \<Rightarrow> 'f word \<Rightarrow> 'f word \<Rightarrow> ('f word \<times> 'f word) option" where
  "divrem_u_loop a1 a0 b = (if a1 < b then Some (divrem_loop LENGTH('f) a1 a0 b) else None)"

definition div_sf :: "'f::len word \<Rightarrow> 'f word \<Rightarrow> RoundingModeEnum \<Rightarrow> u32 \<Rightarrow> ('f word \<times> u32) option" where
  "div_sf a b rm fl =
     (let t = TYPE('f); M = EXP_MASK t; r_sign = (fsign a \<noteq> fsign b) in
      if fexp a = M then
        (if fmant a \<noteq> 0 \<or> isnan_sf b
         then Some (F_QNAN, invalid_if (issignan_sf a \<or> issignan_sf b) fl)
         else if fexp b = M then Some (F_QNAN, fl OR FFLAG_INVALID_OP)
         else Some (pack_sf r_sign M 0, fl))
      else if fexp b = M then
        (if fmant b \<noteq> 0
         then Some (F_QNAN, invalid_if (issignan_sf a \<or> issignan_sf b) fl)
         else Some (pack_sf r_sign 0 0, fl))
      else if is_zero b then
        (if is_zero a then Some (F_QNAN, fl OR FFLAG_INVALID_OP)
         else Some (pack_sf r_sign M 0, fl OR FFLAG_DIVIDE_ZERO))
      else if is_zero a then Some (pack_sf r_sign 0 0, fl)
      else let (b_exp, b_mant) = significand b;
               (a_exp, a_mant) = significand a;
               r_exp = a_exp - b_exp + 2 ^ (EXP_SIZE t - 1) - 1;
               (q, r) = divrem_u a_mant 0 (push_bit 2 b_mant)
           in normalize_sf r_sign r_exp (if r \<noteq> 0 then q OR 1 else q) rm fl)"

section \<open>Square root\<close>

text \<open>
  The loop of \<open>sqrtrem_u\<close>: \<open>s = u; u = (a / s + s) / 2;\<close> until \<open>u >= s\<close>. The
  double-width values stay below \<open>2^(2 * F_SIZE)\<close>, so natural numbers represent them.
\<close>

function newton :: "nat \<Rightarrow> nat \<Rightarrow> nat" where
  "newton a s = (let u = (a div s + s) div 2 in if s \<le> u then s else newton a u)"
  by pat_completeness auto

termination by (relation "measure snd") auto

declare newton.simps [simp del]

text \<open>Root and inexactness; the root is cut to one word when it is stored.\<close>

definition sqrtrem_u :: "'f::len word \<Rightarrow> 'f word \<Rightarrow> 'f word \<times> bool" where
  "sqrtrem_u ah al =
     (let n = LENGTH('f);
          l = (if ah \<noteq> 0 then 2 * n - clz (ah - 1) else n - clz (al - 1));
          a = unat ah * 2 ^ n + unat al;
          s = newton a (2 ^ ((l + 1) div 2))
      in if ah = 0 \<and> al = 0 then (0, False)
         else (of_nat s, a \<noteq> s * s))"

definition sqrt_sf :: "'f::len word \<Rightarrow> RoundingModeEnum \<Rightarrow> u32 \<Rightarrow> ('f word \<times> u32) option" where
  "sqrt_sf a rm fl =
     (let t = TYPE('f); M = EXP_MASK t; n = LENGTH('f) in
      if fexp a = M then
        (if fmant a \<noteq> 0 then Some (F_QNAN, invalid_if (issignan_sf a) fl)
         else if fsign a then Some (F_QNAN, fl OR FFLAG_INVALID_OP)
         else Some (a, fl))
      else if fsign a then
        (if is_zero a then Some (a, fl) else Some (F_QNAN, fl OR FFLAG_INVALID_OP))
      else if is_zero a then Some (pack_sf False 0 0, fl)
      else let (e0, m0) = significand a;
               e1 = e0 - M div 2;
               odd_exp = (e1 mod 2 = 1);
               e2 = (if odd_exp then e1 - 1 else e1);
               m1 = (if odd_exp then push_bit 1 m0 else m0);
               e3 = e2 div 2 + M div 2;
               m2 = push_bit (n - 4 - MANT_SIZE t) m1;
               (root, inexact) = sqrtrem_u m2 0
           in normalize_sf (fsign a) e3 (if inexact then root OR 1 else root) rm fl)"

section \<open>Comparisons and classification\<close>

definition min_sf :: "'f::len word \<Rightarrow> 'f word \<Rightarrow> u32 \<Rightarrow> 'f word \<times> u32" where
  "min_sf a b fl =
     (if isnan_sf a \<or> isnan_sf b
      then (if isnan_sf a then (if isnan_sf b then F_QNAN else b) else a,
            invalid_if (issignan_sf a \<or> issignan_sf b) fl)
      else if fsign a \<noteq> fsign b then (if fsign a then a else b, fl)
      else (if (a < b) \<noteq> fsign a then a else b, fl))"

definition max_sf :: "'f::len word \<Rightarrow> 'f word \<Rightarrow> u32 \<Rightarrow> 'f word \<times> u32" where
  "max_sf a b fl =
     (if isnan_sf a \<or> isnan_sf b
      then (if isnan_sf a then (if isnan_sf b then F_QNAN else b) else a,
            invalid_if (issignan_sf a \<or> issignan_sf b) fl)
      else if fsign a \<noteq> fsign b then (if fsign a then b else a, fl)
      else (if (a < b) \<noteq> fsign a then b else a, fl))"

definition eq_quiet_sf :: "'f::len word \<Rightarrow> 'f word \<Rightarrow> u32 \<Rightarrow> bool \<times> u32" where
  "eq_quiet_sf a b fl =
     (if isnan_sf a \<or> isnan_sf b then (False, invalid_if (issignan_sf a \<or> issignan_sf b) fl)
      else if push_bit 1 (a OR b) = 0 then (True, fl)
      else (a = b, fl))"

definition le_sf :: "'f::len word \<Rightarrow> 'f word \<Rightarrow> u32 \<Rightarrow> bool \<times> u32" where
  "le_sf a b fl =
     (if isnan_sf a \<or> isnan_sf b then (False, fl OR FFLAG_INVALID_OP)
      else if fsign a \<noteq> fsign b then (fsign a \<or> push_bit 1 (a OR b) = 0, fl)
      else (if fsign a then b \<le> a else a \<le> b, fl))"

definition lt_sf :: "'f::len word \<Rightarrow> 'f word \<Rightarrow> u32 \<Rightarrow> bool \<times> u32" where
  "lt_sf a b fl =
     (if isnan_sf a \<or> isnan_sf b then (False, fl OR FFLAG_INVALID_OP)
      else if fsign a \<noteq> fsign b then (fsign a \<and> push_bit 1 (a OR b) \<noteq> 0, fl)
      else (if fsign a then b < a else a < b, fl))"

abbreviation FCLASS_NINF :: u32 where "FCLASS_NINF \<equiv> 0x1"
abbreviation FCLASS_NNORMAL :: u32 where "FCLASS_NNORMAL \<equiv> 0x2"
abbreviation FCLASS_NSUBNORMAL :: u32 where "FCLASS_NSUBNORMAL \<equiv> 0x4"
abbreviation FCLASS_NZERO :: u32 where "FCLASS_NZERO \<equiv> 0x8"
abbreviation FCLASS_PZERO :: u32 where "FCLASS_PZERO \<equiv> 0x10"
abbreviation FCLASS_PSUBNORMAL :: u32 where "FCLASS_PSUBNORMAL \<equiv> 0x20"
abbreviation FCLASS_PNORMAL :: u32 where "FCLASS_PNORMAL \<equiv> 0x40"
abbreviation FCLASS_PINF :: u32 where "FCLASS_PINF \<equiv> 0x80"
abbreviation FCLASS_SNAN :: u32 where "FCLASS_SNAN \<equiv> 0x100"
abbreviation FCLASS_QNAN :: u32 where "FCLASS_QNAN \<equiv> 0x200"

definition fclass_sf :: "'f::len word \<Rightarrow> u32" where
  "fclass_sf a =
     (if fexp a = EXP_MASK TYPE('f) then
        (if fmant a \<noteq> 0 then (if fmant a AND QNAN_MASK \<noteq> 0 then FCLASS_QNAN else FCLASS_SNAN)
         else if fsign a then FCLASS_NINF else FCLASS_PINF)
      else if fexp a = 0 then
        (if fmant a = 0 then (if fsign a then FCLASS_NZERO else FCLASS_PZERO)
         else if fsign a then FCLASS_NSUBNORMAL else FCLASS_PSUBNORMAL)
      else if fsign a then FCLASS_NNORMAL else FCLASS_PNORMAL)"

section \<open>Conversions\<close>

text \<open>\<open>cvt_sf32_sf64\<close> (and to 128 bits).\<close>

definition cvt_sf32_sf :: "u32 \<Rightarrow> u32 \<Rightarrow> 'f::len word \<times> u32" where
  "cvt_sf32_sf a fl =
     (let t = TYPE('f) in
      if fexp a = 0xff then
        (if fmant a \<noteq> 0 then (F_QNAN, invalid_if (issignan_sf a) fl)
         else (pack_sf (fsign a) (EXP_MASK t) 0, fl))
      else if is_zero a then (pack_sf (fsign a) 0 0, fl)
      else let (e, m) = (if fexp a = 0 then normalize_subnormal_sf (fmant a) else (fexp a, fmant a))
           in (pack_sf (fsign a) (e - 0x7f + EXP_MASK t div 2)
                 (push_bit (MANT_SIZE t - 23) (ucast m)), fl))"

text \<open>\<open>cvt_sf64_sf32\<close>: the normalised mantissa of a subnormal operand is not used.\<close>

definition cvt_sf_sf32 :: "'f::len word \<Rightarrow> RoundingModeEnum \<Rightarrow> u32 \<Rightarrow> (u32 \<times> u32) option" where
  "cvt_sf_sf32 a rm fl =
     (let t = TYPE('f) in
      if fexp a = EXP_MASK t then
        (if fmant a \<noteq> 0 then Some (F_QNAN, invalid_if (issignan_sf a) fl)
         else Some (pack_sf (fsign a) 0xff 0, fl))
      else if is_zero a then Some (pack_sf (fsign a) 0 0, fl)
      else let e = (if fexp a = 0 then fst (normalize_subnormal_sf (fmant a)) else fexp a);
               m = (if fexp a = 0 then fmant a else fmant a OR push_bit (MANT_SIZE t) 1)
           in normalize_sf (fsign a) (e - EXP_MASK t div 2 + 0x7f)
                (ucast (rshift_rnd m (MANT_SIZE t - 30))) rm fl)"

text \<open>Float to integer; the result type is the integer type.\<close>

definition internal_cvt_sf_i ::
    "'f::len word \<Rightarrow> RoundingModeEnum \<Rightarrow> u32 \<Rightarrow> bool \<Rightarrow> 'i::len word \<times> u32" where
  "internal_cvt_sf_i a rm fl is_unsigned =
     (let t = TYPE('f); w = int LENGTH('i);
          a_sign = (if fexp a = EXP_MASK t \<and> fmant a \<noteq> 0 then False else fsign a);
          a_mant = (if fexp a = 0 then fmant a else fmant a OR push_bit (MANT_SIZE t) 1);
          a_mant = push_bit (RND_SIZE t) a_mant;
          a_exp = (if fexp a = 0 then 1 else fexp a) - EXP_MASK t div 2 - int (MANT_SIZE t);
          r_max = (if is_unsigned then of_bool a_sign - 1
                   else push_bit (LENGTH('i) - 1) 1 - of_bool (\<not> a_sign)) :: 'i word;
          overflow = (r_max, fl OR FFLAG_INVALID_OP);
          finish = (\<lambda>r :: 'i word. if a_sign then - r else r)
      in if 0 \<le> a_exp then
           (if a_exp \<le> w - 1 - int (MANT_SIZE t)
            then let r = push_bit (nat a_exp) (ucast (drop_bit (RND_SIZE t) a_mant)) in
                 if r_max < r then overflow else (finish r, fl)
            else overflow)
         else
           let a_mant = rshift_rnd a_mant (nat (- a_exp));
               addend = rnd_addend t rm a_sign;
               rnd_bits = a_mant AND (push_bit (RND_SIZE t) 1 - 1);
               a_mant = drop_bit (RND_SIZE t) (a_mant + addend);
               a_mant = (if rm = RM_RNE \<and> rnd_bits = push_bit (RND_SIZE t - 1) 1
                         then a_mant AND NOT 1 else a_mant)
           in if unat r_max < unat a_mant then overflow
              else (finish (ucast a_mant), if rnd_bits \<noteq> 0 then fl OR FFLAG_INEXACT else fl))"

definition cvt_sf_i :: "'f::len word \<Rightarrow> RoundingModeEnum \<Rightarrow> u32 \<Rightarrow> 'i::len word \<times> u32" where
  "cvt_sf_i a rm fl = internal_cvt_sf_i a rm fl False"

definition cvt_sf_u :: "'f::len word \<Rightarrow> RoundingModeEnum \<Rightarrow> u32 \<Rightarrow> 'i::len word \<times> u32" where
  "cvt_sf_u a rm fl = internal_cvt_sf_i a rm fl True"

text \<open>Integer to float.\<close>

definition internal_cvt_i_sf ::
    "'i::len word \<Rightarrow> RoundingModeEnum \<Rightarrow> u32 \<Rightarrow> bool \<Rightarrow> ('f::len word \<times> u32) option" where
  "internal_cvt_i_sf a rm fl is_unsigned =
     (let t = TYPE('f);
          a_sign = (\<not> is_unsigned \<and> a <s 0);
          r = (if a_sign then - a else a);
          a_exp = EXP_MASK t div 2 + int LENGTH('f) - 2;
          l = int LENGTH('i) - int (clz r) - (int LENGTH('f) - 1);
          msk = r AND (push_bit (nat l) 1 - 1);
          r' = (if 0 < l then drop_bit (nat l) r OR of_bool (r AND msk \<noteq> 0) else r)
      in normalize_sf a_sign (if 0 < l then a_exp + l else a_exp) (ucast r') rm fl)"

definition cvt_i_sf :: "'i::len word \<Rightarrow> RoundingModeEnum \<Rightarrow> u32 \<Rightarrow> ('f::len word \<times> u32) option" where
  "cvt_i_sf a rm fl = internal_cvt_i_sf a rm fl False"

definition cvt_u_sf :: "'i::len word \<Rightarrow> RoundingModeEnum \<Rightarrow> u32 \<Rightarrow> ('f::len word \<times> u32) option" where
  "cvt_u_sf a rm fl = internal_cvt_i_sf a rm fl True"

end
