(* ===== verification/Exec_Fp.thy ===== *)
theory Exec_Fp
  imports Exec_Int Softfp
begin

text \<open>
  Floating-point loads, stores and operations of \<^verbatim>\<open>dromajo_template.h\<close> and
  \<^verbatim>\<open>dromajo_fp_template.h\<close> with \<open>FLEN = 64\<close>. The operation template is included for 32
  and for 64 bits; here its parameter is the word type, as in \<open>Softfp\<close>.
\<close>

section \<open>Boxing and rounding mode\<close>

definition chkfp32 :: "u64 \<Rightarrow> u32" where
  "chkfp32 a = (if a AND F32_HIGH \<noteq> F32_HIGH then push_bit 22 (- 1) else ucast a)"

abbreviation f_qnan32 :: u64 where "f_qnan32 \<equiv> 0x7fc00000"

definition f_unbox32 :: "u64 \<Rightarrow> u64" where
  "f_unbox32 r = (if r AND F32_HIGH \<noteq> F32_HIGH then f_qnan32 else r)"

definition f_unbox64 :: "u64 \<Rightarrow> u64" where
  "f_unbox64 r = r"

text \<open>\<open>unbox\<close>, \<open>F_HIGH\<close> and \<open>FSIGN_MASK\<close> (an int, sign-extended) of the template.\<close>

definition unbox :: "'f::len itself \<Rightarrow> u64 \<Rightarrow> u64" where
  "unbox _ r = (if LENGTH('f) = 32 then f_unbox32 r else f_unbox64 r)"

definition F_HIGH :: "'f::len itself \<Rightarrow> u64" where
  "F_HIGH _ = (if LENGTH('f) = 32 then F32_HIGH else F64_HIGH)"

definition FSIGN_MASK :: "'f::len itself \<Rightarrow> u64" where
  "FSIGN_MASK _ = (if LENGTH('f) = 32 then 0xFFFFFFFF80000000 else push_bit 63 1)"

definition rm_of :: "u32 \<Rightarrow> RoundingModeEnum" where
  "rm_of rm = (if rm = 0 then RM_RNE else if rm = 1 then RM_RTZ else if rm = 2 then RM_RDN
               else if rm = 3 then RM_RUP else RM_RMM)"

section \<open>Loads and stores\<close>

definition exec_fp_load :: "hart \<Rightarrow> u32 \<Rightarrow> flow" where
  "exec_fp_load s insn =
     (let funct3 = insn_funct3 insn; rd = insn_rd insn;
          addr = reg s (insn_rs1 insn) + sx (imm_i insn)
      in if fs s = 0 then F_ILLEGAL s
         else if funct3 = 2 then load_then 2 s addr (\<lambda>v s. F_NEXT 4 (write_fp_reg rd (v OR F32_HIGH) s))
         else if funct3 = 3 then load_then 3 s addr (\<lambda>v s. F_NEXT 4 (write_fp_reg rd (v OR F64_HIGH) s))
         else F_ILLEGAL s)"

definition exec_fp_store :: "hart \<Rightarrow> u32 \<Rightarrow> flow" where
  "exec_fp_store s insn =
     (let funct3 = insn_funct3 insn;
          addr = reg s (insn_rs1 insn) + sx (imm_s insn);
          v = fp_reg s (insn_rs2 insn)
      in if fs s = 0 then F_ILLEGAL s
         else if funct3 = 2 then store_then 2 s addr v (F_NEXT 4)
         else if funct3 = 3 then store_then 3 s addr v (F_NEXT 4)
         else F_ILLEGAL s)"

section \<open>Results\<close>

definition fp_done :: "hart \<Rightarrow> u32 \<Rightarrow> ('f::len word \<times> u32) \<Rightarrow> flow" where
  "fp_done s insn r =
     F_NEXT 4 (write_fp_reg (insn_rd insn) (ucast (fst r) OR F_HIGH TYPE('f)) (s\<lparr>fflags := snd r\<rparr>))"

definition fp_finish :: "hart \<Rightarrow> u32 \<Rightarrow> ('f::len word \<times> u32) option \<Rightarrow> flow" where
  "fp_finish s insn r = (case r of None \<Rightarrow> F_CRASH | Some r \<Rightarrow> fp_done s insn r)"

definition int_finish :: "hart \<Rightarrow> u32 \<Rightarrow> u64 \<Rightarrow> u32 \<Rightarrow> flow" where
  "int_finish s insn val fl = F_NEXT 4 (write_rd (insn_rd insn) val (s\<lparr>fflags := fl\<rparr>))"

section \<open>Fused multiply-add\<close>

text \<open>
  The four opcodes differ in the signs of the product and of the addend: \<open>np\<close> flips the
  first operand, \<open>nc\<close> the addend.
\<close>

definition exec_fma :: "bool \<Rightarrow> bool \<Rightarrow> hart \<Rightarrow> u32 \<Rightarrow> flow" where
  "exec_fma np nc s insn =
     (let funct2 = drop_bit 25 insn AND 3;
          a = fp_reg s (insn_rs1 insn);
          b = fp_reg s (insn_rs2 insn);
          c = fp_reg s (unat (drop_bit 27 insn));
          flip32 = (\<lambda>f (x :: u32). if f then x XOR push_bit 31 1 else x);
          flip64 = (\<lambda>f (x :: u64). if f then x XOR push_bit 63 1 else x)
      in if fs s = 0 then F_ILLEGAL s
         else case get_insn_rm s (insn_funct3 insn) of
           None \<Rightarrow> F_ILLEGAL s
         | Some rm \<Rightarrow>
             if funct2 = 0
             then fp_finish s insn (fma_sf (flip32 np (chkfp32 a)) (chkfp32 b) (flip32 nc (chkfp32 c))
                                      (rm_of rm) (fflags s))
             else if funct2 = 1
             then fp_finish s insn (fma_sf (flip64 np a) b (flip64 nc c) (rm_of rm) (fflags s))
             else F_ILLEGAL s)"

definition exec_fmadd :: "hart \<Rightarrow> u32 \<Rightarrow> flow" where "exec_fmadd = exec_fma False False"
definition exec_fmsub :: "hart \<Rightarrow> u32 \<Rightarrow> flow" where "exec_fmsub = exec_fma False True"
definition exec_fnmsub :: "hart \<Rightarrow> u32 \<Rightarrow> flow" where "exec_fnmsub = exec_fma True False"
definition exec_fnmadd :: "hart \<Rightarrow> u32 \<Rightarrow> flow" where "exec_fnmadd = exec_fma True True"

section \<open>The operation template\<close>

definition exec_fp_arith :: "'f::len itself \<Rightarrow> hart \<Rightarrow> u32 \<Rightarrow> u32 \<Rightarrow> flow" where
  "exec_fp_arith t s insn op =
     (let a = ucast (unbox t (fp_reg s (insn_rs1 insn))) :: 'f word;
          b = ucast (unbox t (fp_reg s (insn_rs2 insn))) :: 'f word
      in case get_insn_rm s (insn_funct3 insn) of
           None \<Rightarrow> F_ILLEGAL s
         | Some rm \<Rightarrow>
             if op = 0x00 then fp_finish s insn (add_sf a b (rm_of rm) (fflags s))
             else if op = 0x01 then fp_finish s insn (sub_sf a b (rm_of rm) (fflags s))
             else if op = 0x02 then fp_finish s insn (mul_sf a b (rm_of rm) (fflags s))
             else if op = 0x03 then fp_finish s insn (div_sf a b (rm_of rm) (fflags s))
             else if insn_rs2 insn \<noteq> 0 then F_ILLEGAL s
             else fp_finish s insn (sqrt_sf a (rm_of rm) (fflags s)))"

definition exec_fp_sgnj :: "'f::len itself \<Rightarrow> hart \<Rightarrow> u32 \<Rightarrow> flow" where
  "exec_fp_sgnj t s insn =
     (let a = unbox t (fp_reg s (insn_rs1 insn));
          b = unbox t (fp_reg s (insn_rs2 insn));
          M = FSIGN_MASK t; rm = insn_funct3 insn;
          put = (\<lambda>v. F_NEXT 4 (write_fp_reg (insn_rd insn) (v OR F_HIGH t) s))
      in if rm = 0 then put ((a AND NOT M) OR (b AND M))
         else if rm = 1 then put ((a AND NOT M) OR ((b AND M) XOR M))
         else if rm = 2 then put (a XOR (b AND M))
         else F_ILLEGAL s)"

definition exec_fp_minmax :: "'f::len itself \<Rightarrow> hart \<Rightarrow> u32 \<Rightarrow> flow" where
  "exec_fp_minmax t s insn =
     (let a = ucast (unbox t (fp_reg s (insn_rs1 insn))) :: 'f word;
          b = ucast (unbox t (fp_reg s (insn_rs2 insn))) :: 'f word;
          rm = insn_funct3 insn
      in if rm = 0 then fp_done s insn (min_sf a b (fflags s))
         else if rm = 1 then fp_done s insn (max_sf a b (fflags s))
         else F_ILLEGAL s)"

definition exec_fp_cmp :: "'f::len itself \<Rightarrow> hart \<Rightarrow> u32 \<Rightarrow> flow" where
  "exec_fp_cmp t s insn =
     (let a = ucast (unbox t (fp_reg s (insn_rs1 insn))) :: 'f word;
          b = ucast (unbox t (fp_reg s (insn_rs2 insn))) :: 'f word;
          rm = insn_funct3 insn;
          put = (\<lambda>r. int_finish s insn (of_bool (fst r)) (snd r))
      in if rm = 0 then put (le_sf a b (fflags s))
         else if rm = 1 then put (lt_sf a b (fflags s))
         else if rm = 2 then put (eq_quiet_sf a b (fflags s))
         else F_ILLEGAL s)"

definition exec_fp_to_int :: "'f::len itself \<Rightarrow> hart \<Rightarrow> u32 \<Rightarrow> flow" where
  "exec_fp_to_int t s insn =
     (let a = ucast (unbox t (fp_reg s (insn_rs1 insn))) :: 'f word; rs2 = insn_rs2 insn in
      case get_insn_rm s (insn_funct3 insn) of
        None \<Rightarrow> F_ILLEGAL s
      | Some rm \<Rightarrow>
          if rs2 = 0 then
            (case cvt_sf_i a (rm_of rm) (fflags s) of (v :: u32, fl) \<Rightarrow> int_finish s insn (scast v) fl)
          else if rs2 = 1 then
            (case cvt_sf_u a (rm_of rm) (fflags s) of (v :: u32, fl) \<Rightarrow> int_finish s insn (scast v) fl)
          else if rs2 = 2 then
            (case cvt_sf_i a (rm_of rm) (fflags s) of (v :: u64, fl) \<Rightarrow> int_finish s insn v fl)
          else if rs2 = 3 then
            (case cvt_sf_u a (rm_of rm) (fflags s) of (v :: u64, fl) \<Rightarrow> int_finish s insn v fl)
          else F_ILLEGAL s)"

definition exec_fp_of_int :: "'f::len itself \<Rightarrow> hart \<Rightarrow> u32 \<Rightarrow> flow" where
  "exec_fp_of_int t s insn =
     (let x = reg s (insn_rs1 insn); rs2 = insn_rs2 insn;
          put = (\<lambda>r :: ('f word \<times> u32) option. fp_finish s insn r)
      in case get_insn_rm s (insn_funct3 insn) of
           None \<Rightarrow> F_ILLEGAL s
         | Some rm \<Rightarrow>
             if rs2 = 0 then put (cvt_i_sf (ucast x :: u32) (rm_of rm) (fflags s))
             else if rs2 = 1 then put (cvt_u_sf (ucast x :: u32) (rm_of rm) (fflags s))
             else if rs2 = 2 then put (cvt_i_sf x (rm_of rm) (fflags s))
             else if rs2 = 3 then put (cvt_u_sf x (rm_of rm) (fflags s))
             else F_ILLEGAL s)"

text \<open>Conversions between the formats: \<open>fcvt.s.d\<close> and \<open>fcvt.d.s\<close>.\<close>

definition exec_fp_cvt :: "'f::len itself \<Rightarrow> hart \<Rightarrow> u32 \<Rightarrow> flow" where
  "exec_fp_cvt t s insn =
     (let v = fp_reg s (insn_rs1 insn); rs2 = insn_rs2 insn in
      case get_insn_rm s (insn_funct3 insn) of
        None \<Rightarrow> F_ILLEGAL s
      | Some rm \<Rightarrow>
          if LENGTH('f) = 32 \<and> rs2 = 1
          then fp_finish s insn (cvt_sf_sf32 v (rm_of rm) (fflags s))
          else if LENGTH('f) = 64 \<and> rs2 = 0
          then fp_done s insn (cvt_sf32_sf (ucast (f_unbox32 v)) (fflags s) :: u64 \<times> u32)
          else F_ILLEGAL s)"

definition exec_fp_mv_x :: "'f::len itself \<Rightarrow> hart \<Rightarrow> u32 \<Rightarrow> flow" where
  "exec_fp_mv_x t s insn =
     (let v = fp_reg s (insn_rs1 insn); rm = insn_funct3 insn;
          put = (\<lambda>x. F_NEXT 4 (write_rd (insn_rd insn) x s))
      in if insn_rs2 insn \<noteq> 0 then F_ILLEGAL s
         else if rm = 0 then put (if LENGTH('f) = 32 then sext32 v else v)
         else if rm = 1 then put (ucast (fclass_sf (ucast (unbox t v) :: 'f word)))
         else F_ILLEGAL s)"

definition exec_fp_mv_w :: "'f::len itself \<Rightarrow> hart \<Rightarrow> u32 \<Rightarrow> flow" where
  "exec_fp_mv_w t s insn =
     (let x = reg s (insn_rs1 insn) in
      if insn_rs2 insn \<noteq> 0 \<or> insn_funct3 insn \<noteq> 0 then F_ILLEGAL s
      else F_NEXT 4 (write_fp_reg (insn_rd insn)
             ((if LENGTH('f) = 32 then sext32 x else x) OR F_HIGH t) s))"

definition exec_fp_template :: "'f::len itself \<Rightarrow> hart \<Rightarrow> u32 \<Rightarrow> u32 \<Rightarrow> flow" where
  "exec_fp_template t s insn op =
     (if op \<in> {0x00, 0x01, 0x02, 0x03, 0x0b} then exec_fp_arith t s insn op
      else if op = 0x04 then exec_fp_sgnj t s insn
      else if op = 0x05 then exec_fp_minmax t s insn
      else if op = 0x18 then exec_fp_to_int t s insn
      else if op = 0x14 then exec_fp_cmp t s insn
      else if op = 0x1a then exec_fp_of_int t s insn
      else if op = 0x08 then exec_fp_cvt t s insn
      else if op = 0x1c then exec_fp_mv_x t s insn
      else if op = 0x1e then exec_fp_mv_w t s insn
      else F_ILLEGAL s)"

definition exec_op_fp :: "hart \<Rightarrow> u32 \<Rightarrow> flow" where
  "exec_op_fp s insn =
     (let imm = drop_bit 25 insn in
      if fs s = 0 then F_ILLEGAL s
      else if imm AND 3 = 0 then exec_fp_template TYPE(32) s insn (drop_bit 2 imm)
      else if imm AND 3 = 1 then exec_fp_template TYPE(64) s insn (drop_bit 2 imm)
      else F_ILLEGAL s)"

end
