(* ===== verification/Exec_Sys.thy ===== *)
theory Exec_Sys
  imports Exec_Base
begin

text \<open>
  System instructions (CSR access, environment calls, trap returns, \<open>wfi\<close>,
  \<open>sfence.vma\<close>), fences, and the atomic memory operations of \<^verbatim>\<open>dromajo_template.h\<close>.
\<close>

section \<open>Counters\<close>

text \<open>
  The locals of the interpreter that the CSR instructions use. \<open>GET_INSN_COUNTER()\<close> is
  \<open>insn_counter_addend - n_cycles\<close>.
\<close>

record counters =
  insn_counter_addend :: u64
  n_cycles :: int
  insn_counter_start :: u64

definition GET_INSN_COUNTER :: "counters \<Rightarrow> u64" where
  "GET_INSN_COUNTER k = insn_counter_addend k - word_of_int (n_cycles k)"

text \<open>
  Store the instruction counter and add the instructions since the entry of the interpreter to
  \<open>mcycle\<close> and \<open>minstret\<close>; \<^const>\<open>None\<close> is the failed assertion \<open>delta >= 0\<close>.
\<close>

definition sync_counters :: "counters \<Rightarrow> 'a RISCVCPUState_scheme \<Rightarrow> 'a RISCVCPUState_scheme option" where
  "sync_counters k s =
     (let s = s\<lparr>insn_counter := GET_INSN_COUNTER k\<rparr>;
          delta = ucast (insn_counter s - insn_counter_start k) :: u32
      in if stop_the_counter s then Some s
         else if delta <s 0 then None
         else Some (s\<lparr>mcycle := mcycle s + scast delta, minstret := minstret s + scast delta\<rparr>))"

section \<open>CSR instructions\<close>

text \<open>
  The part after a successful \<open>csr_read\<close> and the optional \<open>csr_write\<close> with return code
  \<open>err\<close>; the read value goes to \<open>rd\<close>.
\<close>

definition csr_finish :: "hart \<Rightarrow> u32 \<Rightarrow> u64 \<Rightarrow> int \<Rightarrow> flow" where
  "csr_finish s insn val2 err =
     (if err = - 2 then F_MMU_EXCEPTION s
      else if err < 0 then F_ILLEGAL s
      else let s' = write_rd (insn_rd insn) val2 s in
           if err > 0
           then (if err = 2 then F_JUMP ctf_nop (s'\<lparr>pc := pc s' + 4\<rparr>)
                 else F_DONE (s'\<lparr>pc := pc s' + 4\<rparr>))
           else F_NEXT 4 s')"

text \<open>
  \<open>csrrw\<close> recomputes \<open>insn_counter_addend\<close> from the state the write left; the result pairs
  the flow with the counters.
\<close>

definition exec_csrrw :: "counters \<Rightarrow> hart \<Rightarrow> u32 \<Rightarrow> u64 \<Rightarrow> flow \<times> counters" where
  "exec_csrrw k s insn val =
     (let csr = drop_bit 20 insn in
      case sync_counters k s of
        None \<Rightarrow> (F_CRASH, k)
      | Some s \<Rightarrow>
         (case csr_read s csr True of
            None \<Rightarrow> (F_ILLEGAL s, k)
          | Some val2 \<Rightarrow>
              let (err, s') = csr_write s csr val;
                  k' = (if err < 0 then k
                        else k\<lparr>insn_counter_addend := insn_counter s' + word_of_int (n_cycles k)\<rparr>)
              in (csr_finish s' insn val2 err, k')))"

definition exec_csrrs :: "counters \<Rightarrow> hart \<Rightarrow> u32 \<Rightarrow> u64 \<Rightarrow> bool \<Rightarrow> flow \<times> counters" where
  "exec_csrrs k s insn val set_bits =
     (let csr = drop_bit 20 insn; rs1 = insn_rs1 insn in
      case sync_counters k s of
        None \<Rightarrow> (F_CRASH, k)
      | Some s \<Rightarrow>
         (case csr_read s csr (rs1 \<noteq> 0) of
            None \<Rightarrow> (F_ILLEGAL s, k)
          | Some val2 \<Rightarrow>
              if rs1 \<noteq> 0
              then let (err, s') = csr_write s csr (if set_bits then val2 OR val else val2 AND NOT val)
                   in (csr_finish s' insn val2 err, k)
              else (csr_finish s insn val2 0, k)))"

section \<open>Environment calls and returns\<close>

definition exec_ecall :: "hart \<Rightarrow> u32 \<Rightarrow> flow" where
  "exec_ecall s insn =
     (if insn AND 0x000fff80 \<noteq> 0 then F_ILLEGAL s
      else let s1 = s\<lparr>pending_exception := CAUSE_USER_ECALL + int (unat (priv s)), pending_tval := 0\<rparr>;
               s2 = (if \<not> ignore_sbi_shutdown s1 \<and> priv s1 = PRV_M \<and> reg s1 0x17 = SBI_SHUTDOWN
                     then s1\<lparr>terminate_simulation := True\<rparr> else s1)
           in F_EXCEPTION s2)"

definition exec_ebreak :: "hart \<Rightarrow> u32 \<Rightarrow> flow" where
  "exec_ebreak s insn =
     (if insn AND 0x000fff80 \<noteq> 0 then F_ILLEGAL s else raise_pending CAUSE_BREAKPOINT s)"

definition exec_sret :: "hart \<Rightarrow> u32 \<Rightarrow> flow" where
  "exec_sret s insn =
     (if insn AND 0x000fff80 \<noteq> 0 then F_ILLEGAL s
      else if priv s < PRV_S then F_ILLEGAL s
      else if priv s = PRV_S \<and> mstatus s AND MSTATUS_TSR \<noteq> 0 then F_ILLEGAL s
      else F_DONE (handle_sret s))"

definition exec_mret :: "hart \<Rightarrow> u32 \<Rightarrow> flow" where
  "exec_mret s insn =
     (if insn AND 0x000fff80 \<noteq> 0 then F_ILLEGAL s
      else if priv s < PRV_M then F_ILLEGAL s
      else F_DONE (handle_mret s))"

definition exec_dret :: "hart \<Rightarrow> u32 \<Rightarrow> flow" where
  "exec_dret s insn =
     (if \<not> debug_mode s then F_ILLEGAL s
      else if insn AND 0x000fff80 \<noteq> 0 then F_ILLEGAL s
      else if priv s < PRV_M then F_ILLEGAL s
      else F_DONE (handle_dret s))"

text \<open>The condition parses as \<open>(no interrupt && none injected) || !cosim\<close>.\<close>

definition exec_wfi :: "hart \<Rightarrow> u32 \<Rightarrow> flow" where
  "exec_wfi s insn =
     (if insn AND 0x00007f80 \<noteq> 0 then F_ILLEGAL s
      else if priv s = PRV_U then F_ILLEGAL s
      else if priv s = PRV_S \<and> mstatus s AND MSTATUS_TW \<noteq> 0 then F_ILLEGAL s
      else if mip s AND mie s = 0 \<and> pending_interrupt (machine s) = - 1 \<or> \<not> cosim (machine s)
      then F_DONE (s\<lparr>power_down_flag := True, pc := pc s + 4\<rparr>)
      else F_NEXT 4 s)"

definition exec_sfence_vma :: "hart \<Rightarrow> u32 \<Rightarrow> flow" where
  "exec_sfence_vma s insn =
     (let rs1 = insn_rs1 insn in
      if insn AND 0x00007f80 \<noteq> 0 then F_ILLEGAL s
      else if priv s = PRV_U then F_ILLEGAL s
      else if priv s = PRV_S \<and> mstatus s AND MSTATUS_TVM \<noteq> 0 then F_ILLEGAL s
      else let s' = (if rs1 = 0 then tlb_flush_all s else tlb_flush_vaddr s (reg s rs1))
           in F_JUMP ctf_nop (s'\<lparr>pc := pc s' + 4\<rparr>))"

definition exec_system :: "counters \<Rightarrow> hart \<Rightarrow> u32 \<Rightarrow> flow \<times> counters" where
  "exec_system k s insn =
     (let funct3 = insn_funct3 insn;
          imm = drop_bit 20 insn;
          val = (if funct3 AND 4 \<noteq> 0 then of_nat (insn_rs1 insn) else reg s (insn_rs1 insn));
          op = funct3 AND 3
      in if op = 1 then exec_csrrw k s insn val
         else if op = 2 then exec_csrrs k s insn val True
         else if op = 3 then exec_csrrs k s insn val False
         else if imm = 0x000 then (exec_ecall s insn, k)
         else if imm = 0x001 then (exec_ebreak s insn, k)
         else if imm = 0x102 then (exec_sret s insn, k)
         else if imm = 0x302 then (exec_mret s insn, k)
         else if imm = 0x7b2 then (exec_dret s insn, k)
         else if imm = 0x105 then (exec_wfi s insn, k)
         else if drop_bit 5 imm = 0x09 then (exec_sfence_vma s insn, k)
         else (F_ILLEGAL s, k))"

definition exec_misc_mem :: "hart \<Rightarrow> u32 \<Rightarrow> flow" where
  "exec_misc_mem s insn =
     (let funct3 = insn_funct3 insn in
      if funct3 = 0 then (if insn AND 0xf00fff80 \<noteq> 0 then F_ILLEGAL s else F_NEXT 4 s)
      else if funct3 = 1 then (if insn \<noteq> 0x0000100f then F_ILLEGAL s else F_NEXT 4 s)
      else F_ILLEGAL s)"

section \<open>Atomic memory operations\<close>

text \<open>
  The macro \<open>OP_A(size)\<close> for 32 and 64 bits (\<open>size_log2\<close> 2 and 3): casts to
  \<open>intN_t\<close> are \<open>amo_sx\<close>, casts to \<open>uintN_t\<close> are \<open>amo_zx\<close>.
\<close>

definition amo_sx :: "nat \<Rightarrow> u64 \<Rightarrow> u64" where
  "amo_sx size_log2 v = (if size_log2 = 2 then scast (ucast v :: u32) else v)"

definition amo_zx :: "nat \<Rightarrow> u64 \<Rightarrow> u64" where
  "amo_zx size_log2 v = (if size_log2 = 2 then ucast (ucast v :: u32) else v)"

text \<open>The value stored by an operation; \<^const>\<open>None\<close> for a function code that is none of them.\<close>

definition amo_op :: "nat \<Rightarrow> u32 \<Rightarrow> u64 \<Rightarrow> u64 \<Rightarrow> u64 option" where
  "amo_op sz funct5 val val2 =
     (if funct5 = 1 then Some val2
      else if funct5 = 0 then Some (amo_sx sz (val + val2))
      else if funct5 = 4 then Some (amo_sx sz (val XOR val2))
      else if funct5 = 0xc then Some (amo_sx sz (val AND val2))
      else if funct5 = 0x8 then Some (amo_sx sz (val OR val2))
      else if funct5 = 0x10 then
        Some (if amo_sx sz val <s amo_sx sz val2 then amo_sx sz val else val2)
      else if funct5 = 0x14 then
        Some (if amo_sx sz val2 <s amo_sx sz val then amo_sx sz val else val2)
      else if funct5 = 0x18 then
        Some (if amo_zx sz val < amo_zx sz val2 then amo_sx sz val else val2)
      else if funct5 = 0x1c then
        Some (if amo_zx sz val2 < amo_zx sz val then amo_sx sz val else val2)
      else None)"

definition exec_lr :: "nat \<Rightarrow> hart \<Rightarrow> u32 \<Rightarrow> flow" where
  "exec_lr sz s insn =
     (let addr = reg s (insn_rs1 insn) in
      if insn_rs2 insn \<noteq> 0 then F_ILLEGAL s
      else load_then sz s addr (\<lambda>v s.
             F_NEXT 4 (write_rd (insn_rd insn) (amo_sx sz v) (s\<lparr>load_res := addr\<rparr>))))"

definition exec_sc :: "nat \<Rightarrow> hart \<Rightarrow> u32 \<Rightarrow> flow" where
  "exec_sc sz s insn =
     (let addr = reg s (insn_rs1 insn) in
      if misaligned sz addr then F_MMU_EXCEPTION (pend s CAUSE_MISALIGNED_STORE addr)
      else if load_res s = addr
      then store_then sz s addr (reg s (insn_rs2 insn)) (\<lambda>s.
             F_NEXT 4 (write_rd (insn_rd insn) 0 (s\<lparr>load_res := NOT 0\<rparr>)))
      else F_NEXT 4 (write_rd (insn_rd insn) 1 s))"

definition exec_amo_rmw :: "nat \<Rightarrow> hart \<Rightarrow> u32 \<Rightarrow> flow" where
  "exec_amo_rmw sz s insn =
     (let addr = reg s (insn_rs1 insn); funct5 = drop_bit 27 insn in
      case target_read sz s addr of
        Abort \<Rightarrow> F_CRASH
      | Exc s' \<Rightarrow> F_MMU_EXCEPTION (s'\<lparr>pending_exception := pending_exception s' + 2\<rparr>)
      | Val rval s' \<Rightarrow>
          (case amo_op sz funct5 (amo_sx sz rval) (reg s' (insn_rs2 insn)) of
             None \<Rightarrow> F_ILLEGAL s'
           | Some v \<Rightarrow> store_then sz s' addr v (\<lambda>s.
               F_NEXT 4 (write_rd (insn_rd insn) (amo_sx sz rval) s))))"

definition exec_op_a :: "nat \<Rightarrow> hart \<Rightarrow> u32 \<Rightarrow> flow" where
  "exec_op_a sz s insn =
     (let funct5 = drop_bit 27 insn in
      if funct5 = 2 then exec_lr sz s insn
      else if funct5 = 3 then exec_sc sz s insn
      else if funct5 \<in> {1, 0, 4, 0xc, 0x8, 0x10, 0x14, 0x18, 0x1c} then exec_amo_rmw sz s insn
      else F_ILLEGAL s)"

definition exec_amo :: "hart \<Rightarrow> u32 \<Rightarrow> flow" where
  "exec_amo s insn =
     (let funct3 = insn_funct3 insn in
      if funct3 = 2 then exec_op_a 2 s insn
      else if funct3 = 3 then exec_op_a 3 s insn
      else F_ILLEGAL s)"

end
