(* ===== verification/Interp.thy ===== *)
theory Interp
  imports Exec_C Exec_Fp Exec_Sys
begin

text \<open>
  The interpreter \<open>riscv_cpu_interp64\<close> of \<^verbatim>\<open>dromajo_template.h\<close>: prologue, main loop (trigger
  check, interrupt check, fetch, decode and dispatch) and the exit labels.

  The loop ends because \<open>n_cycles\<close> decreases; a negative \<open>n_cycles\<close> would run into signed
  overflow and is \<open>I_Crash\<close>.
\<close>

section \<open>Decode and dispatch\<close>

definition exec_insn :: "counters \<Rightarrow> hart \<Rightarrow> u32 \<Rightarrow> flow \<times> counters" where
  "exec_insn k s insn =
     (let opcode = insn AND 0x7f in
      if opcode AND 3 = 0 then (exec_c0 s insn, k)
      else if opcode AND 3 = 1 then (exec_c1 s insn, k)
      else if opcode AND 3 = 2 then (exec_c2 s insn, k)
      else if opcode = 0x37 then (exec_lui s insn, k)
      else if opcode = 0x17 then (exec_auipc s insn, k)
      else if opcode = 0x6f then (exec_jal s insn, k)
      else if opcode = 0x67 then (exec_jalr s insn, k)
      else if opcode = 0x63 then (exec_branch s insn, k)
      else if opcode = 0x03 then (exec_load s insn, k)
      else if opcode = 0x23 then (exec_store s insn, k)
      else if opcode = 0x13 then (exec_op_imm s insn, k)
      else if opcode = 0x1b then (exec_op_imm_32 s insn, k)
      else if opcode = 0x33 then (exec_op s insn, k)
      else if opcode = 0x3b then (exec_op_32 s insn, k)
      else if opcode = 0x73 then exec_system k s insn
      else if opcode = 0x0f then (exec_misc_mem s insn, k)
      else if opcode = 0x2f then (exec_amo s insn, k)
      else if opcode = 0x07 then (exec_fp_load s insn, k)
      else if opcode = 0x27 then (exec_fp_store s insn, k)
      else if opcode = 0x43 then (exec_fmadd s insn, k)
      else if opcode = 0x47 then (exec_fmsub s insn, k)
      else if opcode = 0x4b then (exec_fnmsub s insn, k)
      else if opcode = 0x4f then (exec_fnmadd s insn, k)
      else if opcode = 0x53 then (exec_op_fp s insn, k)
      else (F_ILLEGAL s, k))"

section \<open>Locals\<close>

record locals =
  cnt :: counters
  code_ptr :: u64
  code_end :: u64
  code_to_pc_addend :: u64
  insn_executed :: int

definition GET_PC :: "locals \<Rightarrow> u64" where
  "GET_PC l = code_ptr l + code_to_pc_addend l"

definition dec_addend :: "locals \<Rightarrow> locals" where
  "dec_addend l = l\<lparr>cnt := (cnt l)\<lparr>insn_counter_addend := insn_counter_addend (cnt l) - 1\<rparr>\<rparr>"

definition dec_cycles :: "locals \<Rightarrow> locals" where
  "dec_cycles l = l\<lparr>cnt := (cnt l)\<lparr>n_cycles := n_cycles (cnt l) - 1\<rparr>\<rparr>"

section \<open>Exits\<close>

datatype outcome = I_Ret int hart | I_Crash

definition the_end :: "locals \<Rightarrow> hart \<Rightarrow> outcome" where
  "the_end l s =
     (case sync_counters (cnt l) s of None \<Rightarrow> I_Crash | Some s' \<Rightarrow> I_Ret (insn_executed l) s')"

definition done_interp :: "locals \<Rightarrow> hart \<Rightarrow> outcome" where
  "done_interp l s = the_end (dec_cycles l) s"

text \<open>Exceptions other than \<open>ecall\<close> and breakpoints cancel the instruction.\<close>

definition cancels :: "int \<Rightarrow> bool" where
  "cancels cause =
     ((cause < CAUSE_USER_ECALL \<or> CAUSE_USER_ECALL + 3 < cause) \<and> cause \<noteq> CAUSE_BREAKPOINT)"

definition exception :: "locals \<Rightarrow> hart \<Rightarrow> outcome" where
  "exception l s0 =
     (let s = s0\<lparr>pc := GET_PC l\<rparr> in
      if 0 \<le> pending_exception s
      then let l = (if cancels (pending_exception s)
                    then (dec_addend l)\<lparr>insn_executed := insn_executed l - 1\<rparr> else l)
           in done_interp l (raise_exception2 s (word_of_int (pending_exception s)) (pending_tval s))
      else done_interp l s)"

definition illegal_insn :: "locals \<Rightarrow> hart \<Rightarrow> outcome" where
  "illegal_insn l s =
     exception l (s\<lparr>pending_exception := CAUSE_ILLEGAL_INSTRUCTION, pending_tval := 0\<rparr>)"

section \<open>Triggers, interrupts, fetch\<close>

text \<open>The comparison with \<open>t_match\<close> is \<open>!=\<close> in the source.\<close>

definition trigger_hit :: "'a RISCVCPUState_scheme \<Rightarrow> bool" where
  "trigger_hit s =
     (let t_mctl = MCONTROL_EXECUTE OR push_bit (unat (priv s)) MCONTROL_U;
          t_mask = push_bit 60 0xF OR t_mctl;
          t_match = push_bit 60 0x2 OR t_mctl
      in \<exists>i \<in> set [0..<MAX_TRIGGERS]. tdata1 s i AND t_mask \<noteq> t_match \<and> tdata2 s i = pc s)"

definition interrupts_visible :: "hart \<Rightarrow> bool" where
  "interrupts_visible s =
     (mip s AND mie s \<noteq> 0 \<and> (pending_interrupt (machine s) \<noteq> - 1 \<or> \<not> cosim (machine s)))"

datatype fetched = Insn u32 locals hart | Interrupted hart | FetchExc locals hart | FetchCrash

definition fetch_tlb_hit :: "locals \<Rightarrow> hart \<Rightarrow> u64 \<Rightarrow> fetched" where
  "fetch_tlb_hit l s addend =
     (let addr = pc s;
          ptr = addend + addr;
          l' = l\<lparr>code_ptr := ptr,
                 code_end := addend + ((addr AND NOT PG_MASK) + PG_MASK - 1),
                 code_to_pc_addend := addr - ptr\<rparr>;
          h = host_mem (machine s)
      in if code_end l' \<le> ptr
         then let insn = ucast (load_le 2 h ptr) :: u32 in
              if insn AND 3 = 3
              then (case target_read_insn_u16 s (addr + 2) of
                      Val insn_high s' \<Rightarrow> Insn (insn OR push_bit 16 (ucast insn_high)) l' s'
                    | Exc s' \<Rightarrow> FetchExc l' s'
                    | Abort \<Rightarrow> FetchCrash)
              else Insn insn l' s
         else Insn (get_insn32 h ptr) l' s)"

definition fetch :: "locals \<Rightarrow> hart \<Rightarrow> fetched" where
  "fetch l s =
     (if code_end l \<le> code_ptr l
      then (let (taken, s1) = (if interrupts_visible s then raise_interrupt s else (False, s)) in
            if taken then Interrupted s1
            else let e = tlb_code s1 (tlb_index (pc s1)) in
                 if vaddr e = pc s1 AND NOT PG_MASK then fetch_tlb_hit l s1 (mem_addend e)
                 else (case target_read_insn_slow s1 32 (pc s1) of
                         Val insn s' \<Rightarrow> Insn insn l s'
                       | Exc s' \<Rightarrow> FetchExc l s'
                       | Abort \<Rightarrow> FetchCrash))
      else Insn (get_insn32 (host_mem (machine s)) (code_ptr l)) l s)"

section \<open>Main loop\<close>

text \<open>\<open>JUMP_INSN(kind)\<close>\<close>

definition jump_locals :: "locals \<Rightarrow> hart \<Rightarrow> locals" where
  "jump_locals l s = l\<lparr>code_ptr := 0, code_end := 0, code_to_pc_addend := pc s\<rparr>"

definition jump_state :: "RISCVCTFInfo \<Rightarrow> hart \<Rightarrow> hart" where
  "jump_state kind s = s\<lparr>info := kind, next_addr := pc s\<rparr>"

text \<open>One iteration after the cycle check: go on with new locals and state, or leave.\<close>

datatype iter_result = Continue locals hart | Leave outcome

definition after_exec :: "locals \<Rightarrow> flow \<times> counters \<Rightarrow> iter_result" where
  "after_exec l r =
     (case r of (f, k) \<Rightarrow>
       let l = l\<lparr>cnt := (cnt l)\<lparr>insn_counter_addend := insn_counter_addend k\<rparr>\<rparr> in
       case f of
         F_NEXT n s \<Rightarrow> Continue (l\<lparr>code_ptr := code_ptr l + of_nat n\<rparr>) s
       | F_JUMP kind s \<Rightarrow> Continue (jump_locals l s) (jump_state kind s)
       | F_ILLEGAL s \<Rightarrow> Leave (illegal_insn l s)
       | F_MMU_EXCEPTION s \<Rightarrow> Leave (exception l s)
       | F_EXCEPTION s \<Rightarrow> Leave (exception l s)
       | F_DONE s \<Rightarrow> Leave (done_interp l s)
       | F_CRASH \<Rightarrow> Leave I_Crash)"

definition iteration :: "locals \<Rightarrow> hart \<Rightarrow> iter_result" where
  "iteration l0 s =
     (let l = l0\<lparr>insn_executed := insn_executed l0 + 1\<rparr> in
      if trigger_hit s
      then let s1 = s\<lparr>pending_exception := CAUSE_BREAKPOINT, pending_tval := 0\<rparr>
           in Leave (done_interp (dec_addend l)
                (raise_exception2 s1 (word_of_int CAUSE_BREAKPOINT) 0))
      else case fetch l s of
        Interrupted s1 \<Rightarrow> Leave (the_end l s1)
      | FetchExc l1 s1 \<Rightarrow> Leave (exception l1 s1)
      | FetchCrash \<Rightarrow> Leave I_Crash
      | Insn insn l1 s1 \<Rightarrow> after_exec l1 (exec_insn (cnt l1) s1 insn))"

lemma fetch_tlb_hit_cnt: "fetch_tlb_hit l s e = Insn i l' s' \<Longrightarrow> cnt l' = cnt l"
  by (auto simp: fetch_tlb_hit_def Let_def split: if_splits mres.splits)

lemma fetch_cnt: "fetch l s = Insn i l' s' \<Longrightarrow> cnt l' = cnt l"
  by (auto simp: fetch_def Let_def split: if_splits mres.splits prod.splits dest: fetch_tlb_hit_cnt)

lemma after_exec_cycles: "after_exec l r = Continue l' s' \<Longrightarrow> n_cycles (cnt l') = n_cycles (cnt l)"
  by (auto simp: after_exec_def Let_def jump_locals_def split: prod.splits flow.splits)

lemma iteration_cycles: "iteration l s = Continue l' s' \<Longrightarrow> n_cycles (cnt l') = n_cycles (cnt l)"
  by (auto simp: iteration_def Let_def split: if_splits fetched.splits
      dest!: after_exec_cycles fetch_cnt)

function interp_loop :: "locals \<Rightarrow> hart \<Rightarrow> outcome" where
  "interp_loop l0 s0 =
     (let s = s0\<lparr>pc := GET_PC l0\<rparr>;
          l = dec_cycles l0
      in if n_cycles (cnt l) = 0 then the_end l s
         else if n_cycles (cnt l) < 0 then I_Crash
         else case iteration l s of
           Leave r \<Rightarrow> r
         | Continue l' s' \<Rightarrow> interp_loop l' s')"
  by pat_completeness auto

termination
proof (relation "measure (\<lambda>(l, s). nat (n_cycles (cnt l)))")
  fix l0 :: locals and s0 s :: hart and l l' :: locals and s' :: hart
  assume l: "l = dec_cycles l0" and n: "n_cycles (cnt l) \<noteq> 0" "\<not> n_cycles (cnt l) < 0"
    and it: "iteration l s = Continue l' s'"
  have "n_cycles (cnt l) = n_cycles (cnt l0) - 1" by (simp add: l dec_cycles_def)
  with n iteration_cycles [OF it]
  show "((l', s'), l0, s0) \<in> measure (\<lambda>(l, s). nat (n_cycles (cnt l)))" by simp
qed simp

declare interp_loop.simps [simp del]

definition riscv_cpu_interp64 :: "hart \<Rightarrow> int \<Rightarrow> outcome" where
  "riscv_cpu_interp64 s0 n =
     (let s = s0\<lparr>most_recently_written_reg := - 1, most_recently_written_fp_reg := - 1, info := ctf_nop\<rparr>;
          k = \<lparr>insn_counter_addend = insn_counter s + word_of_int n, n_cycles = n,
               insn_counter_start = insn_counter s\<rparr>;
          (taken, s1) = (if interrupts_visible s then raise_interrupt s else (False, s));
          l = \<lparr>cnt = k, code_ptr = 0, code_end = 0, code_to_pc_addend = pc s1, insn_executed = 0\<rparr>
      in if n = 0 then I_Ret 0 s
         else if taken then done_interp (dec_addend l) s1
         else interp_loop (l\<lparr>cnt := k\<lparr>n_cycles := n + 1\<rparr>\<rparr>) (s1\<lparr>pending_exception := - 1\<rparr>))"

definition riscv_cpu_interp :: "hart \<Rightarrow> int \<Rightarrow> outcome" where
  "riscv_cpu_interp s n = riscv_cpu_interp64 s n"

end
