(* ===== verification/Snapshot.thy ===== *)
theory Snapshot
  imports Interp
begin

text \<open>
  Creation of a hart, the accessors of the interface (\<^verbatim>\<open>riscv_cpu.cpp\<close>), and snapshots: the
  instruction encoders, the recovery sequences and the boot ROM that restores the state of a
  hart, writing memory to a file, and the choice of the boot ROM.
\<close>

section \<open>Initial state and accessors\<close>

text \<open>\<open>mallocz\<close> gives the zero state; the enumeration \<open>info\<close> is set before it is read.\<close>

definition riscv_cpu_init :: "RISCVMachine \<Rightarrow> nat \<Rightarrow> RISCVCPUState" where
  "riscv_cpu_init m hartid =
     tlb_init (zero_cpu
       \<lparr>pc := reset_vector m, priv := PRV_M,
        mstatus := push_bit MSTATUS_UXL_SHIFT 2 OR push_bit MSTATUS_SXL_SHIFT 2
                   OR push_bit MSTATUS_MPP_SHIFT 3,
        plic_enable_irq := 0,
        misa := MCPUID_SUPER OR MCPUID_USER OR MCPUID_I OR MCPUID_M OR MCPUID_A OR MCPUID_F
                OR MCPUID_D OR MCPUID_C OR (if custom_extension m then MCPUID_X else 0),
        most_recently_written_reg := - 1, most_recently_written_fp_reg := - 1,
        mvendorid := 11 * 128 + 101, marchid := push_bit 63 1 OR 2, mimpid := 1,
        mhartid := of_nat hartid, tselect := 0,
        tdata1 := (\<lambda>i. if i < MAX_TRIGGERS then push_bit 60 2 else 0),
        tdata2 := (\<lambda>i. if i < MAX_TRIGGERS then NOT 0 else 0),
        benchmark_exit_code := 0\<rparr>)"

definition riscv_set_pc :: "'a RISCVCPUState_scheme \<Rightarrow> u64 \<Rightarrow> 'a RISCVCPUState_scheme" where
  "riscv_set_pc s val = s\<lparr>pc := val AND pc_align_mask s\<rparr>"

text \<open>Register accessors assert the register number.\<close>

definition riscv_get_reg :: "'a RISCVCPUState_scheme \<Rightarrow> int \<Rightarrow> u64 option" where
  "riscv_get_reg s rn = (if 0 \<le> rn \<and> rn < 32 then Some (reg s (nat rn)) else None)"

definition riscv_get_reg_previous :: "'a RISCVCPUState_scheme \<Rightarrow> int \<Rightarrow> u64 option" where
  "riscv_get_reg_previous s rn = (if 0 \<le> rn \<and> rn < 32 then Some (reg_prior s (nat rn)) else None)"

definition riscv_get_fpreg :: "'a RISCVCPUState_scheme \<Rightarrow> int \<Rightarrow> u64 option" where
  "riscv_get_fpreg s rn = (if 0 \<le> rn \<and> rn < 32 then Some (fp_reg s (nat rn)) else None)"

definition riscv_set_reg ::
    "'a RISCVCPUState_scheme \<Rightarrow> int \<Rightarrow> u64 \<Rightarrow> 'a RISCVCPUState_scheme option" where
  "riscv_set_reg s rn val =
     (if 0 < rn \<and> rn < 32 then Some (s\<lparr>reg := (reg s)(nat rn := val)\<rparr>) else None)"

definition riscv_repair_csr ::
    "'a RISCVCPUState_scheme \<Rightarrow> nat \<Rightarrow> u64 \<Rightarrow> u64 \<Rightarrow> 'a RISCVCPUState_scheme" where
  "riscv_repair_csr s reg_num csr_num csr_val =
     (let c = csr_num AND 0xFFF in
      if c = 0xb00 \<or> c = 0xc00 then s\<lparr>mcycle := csr_val, reg := (reg s)(reg_num := csr_val)\<rparr>
      else if c = 0xb02 \<or> c = 0xc02 then s\<lparr>minstret := csr_val, reg := (reg s)(reg_num := csr_val)\<rparr>
      else s)"

definition riscv_cpu_sync_regs :: "'a RISCVCPUState_scheme \<Rightarrow> 'a RISCVCPUState_scheme" where
  "riscv_cpu_sync_regs s =
     s\<lparr>reg_prior := (\<lambda>i. if 1 \<le> i \<and> i < 32 then reg s i else reg_prior s i)\<rparr>"

definition riscv_cpu_get_mstatus :: "'a RISCVCPUState_scheme \<Rightarrow> u64" where
  "riscv_cpu_get_mstatus s = get_mstatus s MSTATUS_MASK"

text \<open>\<open>riscv_read_insn\<close> saves and restores the pending exception around the fetch.\<close>

definition riscv_read_insn :: "hart \<Rightarrow> u64 \<Rightarrow> u32 mres" where
  "riscv_read_insn s addr =
     (let back = (\<lambda>s'. s'\<lparr>pending_exception := pending_exception s, pending_tval := pending_tval s\<rparr>) in
      case target_read_insn_slow s 32 addr of
        Val insn s' \<Rightarrow> Val insn (back s')
      | Exc s' \<Rightarrow> Exc (back s')
      | Abort \<Rightarrow> Abort)"

definition riscv_set_debug_mode :: "'a RISCVCPUState_scheme \<Rightarrow> bool \<Rightarrow> 'a RISCVCPUState_scheme" where
  "riscv_set_debug_mode s on = s\<lparr>debug_mode := on\<rparr>"

section \<open>Writing memory to a file\<close>

text \<open>
  The loop of \<open>serialize_memory\<close>. The results of the successive \<open>write\<close> calls are an
  argument; a call that returns \<open>w\<close> has appended the first \<open>w\<close> bytes of its buffer, which is
  \<open>base\<close> in every call. \<^const>\<open>None\<close> is the exit after a failed call.
\<close>

fun serialize_memory :: "u8 list \<Rightarrow> nat \<Rightarrow> int list \<Rightarrow> u8 list option" where
  "serialize_memory base sz ws =
     (if sz = 0 then Some []
      else case ws of
        [] \<Rightarrow> None
      | w # ws' \<Rightarrow> if w \<le> 0 then None
          else map_option (\<lambda>out. take (nat w) base @ out) (serialize_memory base (sz - nat w) ws'))"

declare serialize_memory.simps [simp del]

definition deserialize_memory :: "u8 list \<Rightarrow> nat \<Rightarrow> u8 list option" where
  "deserialize_memory file sz = (let data = take sz file in if length data \<noteq> sz then None else Some data)"

section \<open>Instruction encoders\<close>

definition create_csrrw :: "u32 \<Rightarrow> u32 \<Rightarrow> u32" where
  "create_csrrw rs csrn = 0x1073 OR push_bit 20 (csrn AND 0xFFF) OR push_bit 15 (rs AND 0x1F)"

definition create_csrrs :: "u32 \<Rightarrow> u32 \<Rightarrow> u32" where
  "create_csrrs rd csrn = 0x2073 OR push_bit 20 (csrn AND 0xFFF) OR push_bit 7 (rd AND 0x1F)"

definition create_auipc :: "u32 \<Rightarrow> u32 \<Rightarrow> u32" where
  "create_auipc rd addr0 =
     (let addr = (if addr0 AND 0x800 \<noteq> 0 then addr0 + 0x800 else addr0)
      in 0x17 OR push_bit 7 (rd AND 0x1F) OR push_bit 12 (drop_bit 12 addr))"

definition create_addi :: "u32 \<Rightarrow> u32 \<Rightarrow> u32" where
  "create_addi rd addr =
     (let pos = addr AND 0xFFF
      in 0x13 OR push_bit 7 (rd AND 0x1F) OR push_bit 15 (rd AND 0x1F) OR push_bit 20 (pos AND 0xFFF))"

definition create_seti :: "u32 \<Rightarrow> u32 \<Rightarrow> u32" where
  "create_seti rd data = 0x13 OR push_bit 7 (rd AND 0x1F) OR push_bit 20 (data AND 0xFFF)"

definition create_ld :: "u32 \<Rightarrow> u32 \<Rightarrow> u32" where
  "create_ld rd rs1 = 3 OR push_bit 7 (rd AND 0x1F) OR push_bit 12 3 OR push_bit 15 (rs1 AND 0x1F)"

definition create_sd :: "u32 \<Rightarrow> u32 \<Rightarrow> u32" where
  "create_sd rs1 rs2 = 0x23 OR push_bit 20 (rs2 AND 0x1F) OR push_bit 12 3 OR push_bit 15 (rs1 AND 0x1F)"

definition create_fld :: "u32 \<Rightarrow> u32 \<Rightarrow> u32" where
  "create_fld rd rs1 = 7 OR push_bit 7 (rd AND 0x1F) OR push_bit 12 3 OR push_bit 15 (rs1 AND 0x1F)"

section \<open>Recovery sequences\<close>

text \<open>The ROM image under construction and the two cursors.\<close>

record romst =
  rom :: "nat \<Rightarrow> u32"
  code_pos :: nat
  data_pos :: nat

definition emit :: "u32 \<Rightarrow> romst \<Rightarrow> romst" where
  "emit w r = r\<lparr>rom := (rom r)(code_pos r := w), code_pos := code_pos r + 1\<rparr>"

definition emit_data :: "u32 \<Rightarrow> romst \<Rightarrow> romst" where
  "emit_data w r = r\<lparr>rom := (rom r)(data_pos r := w), data_pos := data_pos r + 1\<rparr>"

definition emit64 :: "u64 \<Rightarrow> romst \<Rightarrow> romst" where
  "emit64 v r = emit_data (ucast (drop_bit 32 v)) (emit_data (ucast (v AND 0xFFFFFFFF)) r)"

definition data_off :: "romst \<Rightarrow> u32" where
  "data_off r = 4 * (of_nat (data_pos r) - of_nat (code_pos r))"

text \<open>\<open>auipc\<close>, \<open>addi\<close> and a load that reach the next data word.\<close>

definition emit_load :: "u32 \<Rightarrow> u32 \<Rightarrow> romst \<Rightarrow> romst" where
  "emit_load rn ld r =
     (let off = data_off r in emit ld (emit (create_addi rn off) (emit (create_auipc rn off) r)))"

definition skip_csr_recovery :: "hart \<Rightarrow> u32 \<Rightarrow> bool" where
  "skip_csr_recovery s csrn = (ucast csrn \<in> set (missing_csrs (machine s)))"

definition create_csr12_recovery :: "hart \<Rightarrow> u32 \<Rightarrow> u16 \<Rightarrow> romst \<Rightarrow> romst" where
  "create_csr12_recovery s csrn val r =
     (if skip_csr_recovery s csrn then r
      else emit (create_csrrw 1 csrn) (emit (create_seti 1 (ucast (val AND 0xFFF))) r))"

definition create_csr64_recovery :: "hart \<Rightarrow> u32 \<Rightarrow> u64 \<Rightarrow> romst \<Rightarrow> romst" where
  "create_csr64_recovery s csrn val r =
     (if skip_csr_recovery s csrn then r
      else emit64 val (emit (create_csrrw 1 csrn) (emit_load 1 (create_ld 1 1) r)))"

definition create_reg_recovery :: "u32 \<Rightarrow> u64 \<Rightarrow> romst \<Rightarrow> romst" where
  "create_reg_recovery rn val r = emit64 val (emit_load rn (create_ld rn rn) r)"

definition create_io64_recovery :: "u64 \<Rightarrow> u64 \<Rightarrow> romst \<Rightarrow> romst" where
  "create_io64_recovery addr val r =
     (let r1 = emit64 addr (emit_load 1 (create_ld 1 1) r);
          r2 = emit (create_sd 1 2) (emit_load 2 (create_ld 2 2) r1)
      in emit64 val r2)"

definition create_hang_nonzero_hart :: "romst \<Rightarrow> romst" where
  "create_hang_nonzero_hart r =
     emit 0xffdff06f (emit 0x10500073 (emit 0x00050663 (emit 0xf1402573 r)))"

text \<open>The upper half of an FP register is taken from the integer register of the same number.\<close>

definition create_fp_recovery :: "hart \<Rightarrow> nat \<Rightarrow> romst \<Rightarrow> romst" where
  "create_fp_recovery s i r =
     emit_data (ucast (drop_bit 32 (reg s i)))
       (emit_data (ucast (fp_reg s i)) (emit_load 1 (create_fld (of_nat i) 1) r))"

definition create_fp_state :: "hart \<Rightarrow> romst \<Rightarrow> romst" where
  "create_fp_state s r0 =
     (if fs s = 0 then r0
      else let r = create_csr12_recovery s 0x001 (ucast (fflags s)) r0;
               r = create_csr12_recovery s 0x002 (ucast (frm s)) r;
               r = create_csr12_recovery s 0x003 (ucast (fflags s OR push_bit 5 (ucast (frm s)))) r
           in fold (create_fp_recovery s) [0..<32] r)"

definition create_hpm_state :: "hart \<Rightarrow> romst \<Rightarrow> romst" where
  "create_hpm_state s r =
     fold (\<lambda>i r. create_csr64_recovery s (0x320 + of_nat i) (mhpmevent s i)
                  (create_csr12_recovery s (0xb00 + of_nat i) 0 r)) [3..<32] r"

text \<open>The straight sequence of 64-bit CSRs between two loops of the source.\<close>

definition csr64_seq :: "hart \<Rightarrow> (u32 \<times> u64) list \<Rightarrow> romst \<Rightarrow> romst" where
  "csr64_seq s cs r = fold (\<lambda>(c, v). create_csr64_recovery s c v) cs r"

definition boot_rom_steps :: "hart \<Rightarrow> u64 \<Rightarrow> romst \<Rightarrow> romst" where
  "boot_rom_steps s clint_base r0 =
     (let r = (if ncpus (machine s) = 1 then create_hang_nonzero_hart r0 else r0);
          r = create_csr64_recovery s 0x7b1 (pc s) r;
          r = create_csr12_recovery s 0x7b0 (0x600 OR ucast (priv s)) r;
          r = csr64_seq s [(0x300, get_mstatus s (- 1)), (0x301, ucast (misa s) OR push_bit 62 2)] r;
          r = create_fp_state s r;
          r = create_hpm_state s r;
          r = csr64_seq s [(0x7a0, ucast (tselect s)), (0x302, ucast (medeleg s)),
                 (0x303, ucast (mideleg s)), (0x304, ucast (mie s)), (0x305, mtvec s),
                 (0x105, stvec s)] r;
          r = create_csr12_recovery s 0x320 (ucast (mcountinhibit s)) r;
          r = create_csr12_recovery s 0x306 (ucast (mcounteren s)) r;
          r = create_csr12_recovery s 0x106 (ucast (scounteren s)) r;
          r = csr64_seq s (map (\<lambda>i. (CSR_PMPADDR (of_nat i), csr_pmpaddr s i)) [0..<16]) r;
          r = csr64_seq s (map (\<lambda>i. (CSR_PMPCFG (of_nat i), csr_pmpcfg s i)) [0, 2]) r;
          r = csr64_seq s [(0x340, mscratch s), (0x341, mepc s), (0x342, mcause s), (0x343, mtval s),
                 (0x140, sscratch s), (0x141, sepc s), (0x142, scause s), (0x143, stval s),
                 (0x344, ucast (mip s))] r;
          r = fold (\<lambda>i. create_reg_recovery (of_nat i) (reg s i)) [3..<32] r;
          r = create_io64_recovery (clint_base + 0x4000) (timecmp s) r;
          r = csr64_seq s [(0xb02, minstret s), (0xb00, mcycle s)] r;
          r = create_io64_recovery (clint_base + 0xbff8) (mcycle s div RTC_FREQ_DIV) r;
          r = fold (\<lambda>i. create_reg_recovery (of_nat i) (reg s i)) [1..<3] r;
          r = emit (create_csrrw 1 0x7b2) r;
          r = create_csr64_recovery s 0x180 (satp s) r;
          r = emit (create_csrrs 1 0x7b2) r
      in emit 0x7b200073 r)"

definition boot_rom_init :: romst where
  "boot_rom_init =
     \<lparr>rom = (\<lambda>_. 0), code_pos = unat (BOOT_BASE_ADDR - ROM_BASE_ADDR) div 4, data_pos = 0xB00 div 4\<rparr>"

text \<open>
  \<open>create_boot_rom\<close> up to the image it writes; \<^const>\<open>None\<close> is an exit (privilege 2, or a
  ROM that is too small, tested after the image has been written).
\<close>

definition create_boot_rom :: "hart \<Rightarrow> u64 \<Rightarrow> romst option" where
  "create_boot_rom s clint_base =
     (if priv s = 2 then None
      else let r = boot_rom_steps s clint_base boot_rom_init in
           if unat ROM_SIZE div 4 \<le> data_pos r \<or> data_pos boot_rom_init \<le> code_pos r then None
           else Some r)"

section \<open>Choice of the boot RAM image\<close>

datatype bootram = NewRom romst | DefaultRom u64 u64 | SnapshotExit

text \<open>The scan over the ranges: boot and main RAM, each at most once (asserted).\<close>

fun scan_ranges :: "RISCVMachine \<Rightarrow> nat \<Rightarrow> nat option \<Rightarrow> bool \<Rightarrow> (nat option \<times> bool) option" where
  "scan_ranges m 0 boot main = Some (boot, main)"
| "scan_ranges m (Suc i) boot main =
     (let pr = phys_mem_range (mem_map m) i in
      if is_ram pr \<and> pr_addr pr = ROM_BASE_ADDR
      then (if boot = None then scan_ranges m i (Some i) main else None)
      else if is_ram pr \<and> pr_addr pr = ram_base_addr m
      then (if \<not> main then scan_ranges m i boot True else None)
      else scan_ranges m i boot main)"

definition riscv_cpu_serialize :: "hart \<Rightarrow> u64 \<Rightarrow> bootram" where
  "riscv_cpu_serialize s clint_base =
     (case scan_ranges (machine s) (n_phys_mem_range (mem_map (machine s))) None False of
        Some (Some b, True) \<Rightarrow>
          (let pr = phys_mem_range (mem_map (machine s)) b in
           if priv s \<noteq> 3 \<or> ROM_BASE_ADDR + ROM_SIZE < pc s
           then (case create_boot_rom s clint_base of None \<Rightarrow> SnapshotExit | Some r \<Rightarrow> NewRom r)
           else if BOOT_BASE_ADDR < pc s then SnapshotExit
           else if pc s = BOOT_BASE_ADDR then DefaultRom (phys_mem pr) (pr_size pr)
           else SnapshotExit)
      | _ \<Rightarrow> SnapshotExit)"

end
