(* ===== verification/Machine.thy ===== *)
theory Machine
  imports Snapshot
begin

text \<open>
  The machine around the harts: default parameters, construction of the machine with its memory
  map and its hard-coded boot ROM (\<^verbatim>\<open>riscv_machine.cpp\<close>), the timer poll, and the driver
  loop of the stand-alone simulator (\<^verbatim>\<open>dromajo_main.cpp\<close>, \<^verbatim>\<open>dromajo.cpp\<close>).

  The machine has no console, network, block, file system or input device of the virtio kind:
  those device models are not part of this development. The host addresses \<open>mallocz\<close> returns
  for the two RAM blocks are arguments.
\<close>

section \<open>Parameters and construction\<close>

record VirtMachineParams =
  p_ram_size :: u64
  p_ram_base_addr :: u64
  p_physical_addr_len :: nat
  p_reset_vector :: u64
  p_plic_base_addr :: u64
  p_plic_size :: u64
  p_clint_base_addr :: u64
  p_clint_size :: u64
  p_ncpus :: nat
  p_maxinsns :: u64
  p_mmio_start :: u64
  p_mmio_end :: u64
  p_mmio_addrset :: "(u64 \<times> u64) list"
  p_htif_base_addr :: u64
  p_missing_csrs :: "u64 list"
  p_skip_commit :: "u64 list"
  p_compact_bootrom :: bool
  p_custom_extension :: bool

definition virt_machine_set_defaults :: VirtMachineParams where
  "virt_machine_set_defaults =
     \<lparr>p_ram_size = 0, p_ram_base_addr = 0x80000000, p_physical_addr_len = 40,
      p_reset_vector = BOOT_BASE_ADDR, p_plic_base_addr = 0x10000000, p_plic_size = 0x2000000,
      p_clint_base_addr = 0x02000000, p_clint_size = 0x000c0000, p_ncpus = 0, p_maxinsns = 0,
      p_mmio_start = 0, p_mmio_end = 0, p_mmio_addrset = [], p_htif_base_addr = 0,
      p_missing_csrs = [], p_skip_commit = [], p_compact_bootrom = False,
      p_custom_extension = False\<rparr>"

text \<open>The first part of \<open>virt_machine_init\<close>: fields and harts; \<^const>\<open>None\<close> is the exit.\<close>

definition init_harts :: "VirtMachineParams \<Rightarrow> RISCVMachine option" where
  "init_harts p =
     (let m = zero_machine
        \<lparr>ram_size := p_ram_size p, ram_base_addr := p_ram_base_addr p, maxinsns := p_maxinsns p,
         ncpus := p_ncpus p, reset_vector := p_reset_vector p, missing_csrs := p_missing_csrs p,
         skip_commit := p_skip_commit p, compact_bootrom := p_compact_bootrom p,
         custom_extension := p_custom_extension p, plic_base_addr := p_plic_base_addr p,
         plic_size := p_plic_size p, clint_base_addr := p_clint_base_addr p,
         clint_size := p_clint_size p\<rparr>
      in if MAX_CPUS < p_ncpus p then None
         else Some (fold (\<lambda>i m. set_cpu i (riscv_cpu_init m i) m) [0..<p_ncpus p] m))"

abbreviation DEVIO_8_16_32 :: u32 where
  "DEVIO_8_16_32 \<equiv> DEVIO_SIZE32 OR DEVIO_SIZE16 OR DEVIO_SIZE8"

text \<open>The device ranges in the order of their registration: address, size, device, flags.\<close>

definition device_ranges :: "VirtMachineParams \<Rightarrow> (u64 \<times> u64 \<times> device \<times> u32) list" where
  "device_ranges p =
     (if p_mmio_start p \<noteq> 0
      then [(p_mmio_start p, p_mmio_end p - p_mmio_start p, DEV_MMIO, DEVIO_8_16_32)] else [])
     @ map (\<lambda>(a, sz). (a, sz, DEV_MMIO, DEVIO_8_16_32)) (p_mmio_addrset p)
     @ [(0x54000000, 32, DEV_UART, DEVIO_SIZE32),
        (0x12002000, 0x1000, DEV_DW_APB_UART, DEVIO_8_16_32),
        (p_clint_base_addr p, p_clint_size p, DEV_CLINT, DEVIO_8_16_32),
        (p_plic_base_addr p, p_plic_size p, DEV_PLIC, DEVIO_SIZE32)]"

fun register_devices ::
    "(u64 \<times> u64 \<times> device \<times> u32) list \<Rightarrow> PhysMemoryMap \<Rightarrow> PhysMemoryMap option" where
  "register_devices [] mm = Some mm"
| "register_devices ((a, sz, d, fl) # ds) mm =
     (case cpu_register_device mm a sz d fl of
        None \<Rightarrow> None | Some (_, mm') \<Rightarrow> register_devices ds mm')"

definition register_memory ::
    "u64 \<Rightarrow> u64 \<Rightarrow> VirtMachineParams \<Rightarrow> RISCVMachine \<Rightarrow> RISCVMachine option" where
  "register_memory ram_p rom_p p m =
     (case default_register_ram ram_p (mem_map m) (host_mem m) (p_ram_base_addr p) (p_ram_size p) 0 of
        None \<Rightarrow> None
      | Some (_, mm1, h1) \<Rightarrow>
         (case default_register_ram rom_p mm1 h1 ROM_BASE_ADDR ROM_SIZE 0 of
            None \<Rightarrow> None
          | Some (_, mm2, h2) \<Rightarrow>
             (case register_devices (device_ranges p) mm2 of
                None \<Rightarrow> None
              | Some mm3 \<Rightarrow>
                  Some (m\<lparr>mem_map := mm3, host_mem := h2,
                          cpu_state := (\<lambda>i. if i < ncpus m
                             then (cpu_state m i)\<lparr>physical_addr_len := p_physical_addr_len p\<rparr>
                             else cpu_state m i)\<rparr>))))"

section \<open>Boot ROM\<close>

text \<open>The hard-coded boot ROM of \<open>copy_kernel\<close>.\<close>

definition boot_words :: "RISCVMachine \<Rightarrow> u32 list" where
  "boot_words m =
     [0xf1402573]
     @ (if ncpus m = 1 then [0x00050663, 0x10500073, 0xffdff06f]
        else [0x00000013, 0x00000013, 0x00000013])
     @ [0x00000597, 0x0f058593, 0x60300413, 0x7b041073]
     @ (if ram_base_addr m = 0xC000000000 then [0x0030041b, 0x02641413]
        else [0x0010041b, if ram_base_addr m = 0x80000000 then 0x01f41413 else 0x02741413])
     @ [0x7b141073, 0x7b200073]"

fun store_words :: "u32 list \<Rightarrow> u64 \<Rightarrow> hostmem \<Rightarrow> hostmem" where
  "store_words [] q h = h"
| "store_words (w # ws) q h = store_words ws (q + 4) (store_le 4 h q (ucast w))"

definition set_debug_all :: "RISCVMachine \<Rightarrow> RISCVMachine" where
  "set_debug_all m =
     fold (\<lambda>i m. set_cpu i (riscv_set_debug_mode (cpu_state m i) True) m) [0..<ncpus m] m"

section \<open>Images\<close>

text \<open>
  Kernel and initrd of \<open>copy_kernel\<close>: sizes are checked, then each image is copied to its place.
  A failed check returns 1; a missing RAM range ends the process.
\<close>

fun memcpy :: "u8 list \<Rightarrow> u64 \<Rightarrow> hostmem \<Rightarrow> hostmem" where
  "memcpy [] q h = h"
| "memcpy (b # bs) q h = memcpy bs (q + 1) (h(q := b))"

datatype load_result = Loaded RISCVMachine u64 u64 | LoadError | LoadCrash

definition copy_image :: "u8 list \<Rightarrow> u64 \<Rightarrow> RISCVMachine \<Rightarrow> RISCVMachine option" where
  "copy_image buf addr m =
     map_option (\<lambda>q. m\<lparr>host_mem := memcpy buf q (host_mem m)\<rparr>) (get_ram_ptr m addr)"

abbreviation KERNEL_OFFSET :: u64 where "KERNEL_OFFSET \<equiv> 0x200000"

definition load_kernel :: "u8 list \<Rightarrow> RISCVMachine \<Rightarrow> load_result" where
  "load_kernel kernel_buf m =
     (if kernel_buf = [] then Loaded m 0 0
      else if ram_size m \<le> KERNEL_OFFSET then LoadError
      else if unat (ram_size m - KERNEL_OFFSET) < length kernel_buf then LoadError
      else case copy_image kernel_buf (ram_base_addr m + KERNEL_OFFSET) m of
        None \<Rightarrow> LoadCrash | Some m \<Rightarrow> Loaded m 0 0)"

definition load_initrd :: "u8 list \<Rightarrow> RISCVMachine \<Rightarrow> load_result" where
  "load_initrd initrd m =
     (if initrd = [] then Loaded m 0 0
      else if unat (ram_size m) < length initrd then LoadError
      else let initrd_end = ram_base_addr m + ram_size m;
               initrd_start = push_bit 12 (drop_bit 12 (initrd_end - of_nat (length initrd)))
           in case copy_image initrd initrd_start m of
                None \<Rightarrow> LoadCrash | Some m \<Rightarrow> Loaded m initrd_start initrd_end)"

section \<open>Running\<close>

text \<open>\<open>virt_machine_get_sleep_duration\<close>: the delay and the machine with the timer interrupt set.\<close>

definition virt_machine_get_sleep_duration ::
    "RISCVMachine \<Rightarrow> nat \<Rightarrow> int \<Rightarrow> int \<times> RISCVMachine" where
  "virt_machine_get_sleep_duration m hartid ms_delay =
     (let s = cpu_state m hartid;
          ms_delay1 = sint (timecmp s - rtc_get_time m);
          poll = (riscv_cpu_get_mip s AND MIP_MTIP = 0 \<and> 0 < rtc_get_time m);
          m' = (if poll \<and> ms_delay1 \<le> 0 then set_cpu hartid (riscv_cpu_set_mip m s MIP_MTIP) m else m);
          delay = (if poll then (if ms_delay1 \<le> 0 then 0 else min ms_delay (ms_delay1 div 10000))
                   else ms_delay)
      in (if \<not> power_down_flag (cpu_state m' hartid) then 0 else delay, m'))"

datatype run_result = R_Ret bool RISCVMachine | R_Crash

text \<open>The \<open>tohost\<close> poll: a read of a device range would follow a null pointer.\<close>

definition tohost_done :: "hart \<Rightarrow> bool option" where
  "tohost_done s =
     (case riscv_phys_read 4 s (htif_tohost_addr (machine s)) of
        PVal v \<Rightarrow> Some (v AND 1 \<noteq> 0) | PFail \<Rightarrow> Some False | PCrash \<Rightarrow> None)"

definition virt_machine_run :: "RISCVMachine \<Rightarrow> nat \<Rightarrow> run_result" where
  "virt_machine_run m hartid =
     (let m1 = snd (virt_machine_get_sleep_duration m hartid 10) in
      case riscv_cpu_interp64 (hart_of m1 hartid) 1 of
        I_Crash \<Rightarrow> R_Crash
      | I_Ret _ s \<Rightarrow>
          let m2 = set_cpu hartid (cpu_of s) (machine s);
              go = (\<not> terminate_simulation s \<and> 0 < maxinsns m2)
          in if htif_tohost_addr m2 = 0 then R_Ret go m2
             else (case tohost_done s of
                     None \<Rightarrow> R_Crash | Some d \<Rightarrow> R_Ret (\<not> d \<and> go) m2))"

definition iterate_run :: "u64 \<Rightarrow> RISCVMachine \<Rightarrow> nat \<Rightarrow> run_result" where
  "iterate_run last_pc m hartid =
     (case virt_machine_run m hartid of
        R_Crash \<Rightarrow> R_Crash
      | R_Ret keep_going m' \<Rightarrow>
          if last_pc = pc (cpu_state m' hartid) then R_Ret False m'
          else R_Ret keep_going (if trace m' \<noteq> 0 then m'\<lparr>trace := trace m' - 1\<rparr> else m'))"

text \<open>\<open>iterate_core\<close>; the trace line it prints is not modelled, its countdown is.\<close>

definition iterate_core :: "RISCVMachine \<Rightarrow> nat \<Rightarrow> run_result" where
  "iterate_core m0 hartid =
     (let m = m0\<lparr>maxinsns := maxinsns m0 - 1\<rparr> in
      if maxinsns m0 \<le> 0 then R_Ret False m
      else let last_pc = pc (cpu_state m hartid) in
           case riscv_read_insn (hart_of m hartid) last_pc of
             Abort \<Rightarrow> R_Crash
           | Exc s \<Rightarrow> iterate_run last_pc (set_cpu hartid (cpu_of s) (machine s)) hartid
           | Val _ s \<Rightarrow> iterate_run last_pc (set_cpu hartid (cpu_of s) (machine s)) hartid)"

text \<open>One round of the driver loop of \<open>main\<close>: every hart once, the results or-ed together.\<close>

fun round_robin :: "nat list \<Rightarrow> bool \<Rightarrow> RISCVMachine \<Rightarrow> run_result" where
  "round_robin [] keep_going m = R_Ret keep_going m"
| "round_robin (i # is) keep_going m =
     (case iterate_core m i of
        R_Crash \<Rightarrow> R_Crash
      | R_Ret k m' \<Rightarrow> round_robin is (keep_going \<or> k) m')"

text \<open>The loop itself; not ending is \<^const>\<open>None\<close>.\<close>

partial_function (option) main_loop :: "RISCVMachine \<Rightarrow> run_result option" where
  "main_loop m =
     (case round_robin [0..<ncpus m] False m of
        R_Crash \<Rightarrow> Some R_Crash
      | R_Ret k m' \<Rightarrow> if k then main_loop m' else Some (R_Ret False m'))"

end
