(* ===== verification/Cosim.thy ===== *)
theory Cosim
  imports Machine
begin

text \<open>
  Co-simulation (\<^verbatim>\<open>dromajo_cosim.cpp\<close>): the model executes one instruction per step and its
  result is compared with what the device under test (DUT) committed. Loads from device space,
  some CSR reads, failed store-conditionals and interrupts follow the DUT.
\<close>

section \<open>Set-up and traps\<close>

definition dromajo_cosim_init :: "RISCVMachine \<Rightarrow> RISCVMachine" where
  "dromajo_cosim_init m = m\<lparr>cosim := True, pending_interrupt := - 1, m_pending_exception := - 1\<rparr>"

text \<open>\<^const>\<open>None\<close> is the failed assertion that no interrupt is pending.\<close>

definition dromajo_cosim_raise_trap :: "RISCVMachine \<Rightarrow> u64 \<Rightarrow> RISCVMachine option" where
  "dromajo_cosim_raise_trap m cause =
     (if cause <s 0
      then (if pending_interrupt m = - 1
            then Some (m\<lparr>pending_interrupt := uint (cause AND 63)\<rparr>) else None)
      else Some (m\<lparr>m_pending_exception := sint (ucast cause :: u32)\<rparr>))"

section \<open>Overrides\<close>

definition is_store_conditional :: "u32 \<Rightarrow> bool" where
  "is_store_conditional insn =
     (let opcode = insn AND 0x7f; funct3 = drop_bit 12 insn AND 7
      in opcode = 0x2f \<and> drop_bit 27 insn = 3 \<and> (funct3 = 2 \<or> funct3 = 3))"

definition is_amo :: "u32 \<Rightarrow> bool" where
  "is_amo insn =
     (insn AND 0x7f = 0x2f
      \<and> drop_bit 27 insn \<in> {1, 2, 0, 4, 0xc, 0x8, 0x10, 0x14, 0x18, 0x1c})"

definition mmio_hit :: "hart \<Rightarrow> u64 \<Rightarrow> u64 \<Rightarrow> u64 \<Rightarrow> bool option" where
  "mmio_hit s va lo hi =
     (case riscv_cpu_get_phys_addr s va ACCESS_READ of
        Paddr pa \<Rightarrow> Some (lo \<le> pa \<and> pa < hi)
      | XCrash \<Rightarrow> None
      | _ \<Rightarrow> Some False)"

fun any_mmio_hit :: "hart \<Rightarrow> u64 \<Rightarrow> (u64 \<times> u64) list \<Rightarrow> bool option" where
  "any_mmio_hit s va [] = Some False"
| "any_mmio_hit s va ((start, sz) # rs) =
     (case mmio_hit s va start (start + sz) of
        None \<Rightarrow> None
      | Some b \<Rightarrow> if b then Some True else any_mmio_hit s va rs)"

text \<open>The range of the machine first, then the list of further ranges.\<close>

definition is_mmio_load :: "hart \<Rightarrow> nat \<Rightarrow> u32 \<Rightarrow> bool option" where
  "is_mmio_load s rn offset =
     (case riscv_get_reg_previous s (int rn) of
        None \<Rightarrow> None
      | Some base \<Rightarrow>
          let va = base + scast offset in
          (case mmio_hit s va (mmio_start (machine s)) (mmio_end (machine s)) of
             None \<Rightarrow> None
           | Some b \<Rightarrow> if b then Some True else any_mmio_hit s va (mmio_addrset (machine s))))"

text \<open>The load whose result may be overridden: base register, offset, destination.\<close>

definition override_load :: "u32 \<Rightarrow> (nat \<times> u32 \<times> nat) option" where
  "override_load insn =
     (let opcode = insn AND 0x7f;
          rd = unat (drop_bit 7 insn AND 0x1f);
          rdc = unat (drop_bit 2 insn AND 7) + 8;
          rs1c = unat (drop_bit 7 insn AND 7) + 8
      in if (opcode = 3 \<or> is_amo insn) \<and> rd \<noteq> 0
         then Some (unat (drop_bit 15 insn AND 0x1f),
                    if opcode = 3 then signed_drop_bit 20 insn else 0, rd)
         else if insn AND 0xE003 = 0x6000 \<and> rdc \<noteq> 0
         then Some (rs1c, get_field1 insn 10 3 5 OR get_field1 insn 5 6 7, rdc)
         else if insn AND 0xE003 = 0x4000 \<and> rdc \<noteq> 0
         then Some (rs1c, get_field1 insn 10 3 5 OR get_field1 insn 6 2 2 OR get_field1 insn 5 6 6, rdc)
         else None)"

definition override_csr :: "u32 \<Rightarrow> bool" where
  "override_csr insn =
     (let csrno = drop_bit 20 insn in
      insn AND 0x7f = 0x73 \<and> drop_bit 7 insn AND 0x1f \<noteq> 0
      \<and> (0xB00 \<le> csrno \<and> csrno < 0xB20 \<or> 0xC00 \<le> csrno \<and> csrno < 0xC20
         \<or> csrno = 0x344 \<or> csrno = 0x144))"

definition handle_dut_overrides :: "hart \<Rightarrow> u32 \<Rightarrow> u64 \<Rightarrow> hart option" where
  "handle_dut_overrides s insn dut_wdata =
     Option.bind
       (if override_csr insn
        then riscv_set_reg s (uint (drop_bit 7 insn AND 0x1f)) dut_wdata else Some s)
       (\<lambda>s. case override_load insn of
          None \<Rightarrow> Some s
        | Some (rn, offset, rd) \<Rightarrow>
            (case is_mmio_load s rn offset of
               None \<Rightarrow> None
             | Some b \<Rightarrow> if b then riscv_set_reg s (int rd) dut_wdata else Some s))"

section \<open>One step\<close>

text \<open>
  What the loop of \<open>dromajo_cosim_step\<close> leaves: the registers written last, the privilege,
  the pc and the instruction before the step. \<open>emu_insn\<close> keeps its previous content when the
  fetch fails; its content before the first fetch is indeterminate and is an argument.
\<close>

record stepped =
  iregno :: int
  fregno :: int
  emu_pc :: u64
  emu_insn :: u32

datatype iter = Again u32 hart | Stepped stepped hart | Mismatch hart | IterCrash

definition read_emu_insn :: "hart \<Rightarrow> u32 \<Rightarrow> (u32 \<times> hart) option" where
  "read_emu_insn s old =
     (let cut = (\<lambda>i :: u32. if i AND 3 \<noteq> 3 then i AND 0xFFFF else i) in
      case riscv_read_insn s (pc s) of
        Val i s' \<Rightarrow> Some (cut i, s') | Exc s' \<Rightarrow> Some (cut old, s') | Abort \<Rightarrow> None)"

text \<open>The DUT failed a store-conditional: follow it.\<close>

definition dut_failed_sc :: "hart \<Rightarrow> u32 \<Rightarrow> u64 \<Rightarrow> u32 \<Rightarrow> u64 \<Rightarrow> bool" where
  "dut_failed_sc s insn dut_pc dut_insn dut_wdata =
     (pc s = dut_pc \<and> insn = dut_insn \<and> is_store_conditional insn \<and> dut_wdata \<noteq> 0)"

definition follow_failed_sc :: "hart \<Rightarrow> u32 \<Rightarrow> u64 \<Rightarrow> iter" where
  "follow_failed_sc s insn dut_wdata =
     (let rd = uint (drop_bit 7 insn AND 0x1f);
          st = \<lparr>iregno = rd, fregno = - 1, emu_pc = pc s, emu_insn = insn\<rparr>
      in case (if 0 < rd then riscv_set_reg s rd dut_wdata else Some s) of
           None \<Rightarrow> IterCrash
         | Some s' \<Rightarrow> Stepped st (riscv_set_pc s' (pc s + 4)))"

text \<open>
  An interrupt that races an exception: the exception is entered first and its cause compared;
  \<^const>\<open>Inl\<close> is the early return with 0x1FFF.
\<close>

definition enter_raced_exception :: "hart \<Rightarrow> (hart + hart) option" where
  "enter_raced_exception s =
     (if pending_interrupt (machine s) \<noteq> - 1 \<and> m_pending_exception (machine s) \<noteq> - 1
      then (case riscv_cpu_interp64 s 1 of
              I_Crash \<Rightarrow> None
            | I_Ret _ s' \<Rightarrow>
                let cause = sint (ucast (if priv s' = PRV_S then scause s' else mcause s') :: u32)
                in Some (if m_pending_exception (machine s') \<noteq> cause then Inl s' else Inr s'))
      else Some (Inr s))"

text \<open>\<open>1 << pending_interrupt\<close> on an int; counts from 32 on are undefined in C.\<close>

definition inject_interrupt :: "hart \<Rightarrow> hart" where
  "inject_interrupt s =
     (let i = pending_interrupt (machine s) in
      if i \<noteq> - 1
      then riscv_cpu_set_mip (machine s) s (riscv_cpu_get_mip s OR push_bit (nat i mod 32) 1) else s)"

definition clear_pending :: "hart \<Rightarrow> hart" where
  "clear_pending s = s\<lparr>machine := (machine s)\<lparr>pending_interrupt := - 1, m_pending_exception := - 1\<rparr>\<rparr>"

definition cosim_iter :: "u64 \<Rightarrow> u32 \<Rightarrow> u64 \<Rightarrow> u32 \<Rightarrow> hart \<Rightarrow> iter" where
  "cosim_iter dut_pc dut_insn dut_wdata old s0 =
     (case read_emu_insn s0 old of
        None \<Rightarrow> IterCrash
      | Some (insn, s) \<Rightarrow>
          if dut_failed_sc s insn dut_pc dut_insn dut_wdata then follow_failed_sc s insn dut_wdata
          else (case enter_raced_exception s of
             None \<Rightarrow> IterCrash
           | Some (Inl s1) \<Rightarrow> Mismatch s1
           | Some (Inr s1) \<Rightarrow>
               (case riscv_cpu_interp64 (inject_interrupt s1) 1 of
                  I_Crash \<Rightarrow> IterCrash
                | I_Ret n s2 \<Rightarrow>
                    if n \<noteq> 0
                    then Stepped \<lparr>iregno = most_recently_written_reg s2,
                                  fregno = most_recently_written_fp_reg s2,
                                  emu_pc = pc s0, emu_insn = insn\<rparr> s2
                    else Again insn (clear_pending s2))))"

partial_function (option) cosim_loop :: "u64 \<Rightarrow> u32 \<Rightarrow> u64 \<Rightarrow> u32 \<Rightarrow> hart \<Rightarrow> iter option" where
  "cosim_loop dut_pc dut_insn dut_wdata old s =
     (case cosim_iter dut_pc dut_insn dut_wdata old s of
        Again insn s' \<Rightarrow> cosim_loop dut_pc dut_insn dut_wdata insn s'
      | r \<Rightarrow> Some r)"

section \<open>Comparison\<close>

text \<open>The data the step wrote, if any; \<^const>\<open>None\<close> is a register number out of range.\<close>

definition emu_wdata :: "stepped \<Rightarrow> hart \<Rightarrow> u64 option option" where
  "emu_wdata st s =
     (if 0 < iregno st then map_option Some (riscv_get_reg s (iregno st))
      else if 0 \<le> fregno st then map_option Some (riscv_get_fpreg s (fregno st))
      else Some None)"

definition differs :: "stepped \<Rightarrow> u64 option \<Rightarrow> u64 \<Rightarrow> u32 \<Rightarrow> u64 \<Rightarrow> bool" where
  "differs st wd dut_pc dut_insn dut_wdata =
     (emu_pc st \<noteq> dut_pc
      \<or> emu_insn st \<noteq> dut_insn \<and> emu_insn st AND 3 = 3
      \<or> (case wd of Some w \<Rightarrow> w \<noteq> dut_wdata | None \<Rightarrow> False))"

datatype cosim_result = C_Ret int hart | C_Crash

definition finish_step :: "u64 \<Rightarrow> u32 \<Rightarrow> u64 \<Rightarrow> bool \<Rightarrow> stepped \<Rightarrow> hart \<Rightarrow> cosim_result" where
  "finish_step dut_pc dut_insn dut_wdata check st s0 =
     (case (if check then handle_dut_overrides s0 (emu_insn st) dut_wdata else Some s0) of
        None \<Rightarrow> C_Crash
      | Some s \<Rightarrow>
         (case emu_wdata st s of
            None \<Rightarrow> C_Crash
          | Some wd \<Rightarrow>
              if \<not> check then C_Ret 0 s
              else let skip = (ucast (emu_insn st) \<in> set (skip_commit (machine s)));
                       exit_code = (if skip then 3
                                    else if differs st wd dut_pc dut_insn dut_wdata then 0x1FFF else 0)
                   in C_Ret exit_code (riscv_cpu_sync_regs s)))"

text \<open>\<open>dromajo_cosim_step\<close> on the hart it selects; \<^const>\<open>None\<close> is a loop that does not end.\<close>

definition dromajo_cosim_step ::
    "u64 \<Rightarrow> u32 \<Rightarrow> u64 \<Rightarrow> bool \<Rightarrow> u32 \<Rightarrow> hart \<Rightarrow> cosim_result option" where
  "dromajo_cosim_step dut_pc dut_insn dut_wdata check emu_insn0 s0 =
     (case tohost_done s0 of
        None \<Rightarrow> Some C_Crash
      | Some True \<Rightarrow> Some (C_Ret 2 s0)
      | Some False \<Rightarrow>
          if maxinsns (machine s0) = 0 then Some (C_Ret 1 s0)
          else let s = s0\<lparr>machine := (machine s0)\<lparr>maxinsns := maxinsns (machine s0) - 1\<rparr>\<rparr> in
               if terminate_simulation s then Some (C_Ret 1 s)
               else (case cosim_loop dut_pc dut_insn dut_wdata emu_insn0 s of
                       None \<Rightarrow> None
                     | Some (Stepped st s') \<Rightarrow> Some (finish_step dut_pc dut_insn dut_wdata check st s')
                     | Some (Mismatch s') \<Rightarrow> Some (C_Ret 0x1FFF s')
                     | Some _ \<Rightarrow> Some C_Crash))"

end
