(* ===== verification/Mmu_Walk.thy ===== *)
theory Mmu_Walk
  imports Mmu
begin

text \<open>
  Laws of address translation: the page walk depends on an address only through its page, and a
  successful translation is exactly a path through valid page-table entries to a leaf that grants
  the access. The architectural reading of an entry (\<open>pte_grants\<close>) is stated on its bits and
  the path is an inductive relation, so that the loop of the code is compared with the table
  format rather than with itself.
\<close>

section \<open>Pages\<close>

definition page_base :: "u64 \<Rightarrow> u64" where
  "page_base a = a AND NOT PG_MASK"

lemma PG_MASK_eq: "PG_MASK = mask 12"
  by (simp add: mask_eq_exp_minus_1)

lemma bit_page_base: "bit (page_base a) n \<longleftrightarrow> 12 \<le> n \<and> bit a n"
  unfolding page_base_def PG_MASK_eq by (auto simp: bit_simps dest: bit_imp_le_length)

lemma page_base_eq_iff: "page_base a = page_base b \<longleftrightarrow> (\<forall>n \<ge> 12. bit a n = bit b n)"
proof
  assume "page_base a = page_base b"
  then show "\<forall>n \<ge> 12. bit a n = bit b n" by (metis bit_page_base)
next
  assume "\<forall>n \<ge> 12. bit a n = bit b n"
  then show "page_base a = page_base b" by (intro bit_word_eqI) (auto simp: bit_page_base)
qed

lemma drop_bit_page: "page_base a = page_base b \<Longrightarrow> 12 \<le> n \<Longrightarrow> drop_bit n a = drop_bit n b"
  by (rule bit_word_eqI) (simp add: page_base_eq_iff bit_drop_bit_eq)

lemma page_base_neq_minus_1 [simp]: "page_base a \<noteq> - 1"
proof
  assume "page_base a = - 1"
  then have "bit (page_base a) 0 = bit (- 1 :: u64) 0" by simp
  then show False by (simp add: bit_page_base)
qed

text \<open>The byte of the page of \<open>pa\<close> that corresponds to the virtual address \<open>va\<close>.\<close>

definition in_page :: "u64 \<Rightarrow> u64 \<Rightarrow> u64" where
  "in_page pa va = page_base pa OR (va AND PG_MASK)"

lemma bit_in_page: "bit (in_page pa va) n \<longleftrightarrow> (if n < 12 then bit va n else bit pa n)"
  unfolding in_page_def PG_MASK_eq
  by (auto simp: bit_or_iff bit_and_iff bit_mask_iff bit_page_base dest: bit_imp_le_length)

lemma in_page_self: "(\<And>n. n < 12 \<Longrightarrow> bit pa n = bit va n) \<Longrightarrow> in_page pa va = pa"
  by (rule bit_word_eqI) (simp add: bit_in_page)

lemma page_base_in_page [simp]: "page_base (in_page pa va) = page_base pa"
  by (simp add: page_base_eq_iff bit_in_page)

lemma page_base_or: "page_base x OR (y AND PG_MASK) = page_base x + (y AND PG_MASK)"
  unfolding PG_MASK_eq
  by (rule disjunctive_add [symmetric]) (auto simp: bit_page_base bit_and_iff bit_mask_iff)

lemma page_split: "x = page_base x + (x AND PG_MASK)"
proof -
  have "x = in_page x x" by (simp add: in_page_self)
  then show ?thesis by (simp add: in_page_def page_base_or)
qed

lemma in_page_offset:
  assumes "\<And>n. n < 12 \<Longrightarrow> bit pa n = bit a n" and "page_base a = page_base b"
  shows "in_page pa b - pa = b - a"
proof -
  have "pa AND PG_MASK = a AND PG_MASK"
    unfolding PG_MASK_eq
    by (rule bit_word_eqI) (use assms(1) in \<open>auto simp: bit_and_iff bit_mask_iff\<close>)
  then have "pa = page_base pa + (a AND PG_MASK)" using page_split [of pa] by simp
  moreover have "in_page pa b = page_base pa + (b AND PG_MASK)"
    by (simp add: in_page_def page_base_or)
  moreover have "b - a = (b AND PG_MASK) - (a AND PG_MASK)"
    using page_split [of a] page_split [of b] assms(2) by (metis add_diff_cancel_left)
  ultimately show ?thesis by (metis add_diff_cancel_left)
qed

section \<open>The page walk respects pages\<close>

lemma leaf_address:
  assumes "page_base a = page_base b" and "12 \<le> sh"
  shows "(p AND NOT (mask sh)) OR (b AND mask sh) = in_page ((p AND NOT (mask sh)) OR (a AND mask sh)) b"
  by (rule bit_word_eqI)
    (use assms in \<open>auto simp: bit_in_page bit_or_iff bit_and_iff bit_not_iff bit_mask_iff page_base_eq_iff\<close>)

lemma leaf_offset:
  "12 \<le> sh \<Longrightarrow> n < 12 \<Longrightarrow> bit ((p AND NOT (mask sh)) OR (a AND mask sh)) n = bit (a :: u64) n"
  by (auto simp: bit_or_iff bit_and_iff bit_not_iff bit_mask_iff dest: bit_imp_le_length)

lemma walk_in_page:
  assumes "page_base a = page_base b"
  shows "walk s p acc b n base = (case walk s p acc a n base of Paddr pa \<Rightarrow> Paddr (in_page pa b) | x \<Rightarrow> x)"
proof (induction n arbitrary: base)
  case (Suc j)
  have idx: "drop_bit (PG_SHIFT + 9 * j) b = drop_bit (PG_SHIFT + 9 * j) a"
    using drop_bit_page [OF assms, of "12 + 9 * j"] by simp
  have leaf: "(q AND NOT (mask (PG_SHIFT + 9 * j))) OR (b AND mask (PG_SHIFT + 9 * j))
      = in_page ((q AND NOT (mask (PG_SHIFT + 9 * j))) OR (a AND mask (PG_SHIFT + 9 * j))) b" for q
    by (rule leaf_address [OF assms]) simp
  show ?case
    unfolding walk.simps Let_def idx mask_eq_exp_minus_1 [symmetric] push_bit_of_1
    using Suc leaf by (auto split: pread.splits simp: leaf)
qed simp


lemma canonical_in_page:
  fixes a b :: u64
  assumes "page_base a = page_base b" and "sh \<le> 51"
    and "signed_drop_bit sh (push_bit sh a) = a"
  shows "signed_drop_bit sh (push_bit sh b) = b"
proof (rule bit_word_eqI)
  fix n assume n: "n < LENGTH(64)"
  have ab: "bit a k = bit b k" if "12 \<le> k" for k
    using assms(1) that by (simp add: page_base_eq_iff)
  have sdb: "bit (signed_drop_bit sh (push_bit sh x)) n
      = bit x (if 64 - sh \<le> n \<or> 64 \<le> n then 63 - sh else n)" if "n < 64" for x :: u64 and n
    using that assms(2) by (auto simp: bit_signed_drop_bit_iff bit_push_bit_iff)
  have "bit a n = bit a (if 64 - sh \<le> n then 63 - sh else n)"
    using sdb [of n a] n assms(3) by simp
  then show "bit (signed_drop_bit sh (push_bit sh b)) n = bit b n"
    using sdb [of n b] n ab [of n] ab [of "63 - sh"] assms(2) by (simp split: if_splits)
qed

lemma canonical_page_iff:
  fixes a b :: u64
  assumes "page_base a = page_base b" and "sh \<le> 51"
  shows "signed_drop_bit sh (push_bit sh a) = a \<longleftrightarrow> signed_drop_bit sh (push_bit sh b) = b"
  using canonical_in_page [OF assms] canonical_in_page [OF assms(1) [symmetric] assms(2)] by blast

lemma in_page_same: "page_base a = page_base b \<Longrightarrow> in_page a b = b"
  by (rule bit_word_eqI) (auto simp: bit_in_page page_base_eq_iff)

lemma get_phys_addr_in_page:
  assumes "page_base a = page_base b"
  shows "riscv_cpu_get_phys_addr s b acc =
    (case riscv_cpu_get_phys_addr s a acc of Paddr pa \<Rightarrow> Paddr (in_page pa b) | x \<Rightarrow> x)"
proof -
  define levels where "levels = int (unat (drop_bit 60 (satp s) AND 0xf)) - 8 + 3"
  have small: "walk s p acc c (nat levels) base = XFault" if "levels \<le> 0" for p c base
    using that by simp
  have canon: "signed_drop_bit (nat (64 - (12 + levels * 9))) (push_bit (nat (64 - (12 + levels * 9))) a) = a
     \<longleftrightarrow> signed_drop_bit (nat (64 - (12 + levels * 9))) (push_bit (nat (64 - (12 + levels * 9))) b) = b"
    if "0 < levels"
    by (rule canonical_page_iff [OF assms]) (use that in simp)
  show ?thesis
    using small canon in_page_same [OF assms] walk_in_page [OF assms]
    unfolding riscv_cpu_get_phys_addr_def Let_def levels_def [symmetric]
    by (cases "levels \<le> 0") auto
qed

lemma get_phys_addr_offset:
  assumes "riscv_cpu_get_phys_addr s a acc = Paddr pa" and "n < 12"
  shows "bit pa n = bit a n"
proof -
  have "in_page pa a = pa" using get_phys_addr_in_page [of a a s acc] assms(1) by simp
  then show ?thesis using bit_in_page [of pa a n] assms(2) by simp
qed

section \<open>What a successful translation means\<close>

text \<open>
  The architectural reading of a leaf entry: valid, not the reserved combination of W without R,
  readable (or executable with MXR), writable or executable as the access needs, a user page
  exactly when the effective privilege is user (supervisor may use it with SUM), accessed, and
  dirty for a write.
\<close>

definition pte_grants :: "'a RISCVCPUState_scheme \<Rightarrow> u8 \<Rightarrow> nat \<Rightarrow> u64 \<Rightarrow> bool" where
  "pte_grants s p access pte =
     (bit pte 0 \<and> (bit pte 2 \<longrightarrow> bit pte 1)
      \<and> (if access = ACCESS_READ then bit pte 1 \<or> bit (mstatus s) 19 \<and> bit pte 3
         else if access = ACCESS_WRITE then bit pte 2 else bit pte 3)
      \<and> (if p = PRV_S then bit pte 4 \<longrightarrow> bit (mstatus s) 18 else bit pte 4)
      \<and> bit pte 6 \<and> (access = ACCESS_WRITE \<longrightarrow> bit pte 7))"

definition pte_at :: "hart \<Rightarrow> u64 \<Rightarrow> u64 \<Rightarrow> bool" where
  "pte_at s a pte = (riscv_phys_read 8 s a = PVal pte)"

definition pte_slot :: "u64 \<Rightarrow> u64 \<Rightarrow> nat \<Rightarrow> u64" where
  "pte_slot base va j = base + push_bit 3 (drop_bit (PG_SHIFT + 9 * j) va AND 0x1ff)"

text \<open>Permission bits all clear: a pointer to the next table.\<close>

definition is_pointer :: "u64 \<Rightarrow> bool" where
  "is_pointer pte = (\<not> bit pte 1 \<and> \<not> bit pte 2 \<and> \<not> bit pte 3)"

text \<open>The path from a table with \<open>n\<close> levels to a leaf entry with \<open>j\<close> levels below it.\<close>

inductive table_path :: "hart \<Rightarrow> u64 \<Rightarrow> nat \<Rightarrow> u64 \<Rightarrow> nat \<Rightarrow> u64 \<Rightarrow> bool" for s va where
  leaf: "pte_at s (pte_slot base va j) pte \<Longrightarrow> bit pte 0 \<Longrightarrow> \<not> is_pointer pte
    \<Longrightarrow> table_path s va (Suc j) base j pte"
| down: "pte_at s (pte_slot base va k) q \<Longrightarrow> bit q 0 \<Longrightarrow> is_pointer q
    \<Longrightarrow> table_path s va k (push_bit PG_SHIFT (drop_bit 10 q)) j pte
    \<Longrightarrow> table_path s va (Suc k) base j pte"

inductive_cases table_path_SucE: "table_path s va (Suc k) base j pte"
inductive_cases table_path_0E: "table_path s va 0 base j pte"

lemma flag_bits:
  "(w :: u64) AND 1 = 0 \<longleftrightarrow> \<not> bit w 0" "w AND 0x10 = 0 \<longleftrightarrow> \<not> bit w 4"
  "w AND 0x40 = 0 \<longleftrightarrow> \<not> bit w 6" "w AND 0x80 = 0 \<longleftrightarrow> \<not> bit w 7"
  "w AND 0x40000 = 0 \<longleftrightarrow> \<not> bit w 18" "w AND 0x80000 = 0 \<longleftrightarrow> \<not> bit w 19"
  using and_exp_eq_0_iff_not_bit [of w 0] and_exp_eq_0_iff_not_bit [of w 4]
    and_exp_eq_0_iff_not_bit [of w 6] and_exp_eq_0_iff_not_bit [of w 7]
    and_exp_eq_0_iff_not_bit [of w 18] and_exp_eq_0_iff_not_bit [of w 19] by simp_all

lemma xwr_bit: "bit (drop_bit 1 (pte :: u64) AND 7) n \<longleftrightarrow> n < 3 \<and> bit pte (Suc n)"
proof -
  have m: "(7 :: u64) = mask 3" by (simp add: mask_eq_exp_minus_1)
  show ?thesis unfolding m by (auto simp: bit_and_iff bit_drop_bit_eq bit_mask_iff)
qed

lemma and_7_cases: "(x :: u64) AND 7 \<in> {0, 1, 2, 3, 4, 5, 6, 7}"
proof -
  have "unat (x AND 7) \<le> 7" using word_and_le1 [of x 7] by (simp add: word_le_nat_alt)
  then have "unat (x AND 7) \<in> {0, 1, 2, 3, 4, 5, 6, 7}" by auto
  then show ?thesis by (simp add: word_unat_eq_iff)
qed

lemma three_bits:
  "(x :: u64) \<in> {0, 1, 2, 3, 4, 5, 6, 7} \<Longrightarrow>
     (x = 0 \<longleftrightarrow> \<not> bit x 0 \<and> \<not> bit x 1 \<and> \<not> bit x 2)
     \<and> (x = 2 \<or> x = 6 \<longleftrightarrow> bit x 1 \<and> \<not> bit x 0)"
  by (elim insertE emptyE) simp_all

lemma xwr_reading:
  "drop_bit 1 pte AND 7 = 0 \<longleftrightarrow> is_pointer pte"
  "drop_bit 1 pte AND 7 = 2 \<or> drop_bit 1 pte AND 7 = 6 \<longleftrightarrow> bit pte 2 \<and> \<not> bit pte 1"
  using three_bits [OF and_7_cases, of "drop_bit 1 pte"]
  unfolding xwr_bit is_pointer_def by (simp_all add: eval_nat_numeral)

lemma access_bit:
  fixes pte :: u64
  assumes "access \<le> 2"
  shows "bit (drop_bit access (drop_bit 1 pte AND 7)) 0 \<longleftrightarrow> bit pte (Suc access)"
    and "bit (drop_bit access ((drop_bit 1 pte AND 7) OR drop_bit 2 (drop_bit 1 pte AND 7))) 0
      \<longleftrightarrow> bit pte (Suc access) \<or> access = 0 \<and> bit pte 3"
  unfolding bit_drop_bit_eq bit_or_iff comp_def xwr_bit
  using assms by (auto simp: numeral_3_eq_3)

lemma superpage_check:
  "j \<le> 3 \<Longrightarrow> (push_bit j 1 - 1) AND (ucast (drop_bit 10 (pte :: u64)) :: u32) = 0
     \<longleftrightarrow> (\<forall>i < j. \<not> bit pte (10 + i))"
proof -
  assume j: "j \<le> 3"
  have "(push_bit j 1 - 1) AND (ucast (drop_bit 10 pte) :: u32) = take_bit j (ucast (drop_bit 10 pte))"
    by (simp add: take_bit_eq_mask mask_eq_exp_minus_1 and.commute)
  also have "\<dots> = 0 \<longleftrightarrow> (\<forall>i < j. \<not> bit pte (10 + i))"
  proof -
    have "take_bit j (ucast (drop_bit 10 pte) :: u32) = 0
        \<longleftrightarrow> (\<forall>n. \<not> bit (take_bit j (ucast (drop_bit 10 pte) :: u32)) n)"
      by (auto intro: bit_word_eqI)
    then show ?thesis using j by (auto simp: bit_take_bit_iff bit_ucast_iff bit_drop_bit_eq)
  qed
  finally show ?thesis .
qed

lemma leaf_ok_reading:
  assumes "access \<le> 2" and "j \<le> 3" and "bit pte 0"
  shows "leaf_ok s p access j pte \<longleftrightarrow>
    pte_grants s p access pte \<and> (\<forall>i < j. \<not> bit pte (10 + i))"
proof -
  have sel: "bit pte (Suc access) =
      (if access = ACCESS_READ then bit pte 1 else if access = ACCESS_WRITE then bit pte 2 else bit pte 3)"
    using assms(1) by (auto simp: eval_nat_numeral le_Suc_eq)
  show ?thesis
  proof (cases "bit (mstatus s) 19")
    case True
    then show ?thesis using assms(3) sel
      unfolding leaf_ok_def pte_grants_def Let_def flag_bits xwr_reading superpage_check [OF assms(2)]
      by (simp only: not_not if_True access_bit [OF assms(1)]) (simp; blast)
  next
    case False
    then show ?thesis using assms(3) sel
      unfolding leaf_ok_def pte_grants_def Let_def flag_bits xwr_reading superpage_check [OF assms(2)]
      by (simp only: not_not if_False access_bit [OF assms(1)]) (simp; blast)
  qed
qed

definition leaf_paddr :: "nat \<Rightarrow> u64 \<Rightarrow> u64 \<Rightarrow> u64" where
  "leaf_paddr j pte va =
     (push_bit PG_SHIFT (drop_bit 10 pte) AND NOT (mask (PG_SHIFT + 9 * j)))
     OR (va AND mask (PG_SHIFT + 9 * j))"

lemma bit_leaf_paddr:
  "bit (leaf_paddr j pte va) n \<longleftrightarrow> n < 64 \<and> (if n < 12 + 9 * j then bit va n else bit pte (n - 2))"
  unfolding leaf_paddr_def
  by (auto simp: bit_or_iff bit_and_iff bit_not_iff bit_mask_iff bit_push_bit_iff bit_drop_bit_eq
      dest: bit_imp_le_length)

definition grants_leaf :: "'a RISCVCPUState_scheme \<Rightarrow> u8 \<Rightarrow> nat \<Rightarrow> nat \<Rightarrow> u64 \<Rightarrow> bool" where
  "grants_leaf s p access j pte \<longleftrightarrow> pte_grants s p access pte \<and> (\<forall>i < j. \<not> bit pte (10 + i))"

lemma walk_Suc:
  assumes "access \<le> 2" and "j \<le> 3"
  shows "walk s p access va (Suc j) base =
    (case riscv_phys_read 8 s (pte_slot base va j) of
       PFail \<Rightarrow> XIllegal | PCrash \<Rightarrow> XCrash
     | PVal pte \<Rightarrow>
         if \<not> bit pte 0 then XFault
         else if is_pointer pte then walk s p access va j (push_bit PG_SHIFT (drop_bit 10 pte))
         else if grants_leaf s p access j pte then Paddr (leaf_paddr j pte va) else XFault)"
proof (cases "riscv_phys_read 8 s (pte_slot base va j)")
  case (PVal pte)
  then show ?thesis
    using leaf_ok_reading [OF assms, of pte s p] flag_bits(1) [of pte] xwr_reading(1) [of pte]
    by (auto simp: Let_def pte_slot_def leaf_paddr_def grants_leaf_def mask_eq_exp_minus_1)
qed (simp_all add: Let_def pte_slot_def)

lemma table_path_Suc_iff:
  "table_path s va (Suc k) base j pte \<longleftrightarrow>
     (\<exists>q. pte_at s (pte_slot base va k) q \<and> bit q 0
        \<and> (if is_pointer q then table_path s va k (push_bit PG_SHIFT (drop_bit 10 q)) j pte
           else j = k \<and> pte = q))"
  by (auto elim!: table_path_SucE intro: table_path.intros)

lemma walk_iff:
  assumes "access \<le> 2" and "n \<le> 4"
  shows "walk s p access va n base = Paddr pa \<longleftrightarrow>
    (\<exists>j pte. table_path s va n base j pte \<and> grants_leaf s p access j pte \<and> pa = leaf_paddr j pte va)"
  using assms(2)
proof (induction n arbitrary: base)
  case 0
  then show ?case by (auto elim: table_path_0E)
next
  case (Suc k)
  then have k: "k \<le> 3" by simp
  show ?case
  proof (cases "riscv_phys_read 8 s (pte_slot base va k)")
    case (PVal pte)
    then show ?thesis
      using Suc by (auto simp: walk_Suc [OF assms(1) k] table_path_Suc_iff pte_at_def
          simp del: walk.simps)
  qed (simp_all add: walk_Suc [OF assms(1) k] table_path_Suc_iff pte_at_def del: walk.simps)
qed

lemma canonical_bits:
  fixes va :: u64
  assumes "sh < 64"
  shows "signed_drop_bit sh (push_bit sh va) = va \<longleftrightarrow>
    (\<forall>n < 64. 63 - sh \<le> n \<longrightarrow> bit va n = bit va (63 - sh))"
proof -
  have sdb: "bit (signed_drop_bit sh (push_bit sh va)) n
      = bit va (if 64 - sh \<le> n then 63 - sh else n)" if "n < 64" for n
    using that assms by (auto simp: bit_signed_drop_bit_iff bit_push_bit_iff)
  have "signed_drop_bit sh (push_bit sh va) = va \<longleftrightarrow>
      (\<forall>n < 64. bit (signed_drop_bit sh (push_bit sh va)) n = bit va n)"
    by (auto intro: bit_word_eqI)
  also have "\<dots> \<longleftrightarrow> (\<forall>n < 64. 63 - sh \<le> n \<longrightarrow> bit va n = bit va (63 - sh))"
  proof (intro all_cong1 imp_cong refl)
    fix n :: nat assume "n < 64"
    have "64 - sh \<le> n \<longleftrightarrow> 63 - sh \<le> n \<and> n \<noteq> 63 - sh" using assms by linarith
    then show "(bit (signed_drop_bit sh (push_bit sh va)) n = bit va n)
        = (63 - sh \<le> n \<longrightarrow> bit va n = bit va (63 - sh))"
      using sdb [OF \<open>n < 64\<close>] by auto
  qed
  finally show ?thesis .
qed

text \<open>
  C4. Address translation implements the Sv39 (three levels) and Sv48 (four levels) page tables,
  in both directions: it yields a physical address exactly when the virtual address is canonical
  and the path through valid pointer entries ends in a leaf entry that grants the access to the
  effective privilege; the address then takes the offset (of the page or superpage) from the
  virtual address and the rest from the entry. The alignment of a superpage is tested on one bit
  per level only.
\<close>

theorem translation_spec:
  fixes L :: nat
  defines "p s access \<equiv> effective_priv s (access = ACCESS_CODE)"
  assumes L: "L = 3 \<or> L = 4" and mode: "unat (drop_bit 60 (satp s) AND 0xf) = 5 + L"
    and acc: "access \<le> 2" and priv: "p s access \<noteq> PRV_M"
  shows "riscv_cpu_get_phys_addr s va access = Paddr pa \<longleftrightarrow>
    (\<forall>n < 64. 11 + 9 * L \<le> n \<longrightarrow> bit va n = bit va (11 + 9 * L))
    \<and> (\<exists>j pte. table_path s va L (push_bit PG_SHIFT (take_bit 44 (satp s))) j pte
         \<and> pte_grants s (p s access) access pte \<and> (\<forall>i < j. \<not> bit pte (10 + i))
         \<and> (\<forall>n. bit pa n \<longleftrightarrow> n < 64 \<and> (if n < 12 + 9 * j then bit va n else bit pte (n - 2))))"
proof -
  have pa: "pa = leaf_paddr j pte va \<longleftrightarrow>
      (\<forall>n. bit pa n \<longleftrightarrow> n < 64 \<and> (if n < 12 + 9 * j then bit va n else bit pte (n - 2)))" for j pte
    unfolding bit_leaf_paddr [symmetric] by (auto intro: bit_word_eqI)
  have root: "satp s AND (push_bit 44 1 - 1) = take_bit 44 (satp s)"
    by (simp add: take_bit_eq_mask mask_eq_exp_minus_1)
  have L4: "L \<le> 4" using L by auto
  let ?root = "push_bit PG_SHIFT (take_bit 44 (satp s))"
  have get: "riscv_cpu_get_phys_addr s va access =
      (if signed_drop_bit (52 - 9 * L) (push_bit (52 - 9 * L) va) \<noteq> va then XFault
       else walk s (p s access) access va L ?root)"
    using L priv unfolding riscv_cpu_get_phys_addr_def Let_def mode root p_def
    by (elim disjE) simp_all
  have can: "signed_drop_bit (52 - 9 * L) (push_bit (52 - 9 * L) va) = va
      \<longleftrightarrow> (\<forall>n < 64. 11 + 9 * L \<le> n \<longrightarrow> bit va n = bit va (11 + 9 * L))"
    using canonical_bits [of "52 - 9 * L" va] L by (elim disjE) simp_all
  have wlk: "walk s (p s access) access va L ?root = Paddr pa \<longleftrightarrow>
      (\<exists>j pte. table_path s va L ?root j pte \<and> pte_grants s (p s access) access pte
         \<and> (\<forall>i < j. \<not> bit pte (10 + i)) \<and> pa = leaf_paddr j pte va)"
    using walk_iff [OF acc L4, of s "p s access" va ?root pa] by (simp only: grants_leaf_def conj_assoc)
  show ?thesis unfolding pa [symmetric] get can [symmetric] wlk [symmetric] by auto
qed

text \<open>
  A machine with one RAM range at 0, whose host block starts at 0x7000: the Sv39 root table at
  0x1000 maps the first gigabyte of supervisor space to 0x40000000 with one leaf entry.
\<close>

definition walk_example :: hart where
  "walk_example = RISCVCPUState.extend (zero_cpu\<lparr>priv := PRV_S, satp := 0x8000000000000001\<rparr>)
     \<lparr>machine = zero_machine
       \<lparr>mem_map := (case register_ram_entry phys_mem_map_init 0 0x2000 0 of
            Some (i, mm) \<Rightarrow> set_range mm i ((phys_mem_range mm i)\<lparr>phys_mem := 0x7000\<rparr>)
          | None \<Rightarrow> phys_mem_map_init),
        host_mem := store_le 8 (\<lambda>_. 0) 0x8000 0x10000043\<rparr>\<rparr>"

lemma walk_example_read: "riscv_phys_read 8 walk_example 0x1000 = PVal 0x10000043"
proof -
  have "load_le 8 (store_le 8 (\<lambda>_. 0) 0x8000 0x10000043) 0x8000 = 0x10000043"
    using le.load_store [of 8 "\<lambda>_. 0" "0x8000" "0x10000043"] by simp
  then show ?thesis
    by (simp add: riscv_phys_read_def get_phys_mem_range_pmp_def riscv_cpu_pmp_access_ok_def
        get_phys_mem_range_def in_range_def walk_example_def RISCVCPUState.defs zero_machine_def
        register_ram_entry_def phys_mem_map_init_def set_range_def Let_def host_ptr_def)
qed

lemma walk_example_satp: "satp walk_example = 0x8000000000000001"
  "mstatus walk_example = 0" "priv walk_example = PRV_S"
  by (simp_all add: walk_example_def RISCVCPUState.defs zero_cpu_def)

lemma walk_example_get: "riscv_cpu_get_phys_addr walk_example 0x123 ACCESS_READ = Paddr 0x40000123"
  by (simp add: riscv_cpu_get_phys_addr_def walk_example_satp walk_example_read effective_priv_def
      numeral_3_eq_3 Let_def leaf_ok_def)

theorem translation_spec_witness:
  "\<exists>j pte. table_path walk_example 0x123 3 0x1000 j pte
     \<and> pte_grants walk_example PRV_S ACCESS_READ pte \<and> (\<forall>i < j. \<not> bit pte (10 + i))"
proof -
  have e: "effective_priv walk_example (ACCESS_READ = ACCESS_CODE) = PRV_S"
    and r: "push_bit PG_SHIFT (take_bit 44 (satp walk_example)) = 0x1000"
    and m: "unat (drop_bit 60 (satp walk_example) AND 0xf) = 5 + 3"
    by (simp_all add: effective_priv_def walk_example_satp take_bit_eq_mod)
  have "PRV_S \<noteq> PRV_M" by simp
  then show ?thesis
    using iffD1 [OF translation_spec [of 3 walk_example ACCESS_READ "0x123" "0x40000123",
        unfolded e r, OF _ m _ _] walk_example_get] by (simp del: One_nat_def) blast
qed

end
