(* ===== verification/Device_Laws.thy ===== *)
theory Device_Laws
  imports Mmu
begin

text \<open>
  Laws of the devices: the frame of every device access, stated once as the contract
  \<open>mmio_device\<close> and discharged for the devices of the machine; the timer comparator of the
  CLINT through 64-bit and 32-bit accesses; claim and completion of the PLIC.
\<close>

section \<open>What a device access can change\<close>

text \<open>
  Two states of a hart that agree on everything but the interrupt bits, the power-down flag, the
  cycle counter (which is the time base), the timer comparator and the enable mask.
\<close>

definition same_core :: "RISCVCPUState \<Rightarrow> RISCVCPUState \<Rightarrow> bool" where
  "same_core c c' \<longleftrightarrow>
     c'\<lparr>mip := mip c, power_down_flag := power_down_flag c, mcycle := mcycle c,
        timecmp := timecmp c, plic_enable_irq := plic_enable_irq c\<rparr> = c"

definition dev_step :: "RISCVMachine \<Rightarrow> RISCVMachine \<Rightarrow> bool" where
  "dev_step m m' \<longleftrightarrow>
     m'\<lparr>cpu_state := cpu_state m, plic_pending_irq := plic_pending_irq m,
        plic_served_irq := plic_served_irq m, plic_priority := plic_priority m, uart := uart m,
        dw_apb_uart := dw_apb_uart m, console_in := console_in m, console_out := console_out m\<rparr> = m
     \<and> (\<forall>i. same_core (cpu_state m i) (cpu_state m' i))"

lemma same_core_refl [simp]: "same_core c c"
  by (simp add: same_core_def)

lemma same_core_trans [trans]:
  assumes "same_core a b" and "same_core b c" shows "same_core a c"
proof -
  have "a = b\<lparr>mip := mip a, power_down_flag := power_down_flag a, mcycle := mcycle a,
      timecmp := timecmp a, plic_enable_irq := plic_enable_irq a\<rparr>"
    using assms(1) by (simp add: same_core_def)
  also have "b = c\<lparr>mip := mip b, power_down_flag := power_down_flag b, mcycle := mcycle b,
      timecmp := timecmp b, plic_enable_irq := plic_enable_irq b\<rparr>"
    using assms(2) by (simp add: same_core_def)
  finally show ?thesis by (simp add: same_core_def)
qed

lemma dev_step_refl [simp]: "dev_step m m"
  by (simp add: dev_step_def)

lemma dev_step_trans [trans]:
  assumes "dev_step a b" and "dev_step b c" shows "dev_step a c"
proof -
  have "a = b\<lparr>cpu_state := cpu_state a, plic_pending_irq := plic_pending_irq a,
        plic_served_irq := plic_served_irq a, plic_priority := plic_priority a, uart := uart a,
        dw_apb_uart := dw_apb_uart a, console_in := console_in a, console_out := console_out a\<rparr>"
    using assms(1) by (simp add: dev_step_def)
  also have "b = c\<lparr>cpu_state := cpu_state b, plic_pending_irq := plic_pending_irq b,
        plic_served_irq := plic_served_irq b, plic_priority := plic_priority b, uart := uart b,
        dw_apb_uart := dw_apb_uart b, console_in := console_in b, console_out := console_out b\<rparr>"
    using assms(2) by (simp add: dev_step_def)
  finally have "c\<lparr>cpu_state := cpu_state a, plic_pending_irq := plic_pending_irq a,
        plic_served_irq := plic_served_irq a, plic_priority := plic_priority a, uart := uart a,
        dw_apb_uart := dw_apb_uart a, console_in := console_in a, console_out := console_out a\<rparr> = a"
    by simp
  then show ?thesis using assms same_core_trans by (fastforce simp: dev_step_def)
qed

lemma dev_step_set_cpu [intro]:
  "same_core (cpu_state m i) c \<Longrightarrow> dev_step m (set_cpu i c m)"
  by (simp add: dev_step_def set_cpu_def)

lemma same_core_mip [simp, intro]:
  "same_core c (riscv_cpu_set_mip m c msk)" "same_core c (riscv_cpu_reset_mip c msk)"
  "same_core c (riscv_cpu_reset_mip (c\<lparr>timecmp := t\<rparr>) msk)"
  by (simp_all add: same_core_def riscv_cpu_set_mip_def riscv_cpu_reset_mip_def Let_def)

lemma same_core_fields [simp, intro]:
  "same_core c (c\<lparr>mcycle := v\<rparr>)" "same_core c (c\<lparr>plic_enable_irq := w\<rparr>)"
  by (simp_all add: same_core_def)

lemma dev_step_fields [simp, intro]:
  "dev_step m (m\<lparr>plic_pending_irq := v\<rparr>)" "dev_step m (m\<lparr>plic_served_irq := v\<rparr>)"
  "dev_step m (m\<lparr>plic_priority := f\<rparr>)" "dev_step m (m\<lparr>uart := u\<rparr>)"
  "dev_step m (m\<lparr>dw_apb_uart := d\<rparr>)" "dev_step m (m\<lparr>console_in := i\<rparr>)"
  "dev_step m (m\<lparr>console_out := i\<rparr>)" "dev_step m (m\<lparr>console_in := i, dw_apb_uart := d\<rparr>)"
  "dev_step m (m\<lparr>console_out := i, dw_apb_uart := d\<rparr>)"
  by (simp_all add: dev_step_def)

lemma uart_step: "dev_step m (snd (uart_read m off sz))" "dev_step m (uart_write m off v sz)"
  by (auto simp: uart_read_def uart_write_def console_read_def console_write_def Let_def
      split: list.splits option.splits)

lemma dw_apb_uart_read_step: "dw_apb_uart_read m off sz = Some (v, m') \<Longrightarrow> dev_step m m'"
  by (auto simp: dw_apb_uart_read_def console_read_def Let_def split: list.splits option.splits if_splits)

lemma dw_apb_uart_write_step: "dw_apb_uart_write m off v sz = Some m' \<Longrightarrow> dev_step m m'"
  by (auto simp: dw_apb_uart_write_def console_write_def Let_def split: if_splits)

lemma clint_step: "dev_step m (snd (clint_read m off sz))" "dev_step m (clint_write m off v sz)"
  by (auto simp: clint_read_def clint_write_def Let_def)

lemma plic_update_step: "plic_update_mip m h = Some m' \<Longrightarrow> dev_step m m'"
  by (auto simp: plic_update_mip_def cpu_at_def Let_def split: option.splits if_splits)

lemma plic_read_step: "plic_read m off sz = Some (v, m') \<Longrightarrow> dev_step m m'"
  by (auto simp: plic_read_def Let_def split: option.splits if_splits
      dest!: plic_update_step intro: dev_step_trans)

lemma plic_write_step: "plic_write m off v sz = Some m' \<Longrightarrow> dev_step m m'"
  by (auto simp: plic_write_def Let_def cpu_at_def split: option.splits if_splits)

lemma read_steps:
  "uart_read m off sz = (v, m') \<Longrightarrow> dev_step m m'" "clint_read m off sz = (v, m') \<Longrightarrow> dev_step m m'"
  using uart_step(1) [of m off sz] clint_step(1) [of m off sz] by simp_all

lemmas device_steps = uart_step dw_apb_uart_read_step dw_apb_uart_write_step clint_step
  plic_read_step plic_write_step

lemma device_reads: "device_read d m off sz = Some (v, m') \<Longrightarrow> dev_step m m'"
  by (cases d) (auto simp: mmio_read_def intro: device_steps dest: read_steps)

lemma device_writes: "device_write d m off w sz = Some m' \<Longrightarrow> dev_step m m'"
  by (cases d) (auto simp: mmio_write_def intro: device_steps)

section \<open>The contract of a device\<close>

text \<open>
  What the memory system relies on: the two callbacks of a device change nothing but device state.
  A 64-bit access to a device of 32-bit registers is two calls, and keeps the contract.
\<close>

locale mmio_device =
  fixes rd :: "RISCVMachine \<Rightarrow> u32 \<Rightarrow> nat \<Rightarrow> (u32 \<times> RISCVMachine) option"
    and wr :: "RISCVMachine \<Rightarrow> u32 \<Rightarrow> u32 \<Rightarrow> nat \<Rightarrow> RISCVMachine option"
  assumes rd_frame: "rd m off sz = Some (v, m') \<Longrightarrow> dev_step m m'"
    and wr_frame: "wr m off w sz = Some m' \<Longrightarrow> dev_step m m'"
begin

lemma two_reads:
  "Option.bind (rd m a sz) (\<lambda>(l, m). map_option (\<lambda>(k, m). (f l k, m)) (rd m b sz)) = Some (v, m')
   \<Longrightarrow> dev_step m m'"
  by (auto simp: bind_eq_Some_conv dest!: rd_frame intro: dev_step_trans)

lemma two_writes:
  "Option.bind (wr m a x sz) (\<lambda>m. map_option (Pair ()) (wr m b y sz)) = Some (u, m') \<Longrightarrow> dev_step m m'"
  by (auto simp: bind_eq_Some_conv dest!: wr_frame intro: dev_step_trans)

end

interpretation dev: mmio_device "device_read d" "device_write d" for d
  by unfold_locales (auto dest: device_reads device_writes)

lemma device_load_frame: "device_load pr off sz m = Some (v, m') \<Longrightarrow> dev_step m m'"
  by (auto simp: device_load_def split: if_splits dest: dev.rd_frame dev.two_reads)

lemma device_store_frame: "device_store pr off w sz m = Some (u, m') \<Longrightarrow> dev_step m m'"
  by (auto simp: device_store_def split: if_splits dest: dev.wr_frame dev.two_writes)

text \<open>
  C32. A device access leaves the rest of the machine alone: whatever device answers, at whatever
  offset and width, and also when a 64-bit access is split in two, memory, the memory map and the
  configuration are unchanged, and of every hart only the interrupt bits, the power-down flag, the
  cycle counter, the timer comparator and the interrupt enable mask can differ.
\<close>

theorem device_frame:
  "(device_load pr off sz m = Some (v, m') \<longrightarrow> dev_step m m')
   \<and> (device_store pr off w sz m = Some (u, m'') \<longrightarrow> dev_step m m'')"
  using device_load_frame device_store_frame by blast

section \<open>Timer\<close>

lemma set_cpu_simps [simp]:
  "cpu_state (set_cpu i c m) = (cpu_state m)(i := c)" "ncpus (set_cpu i c m) = ncpus m"
  by (simp_all add: set_cpu_def)

lemma reset_mip_simps [simp]:
  "timecmp (riscv_cpu_reset_mip c k) = timecmp c" "mip (riscv_cpu_reset_mip c k) = mip c AND NOT k"
  by (simp_all add: riscv_cpu_reset_mip_def)

lemma small_of_nat:
  assumes "h < 8"
  shows "unat (of_nat h :: u32) = h" and "(of_nat h :: u32) < 8"
  using assms by (simp_all add: unat_of_nat word_less_nat_alt)

lemma timer_offset:
  fixes h :: nat
  assumes "h < 8"
  defines "lo \<equiv> 0x4000 + 8 * (of_nat h :: u32)"
  shows "\<not> lo < 0x4000" "lo < 0xbff8" "\<not> lo + 4 < 0x4000" "lo + 4 < 0xbff8"
    "lo \<noteq> 0xbff8" "lo \<noteq> 0xbffc" "lo + 4 \<noteq> 0xbff8" "lo + 4 \<noteq> 0xbffc"
    "unat (drop_bit 3 (lo - 0x4000)) = h" "unat (drop_bit 3 (lo + 4 - 0x4000)) = h"
    "drop_bit 2 lo AND 1 = 0" "drop_bit 2 (lo + 4) AND 1 \<noteq> 0"
proof -
  have "h \<in> {0, 1, 2, 3, 4, 5, 6, 7}" using assms(1) by auto
  then show "\<not> lo < 0x4000" "lo < 0xbff8" "\<not> lo + 4 < 0x4000" "lo + 4 < 0xbff8"
    "lo \<noteq> 0xbff8" "lo \<noteq> 0xbffc" "lo + 4 \<noteq> 0xbff8" "lo + 4 \<noteq> 0xbffc"
    "unat (drop_bit 3 (lo - 0x4000)) = h" "unat (drop_bit 3 (lo + 4 - 0x4000)) = h"
    "drop_bit 2 lo AND 1 = 0" "drop_bit 2 (lo + 4) AND 1 \<noteq> 0"
    unfolding lo_def by (elim insertE emptyE; simp)+
qed

lemma word_halves:
  fixes v :: u64
  shows "(ucast (ucast (v AND 0xffffffff) :: u32) AND 0xffffffff)
      OR push_bit 32 (ucast (ucast (drop_bit 32 v AND 0xffffffff) :: u32)) = v"
    and "(ucast (ucast v :: u32) :: u64) OR push_bit 32 (ucast (ucast (drop_bit 32 v) :: u32)) = v"
proof -
  have m: "(0xffffffff :: u64) = mask 32" by (simp add: mask_eq_exp_minus_1)
  show "(ucast (ucast (v AND 0xffffffff) :: u32) AND 0xffffffff)
      OR push_bit 32 (ucast (ucast (drop_bit 32 v AND 0xffffffff) :: u32)) = v"
    unfolding m by (rule bit_word_eqI) (auto simp: bit_simps)
  show "(ucast (ucast v :: u32) :: u64) OR push_bit 32 (ucast (ucast (drop_bit 32 v) :: u32)) = v"
    by (rule bit_word_eqI) (auto simp: bit_simps)
qed

lemma clint_timer:
  fixes h :: nat
  defines "lo \<equiv> 0x4000 + 8 * (of_nat h :: u32)"
  assumes h: "h < ncpus m" "h < 8"
  shows "clint_write m lo w 2 = set_cpu h (riscv_cpu_reset_mip
           ((cpu_state m h)\<lparr>timecmp := ucast w\<rparr>) MIP_MTIP) m"
    and "clint_write m (lo + 4) w 2 = set_cpu h (riscv_cpu_reset_mip ((cpu_state m h)
           \<lparr>timecmp := (timecmp (cpu_state m h) AND 0xffffffff) OR push_bit 32 (ucast w)\<rparr>) MIP_MTIP) m"
    and "clint_read m lo 2 = (ucast (timecmp (cpu_state m h)), m)"
    and "clint_read m (lo + 4) 2 = (ucast (drop_bit 32 (timecmp (cpu_state m h))), m)"
  using h(1) timer_offset [OF h(2)] unfolding lo_def
  by (simp_all add: clint_write_def clint_read_def clint_size_mask_def Let_def)

lemma split_access:
  assumes "pr_device pr = DEV_CLINT" and "devio_flags pr = 7"
  shows "device_store pr off v 3 m = Some ((), clint_write (clint_write m (ucast off)
           (ucast (v AND 0xffffffff)) 2) (ucast (off + 4)) (ucast (drop_bit 32 v AND 0xffffffff)) 2)"
    and "device_load pr off 3 m = (let (l, m1) = clint_read m (ucast off) 2;
           (k, m2) = clint_read m1 (ucast (off + 4)) 2
         in Some (ucast l OR push_bit 32 (ucast k), m2))"
  using assms by (simp_all add: device_store_def device_load_def split: prod.splits)

text \<open>
  C33. The comparator of every hart can be set by one 64-bit store: the store is split into a
  write of the lower and a write of the upper word, afterwards the comparator holds the stored
  value, a 64-bit load reads it back without changing the machine, the timer interrupt of that
  hart is no longer pending, and no other hart is affected.
\<close>

theorem mtimecmp_roundtrip:
  fixes h :: nat
  defines "off \<equiv> 0x4000 + 8 * (of_nat h :: u64)"
  assumes h: "h < ncpus m" "h < MAX_CPUS" and dev: "pr_device pr = DEV_CLINT" "devio_flags pr = 7"
  shows "\<exists>m'. device_store pr off v 3 m = Some ((), m')
     \<and> timecmp (cpu_state m' h) = v \<and> device_load pr off 3 m' = Some (v, m')
     \<and> mip (cpu_state m' h) AND MIP_MTIP = 0
     \<and> (\<forall>i. i \<noteq> h \<longrightarrow> cpu_state m' i = cpu_state m i)"
proof -
  have h8: "h < 8" using h(2) by simp
  have off: "(ucast off :: u32) = 0x4000 + 8 * of_nat h" "(ucast (off + 4) :: u32) = 0x4000 + 8 * of_nat h + 4"
  proof -
    have "h \<in> {0, 1, 2, 3, 4, 5, 6, 7}" using h8 by auto
    then show "(ucast off :: u32) = 0x4000 + 8 * of_nat h" "(ucast (off + 4) :: u32) = 0x4000 + 8 * of_nat h + 4"
      unfolding off_def by (elim insertE emptyE; simp)+
  qed
  define c where "c = cpu_state m h"
  define m1 where "m1 = set_cpu h (riscv_cpu_reset_mip (c\<lparr>timecmp := ucast (ucast (v AND 0xffffffff) :: u32)\<rparr>) MIP_MTIP) m"
  define m' where "m' = set_cpu h (riscv_cpu_reset_mip (c\<lparr>timecmp := v\<rparr>) MIP_MTIP) m"
  have n: "h < ncpus m1" "h < ncpus m'" using h by (simp_all add: m1_def m'_def)
  have "device_store pr off v 3 m = Some ((), m')"
    unfolding split_access(1) [OF dev] off clint_timer(1) [OF h(1) h8] c_def [symmetric]
    unfolding m1_def [symmetric] clint_timer(2) [OF n(1) h8]
    using word_halves(1) [of v] by (simp add: m1_def m'_def riscv_cpu_reset_mip_def set_cpu_def)
  moreover have "device_load pr off 3 m' = Some (v, m')"
    unfolding split_access(2) [OF dev] off clint_timer(3,4) [OF n(2) h8] Let_def prod.case
    using word_halves(2) [of v] by (simp add: m'_def)
  moreover have "(mip (cpu_state m h) AND NOT MIP_MTIP) AND MIP_MTIP = 0"
    by (simp add: and.assoc)
  ultimately show ?thesis by (auto simp: m'_def c_def)
qed

text \<open>The CLINT range of the example: registered with 8, 16 and 32-bit accesses.\<close>

definition clint_example :: PhysMemoryRange where
  "clint_example = (phys_mem_range phys_mem_map_init 0)
     \<lparr>pr_addr := 0x2000000, pr_size := 0xc0000, pr_device := DEV_CLINT, devio_flags := 7\<rparr>"

theorem mtimecmp_roundtrip_witness:
  "\<exists>m'. device_store clint_example 0x4008 0x123456789abcdef0 3 (zero_machine\<lparr>ncpus := 2\<rparr>) = Some ((), m')
     \<and> device_load clint_example 0x4008 3 m' = Some (0x123456789abcdef0, m')"
  using mtimecmp_roundtrip [of 1 "zero_machine\<lparr>ncpus := 2\<rparr>" clint_example "0x123456789abcdef0"]
  by (auto simp: clint_example_def)

theorem device_frame_witness:
  "dev_step zero_machine (clint_write zero_machine 0xbff8 7 2)"
  using device_frame [of clint_example "0xbff8" 2 zero_machine 0 zero_machine 7 "()"
      "clint_write zero_machine 0xbff8 7 2"] by (simp add: device_store_def clint_example_def)

text \<open>
  A 32-bit write of the lower word of a comparator loses its upper word: software that writes
  the upper word first and the lower word second, as the privileged specification suggests,
  leaves the comparator with an upper word of zero.
\<close>

theorem mtimecmp_low_write_drops_high:
  assumes "h < ncpus m" and "h < MAX_CPUS"
  shows "timecmp (cpu_state (clint_write (clint_write m (0x4000 + 8 * of_nat h + 4) hi 2)
             (0x4000 + 8 * of_nat h) lo 2) h) = ucast lo"
proof -
  have h8: "h < 8" using assms(2) by simp
  have "h < ncpus (clint_write m (0x4000 + 8 * of_nat h + 4) hi 2)"
    unfolding clint_timer(2) [OF assms(1) h8] using assms(1) by simp
  from clint_timer(1) [OF this h8] show ?thesis by simp
qed

theorem mtimecmp_low_write_drops_high_witness:
  "timecmp (cpu_state (clint_write (clint_write (zero_machine\<lparr>ncpus := 1\<rparr>) 0x4004 5 2) 0x4000 6 2) 0) = 6"
  using mtimecmp_low_write_drops_high [of 0 "zero_machine\<lparr>ncpus := 1\<rparr>" 5 6] by simp

section \<open>Claim and completion\<close>

lemma context_offset:
  fixes h :: nat
  assumes "h < 8"
  defines "off \<equiv> 0x200010 + 0x1000 * (of_nat h :: u32)"
  shows "\<not> off < 4 + push_bit 2 127" "\<not> off < 0x1000 + drop_bit 3 127" "\<not> off < 0x2000 + 0x80 * of_nat MAX_CPUS"
    "0x200000 \<le> off" "off < 0x200000 + 0x1000 * of_nat MAX_CPUS"
    "unat ((off - 0x200000) div 0x1000) = h" "drop_bit 2 (off AND (0x1000 - 1)) = 4"
proof -
  have "h \<in> {0, 1, 2, 3, 4, 5, 6, 7}" using assms(1) by auto
  then show "\<not> off < 4 + push_bit 2 127" "\<not> off < 0x1000 + drop_bit 3 127"
    "\<not> off < 0x2000 + 0x80 * of_nat MAX_CPUS" "0x200000 \<le> off"
    "off < 0x200000 + 0x1000 * of_nat MAX_CPUS"
    "unat ((off - 0x200000) div 0x1000) = h" "drop_bit 2 (off AND (0x1000 - 1)) = 4"
    unfolding off_def by (elim insertE emptyE; simp)+
qed

lemma set_mip_mip: "mip (riscv_cpu_set_mip m c k) = mip c OR k"
  by (simp add: riscv_cpu_set_mip_def Let_def)

definition claim_reg :: "nat \<Rightarrow> u32" where
  "claim_reg h = 0x200010 + 0x1000 * of_nat h"

lemma plic_claim:
  assumes "h < 8"
  shows "plic_read m (claim_reg h) 2 =
      (let msk = plic_pending_irq m AND NOT (plic_served_irq m); i = ctz32 msk in
       if msk \<noteq> 0
       then map_option (Pair (of_nat (i + 1)))
              (plic_update_mip (m\<lparr>plic_served_irq := plic_served_irq m OR push_bit i 1\<rparr>) h)
       else Some (0, m))"
    and "plic_write m (claim_reg h) v 2 =
      Some (m\<lparr>plic_served_irq := plic_served_irq m AND NOT (irq_bit (unat (v AND 31)))\<rparr>)"
  unfolding plic_read_def plic_write_def claim_reg_def Let_def
  using context_offset [OF assms] by (auto split: option.splits)

lemma irq_bit_claim:
  assumes "i < 32"
  shows "irq_bit (unat ((of_nat (i + 1) :: u32) AND 31)) = push_bit i 1"
proof -
  have m: "(31 :: u32) = mask 5" by (simp add: mask_eq_exp_minus_1)
  have "unat ((of_nat (i + 1) :: u32) AND 31) = (i + 1) mod 32"
    unfolding m using assms
    by (simp only: take_bit_eq_mask [symmetric] unsigned_take_bit_eq unat_of_nat)
      (simp add: take_bit_eq_mod)
  then have "irq_bit (unat ((of_nat (i + 1) :: u32) AND 31)) = push_bit (((i + 1) mod 32 + 31) mod 32) 1"
    by (simp only: irq_bit_def)
  moreover have "((i + 1) mod 32 + 31) mod 32 = i"
    using assms by (cases "i = 31") simp_all
  ultimately show ?thesis by simp
qed

text \<open>
  C23. Claiming an interrupt returns the number of the lowest pending source that is not being
  served, marks it as served and updates the external interrupt bits of the claiming hart;
  completing that number makes the source available again. With nothing to claim, the register
  reads 0. Completion does not raise the interrupt bits again, so a source that is still pending
  is signalled only at the next change of an interrupt line.
\<close>

theorem plic_claim_complete:
  fixes m :: RISCVMachine
  defines "avail \<equiv> plic_pending_irq m AND NOT (plic_served_irq m)"
  assumes h: "h < ncpus m" "h < MAX_CPUS"
  shows "if avail = 0 then plic_read m (claim_reg h) 2 = Some (0, m)
    else \<exists>i m1 m2. i < 32 \<and> bit avail i \<and> (\<forall>j < i. \<not> bit avail j)
      \<and> plic_read m (claim_reg h) 2 = Some (of_nat (i + 1), m1)
      \<and> plic_served_irq m1 = plic_served_irq m OR push_bit i 1
      \<and> (mip (cpu_state m1 h) AND (MIP_MEIP OR MIP_SEIP) \<noteq> 0 \<longleftrightarrow> avail AND NOT (push_bit i 1) \<noteq> 0)
      \<and> plic_write m1 (claim_reg h) (of_nat (i + 1)) 2 = Some m2
      \<and> plic_served_irq m2 = plic_served_irq m \<and> cpu_state m2 = cpu_state m1"
proof (cases "avail = 0")
  case True
  then show ?thesis using h plic_claim(1) [of h m] by (simp add: avail_def)
next
  case False
  define i where "i = ctz32 avail"
  note least = ctz32_least [OF False, folded i_def]
  define m1 where "m1 = the (plic_update_mip (m\<lparr>plic_served_irq := plic_served_irq m OR push_bit i 1\<rparr>) h)"
  have h8: "h < 8" using h(2) by simp
  have upd: "plic_update_mip (m\<lparr>plic_served_irq := plic_served_irq m OR push_bit i 1\<rparr>) h = Some m1"
    using h by (simp add: m1_def plic_update_mip_def cpu_at_def Let_def)
  have rd: "plic_read m (claim_reg h) 2 = Some (of_nat (i + 1), m1)"
    unfolding plic_claim(1) [OF h8] Let_def avail_def [symmetric] i_def [symmetric] upd
    using False by simp
  have rest: "plic_pending_irq m AND NOT (plic_served_irq m OR push_bit i 1) = avail AND NOT (push_bit i 1)"
    by (simp add: avail_def and.assoc bit.de_Morgan_disj)
  have served: "plic_served_irq m1 = plic_served_irq m OR push_bit i 1"
    using upd h by (auto simp: plic_update_mip_def cpu_at_def Let_def set_cpu_def split: if_splits)
  have irq: "mip (cpu_state m1 h) AND (MIP_MEIP OR MIP_SEIP) \<noteq> 0 \<longleftrightarrow> avail AND NOT (push_bit i 1) \<noteq> 0"
  proof -
    have k: "(x OR k) AND k = k" "(x AND NOT k) AND k = 0" for x k :: u32
      by (rule bit_word_eqI; auto simp: bit_simps)+
    have "(MIP_MEIP OR MIP_SEIP :: u32) \<noteq> 0" by simp
    then show ?thesis using upd h rest
        k [of "mip (cpu_state m h)" "MIP_MEIP OR MIP_SEIP"]
      by (auto simp: plic_update_mip_def cpu_at_def Let_def set_mip_mip split: if_splits)
  qed
  have "(plic_served_irq m OR push_bit i 1) AND NOT (push_bit i 1) = plic_served_irq m"
  proof (rule bit_word_eqI)
    fix n assume "n < LENGTH(32)"
    have "\<not> bit (plic_served_irq m) i" using least(1) by (simp add: avail_def bit_simps)
    then show "bit ((plic_served_irq m OR push_bit i 1) AND NOT (push_bit i 1)) n = bit (plic_served_irq m) n"
      using \<open>n < LENGTH(32)\<close> by (auto simp: bit_simps)
  qed
  then have wr: "plic_write m1 (claim_reg h) (of_nat (i + 1)) 2 = Some (m1\<lparr>plic_served_irq := plic_served_irq m\<rparr>)"
    unfolding plic_claim(2) [OF h8] irq_bit_claim [OF least(3)] served by simp
  show ?thesis
    using False least rd served irq wr
    by (auto intro!: exI [of _ i] exI [of _ m1] exI [of _ "m1\<lparr>plic_served_irq := plic_served_irq m\<rparr>"])
qed

theorem plic_claim_complete_witness:
  "\<exists>i m1. i < 32 \<and> plic_read (zero_machine\<lparr>ncpus := 1, plic_pending_irq := 6\<rparr>) (claim_reg 0) 2
     = Some (of_nat (i + 1), m1) \<and> plic_served_irq m1 = push_bit i 1"
proof -
  have "(6 :: u32) \<noteq> 0" by simp
  then show ?thesis
    using plic_claim_complete [of 0 "zero_machine\<lparr>ncpus := 1, plic_pending_irq := 6\<rparr>"]
    by (auto simp: zero_machine_def)
qed

end
