(* ===== verification/Csr_Laws.thy ===== *)
theory Csr_Laws
  imports Csr
begin

text \<open>
  Laws of the control registers: which bits a write to \<open>mstatus\<close> and to \<open>sstatus\<close> changes
  and what is read back, the lock bits of the protection configuration, and the decoding of
  naturally aligned protection regions. Masks are compared bit by bit with the field positions of
  the privileged architecture.
\<close>

section \<open>mstatus and sstatus\<close>

text \<open>The positions of the fields that a write to \<open>mstatus\<close> changes in the stored word.\<close>

definition mstatus_writable :: "nat set" where
  "mstatus_writable = {1, 3, 5, 7, 8, 11, 12, 17, 18, 19, 20, 21, 22}"

lemma push_1_bit: "k < 64 \<Longrightarrow> bit (push_bit k 1 :: u64) n \<longleftrightarrow> n = k"
  by (auto simp: bit_exp_iff)

lemma writable_mask:
  "bit (MSTATUS_MASK AND NOT (MSTATUS_FS OR MSTATUS_UXL_MASK OR MSTATUS_SXL_MASK) :: u64) n
     \<longleftrightarrow> n \<in> mstatus_writable"
proof -
  have e: "(MSTATUS_MASK AND NOT (MSTATUS_FS OR MSTATUS_UXL_MASK OR MSTATUS_SXL_MASK) :: u64)
      = push_bit 1 1 OR push_bit 3 1 OR push_bit 5 1 OR push_bit 7 1 OR push_bit 8 1 OR push_bit 11 1
        OR push_bit 12 1 OR push_bit 17 1 OR push_bit 18 1 OR push_bit 19 1 OR push_bit 20 1
        OR push_bit 21 1 OR push_bit 22 1" by simp
  show ?thesis unfolding e bit_or_iff mstatus_writable_def by (simp only: push_1_bit) simp
qed

lemma set_mstatus_mstatus:
  "mstatus (set_mstatus s v) =
     (mstatus s AND NOT (MSTATUS_MASK AND NOT (MSTATUS_FS OR MSTATUS_UXL_MASK OR MSTATUS_SXL_MASK)))
     OR (v AND (MSTATUS_MASK AND NOT (MSTATUS_FS OR MSTATUS_UXL_MASK OR MSTATUS_SXL_MASK)))"
  by (simp only: set_mstatus_def Let_def RISCVCPUState.simps tlb_flush_all_def tlb_init_def split: if_split) simp

lemma merge_bit: "bit ((a AND NOT m) OR (v AND m)) n = (if bit m n then bit v n else bit (a :: u64) n)"
  by (auto simp: bit_simps dest: bit_imp_le_length)

lemma set_mstatus_bit:
  "bit (mstatus (set_mstatus s v)) n = (if n \<in> mstatus_writable then bit v n else bit (mstatus s) n)"
  unfolding set_mstatus_mstatus merge_bit writable_mask ..

lemma set_mstatus_fs: "fs (set_mstatus s v) = ucast (drop_bit MSTATUS_FS_SHIFT v AND 3)"
  by (simp add: set_mstatus_def Let_def)

text \<open>
  The stored status word never holds the FS, XS and SD fields: FS is kept separately, XS and SD
  are derived.
\<close>

definition mstatus_wf :: "'a RISCVCPUState_scheme \<Rightarrow> bool" where
  "mstatus_wf s \<longleftrightarrow> (\<forall>n \<in> {13, 14, 15, 16, 63}. \<not> bit (mstatus s) n) \<and> fs s \<le> 3"

lemma FS_bits: "bit (push_bit MSTATUS_FS_SHIFT (ucast (f :: u8)) :: u64) n \<longleftrightarrow> 13 \<le> n \<and> bit f (n - 13)"
  by (auto simp: bit_push_bit_iff bit_ucast_iff dest: bit_imp_le_length)

lemma field_literals:
  "bit (0x6000 :: u64) n \<longleftrightarrow> n = 13 \<or> n = 14" "bit (0x18000 :: u64) n \<longleftrightarrow> n = 15 \<or> n = 16"
proof -
  have "bit (0x6000 :: u64) n = bit (push_bit 13 1 OR push_bit 14 1 :: u64) n"
    "bit (0x18000 :: u64) n = bit (push_bit 15 1 OR push_bit 16 1 :: u64) n" by simp_all
  then show "bit (0x6000 :: u64) n \<longleftrightarrow> n = 13 \<or> n = 14" "bit (0x18000 :: u64) n \<longleftrightarrow> n = 15 \<or> n = 16"
    unfolding bit_or_iff by (simp_all only: push_1_bit)
qed

lemma and_absorb_iff: "(v :: u64) AND f = f \<longleftrightarrow> (\<forall>n. bit f n \<longrightarrow> bit v n)"
proof
  assume "v AND f = f"
  then show "\<forall>n. bit f n \<longrightarrow> bit v n" by (metis bit_and_iff)
next
  assume "\<forall>n. bit f n \<longrightarrow> bit v n"
  then show "v AND f = f" by (intro bit_word_eqI) (auto simp: bit_and_iff)
qed

lemma full_field:
  "(v :: u64) AND MSTATUS_FS = MSTATUS_FS \<longleftrightarrow> bit v 13 \<and> bit v 14"
  "v AND MSTATUS_XS = MSTATUS_XS \<longleftrightarrow> bit v 15 \<and> bit v 16"
  unfolding and_absorb_iff field_literals by auto

lemma get_mstatus_bit:
  "bit (get_mstatus s msk) n \<longleftrightarrow>
     (let v = (mstatus s OR push_bit MSTATUS_FS_SHIFT (ucast (fs s))) AND msk in
      bit v n \<or> n = 63 \<and> (bit v 13 \<and> bit v 14 \<or> bit v 15 \<and> bit v 16))"
  unfolding get_mstatus_def Let_def full_field by (auto simp: bit_or_iff push_1_bit simp del: push_bit_of_1)

lemma fs_field_bit:
  "bit (ucast (drop_bit MSTATUS_FS_SHIFT v AND 3) :: u8) n \<longleftrightarrow> n < 2 \<and> bit (v :: u64) (13 + n)"
proof -
  have m: "(3 :: u64) = mask 2" by (simp add: mask_eq_exp_minus_1)
  show ?thesis unfolding m by (auto simp: bit_ucast_iff bit_and_iff bit_mask_iff bit_drop_bit_eq)
qed

lemma fs_field_le: "(ucast (drop_bit MSTATUS_FS_SHIFT (v :: u64) AND 3) :: u8) \<le> 3"
proof -
  let ?w = "ucast (drop_bit MSTATUS_FS_SHIFT v AND 3) :: u8"
  have m: "(3 :: u8) = mask 2" by (simp add: mask_eq_exp_minus_1)
  have "?w AND 3 = ?w"
  proof (rule bit_word_eqI)
    fix n
    have "bit ?w n \<Longrightarrow> n < 2" using fs_field_bit [of v n] by simp
    then show "bit (?w AND 3) n = bit ?w n" unfolding m bit_and_iff bit_mask_iff by auto
  qed
  then show ?thesis using word_and_le1 [of ?w 3] by simp
qed

text \<open>
  C28. Writing \<open>mstatus\<close> and reading it back gives the written value in the writable fields
  (the enable and previous-privilege fields, MPRV, SUM, MXR, TVM, TW, TSR and FS) and the old value
  elsewhere, in particular in the read-only UXL and SXL fields; SD reads as one exactly when FS is
  dirty. The word that is stored stays free of the fields that are kept elsewhere or derived.
\<close>

theorem mstatus_write_read:
  fixes s :: RISCVCPUState
  assumes "mstatus_wf s"
  shows "mstatus_wf (set_mstatus s v)
    \<and> (\<forall>n < 63. bit (get_mstatus (set_mstatus s v) (- 1)) n =
         (if n \<in> mstatus_writable \<or> n = 13 \<or> n = 14 then bit v n else bit (mstatus s) n))
    \<and> bit (get_mstatus (set_mstatus s v) (- 1)) 63 = (bit v 13 \<and> bit v 14)"
proof -
  let ?s = "set_mstatus s v"
  have ro: "n \<notin> mstatus_writable" if "n \<in> {13, 14, 15, 16, 63}" for n
    using that by (auto simp: mstatus_writable_def)
  have wf: "mstatus_wf ?s"
    using assms ro fs_field_le unfolding mstatus_wf_def set_mstatus_bit set_mstatus_fs by auto
  have v: "bit ((mstatus ?s OR push_bit MSTATUS_FS_SHIFT (ucast (fs ?s))) AND - 1) n
      = (if n \<in> mstatus_writable then bit v n else if n = 13 \<or> n = 14 then bit v n else bit (mstatus s) n)" for n
  proof -
    have "13 \<le> n \<and> n - 13 < 2 \<longleftrightarrow> n = 13 \<or> n = 14" by linarith
    then show ?thesis
      using ro assms unfolding and_minus_numerals bit_or_iff FS_bits set_mstatus_bit set_mstatus_fs fs_field_bit
      by (auto simp: bit_or_iff FS_bits set_mstatus_bit mstatus_wf_def fs_field_bit)
  qed
  show ?thesis
    using wf ro assms unfolding get_mstatus_bit Let_def v by (auto simp: mstatus_wf_def)
qed

theorem mstatus_write_read_witness:
  "let s' = set_mstatus (zero_cpu\<lparr>mstatus := 0xA00000000\<rparr>) 0x6008
   in bit (get_mstatus s' (- 1)) 3 \<and> bit (get_mstatus s' (- 1)) 63 \<and> bit (get_mstatus s' (- 1)) 33"
proof -
  have "mstatus_wf (zero_cpu\<lparr>mstatus := 0xA00000000\<rparr>)" by (simp add: mstatus_wf_def zero_cpu_def)
  from mstatus_write_read [OF this, of "0x6008"] show ?thesis
    by (simp add: Let_def mstatus_writable_def)
qed

definition sstatus_writable :: "nat set" where
  "sstatus_writable = {1, 5, 8, 18, 19}"

lemma sstatus_mask: "bit (SSTATUS_MASK :: u64) n \<longleftrightarrow> n \<in> sstatus_writable \<union> {13, 14, 32, 33}"
proof -
  have e: "(SSTATUS_MASK :: u64) = push_bit 1 1 OR push_bit 5 1 OR push_bit 8 1 OR push_bit 13 1
      OR push_bit 14 1 OR push_bit 18 1 OR push_bit 19 1 OR push_bit 32 1 OR push_bit 33 1" by simp
  show ?thesis unfolding e bit_or_iff sstatus_writable_def by (simp only: push_1_bit) auto
qed

text \<open>
  C29. The supervisor's view of the status register cannot reach machine-level state: a write to
  \<open>sstatus\<close> succeeds, changes only SIE, SPIE, SPP, SUM, MXR and FS, sets exactly those to the
  written bits, and leaves the privilege and the rest of the status word as they were.
\<close>

theorem sstatus_write_confined:
  fixes s :: hart and val :: u64
  shows "let s' = snd (csr_write s 0x100 val) in
    fst (csr_write s 0x100 val) = 0 \<and> priv s' = priv s
    \<and> (\<forall>n. bit (mstatus s') n = (if n \<in> sstatus_writable then bit val n else bit (mstatus s) n))
    \<and> bit (fs s') 0 = bit val 13 \<and> bit (fs s') 1 = bit val 14"
proof -
  let ?v = "(mstatus s AND NOT SSTATUS_MASK) OR (val AND SSTATUS_MASK)"
  have w: "csr_write s 0x100 val = (0, set_mstatus s ?v)" by (simp add: csr_write_def)
  have "n \<in> sstatus_writable \<Longrightarrow> n \<in> mstatus_writable" "n \<in> mstatus_writable \<Longrightarrow> n \<notin> {13, 14, 32, 33}" for n
    by (auto simp: sstatus_writable_def mstatus_writable_def)
  then have "bit (mstatus (set_mstatus s ?v)) n = (if n \<in> sstatus_writable then bit val n else bit (mstatus s) n)" for n
    unfolding set_mstatus_bit merge_bit sstatus_mask by auto
  moreover have "bit (fs (set_mstatus s ?v)) n = bit val (13 + n)" if "n < 2" for n
  proof -
    have "13 + n \<in> {13, 14}" using that by auto
    then show ?thesis using that unfolding set_mstatus_fs fs_field_bit merge_bit sstatus_mask by auto
  qed
  moreover have "priv (set_mstatus s ?v) = priv s"
    by (simp add: set_mstatus_def Let_def tlb_flush_all_def tlb_init_def)
  ultimately show ?thesis
    by (simp only: Let_def w prod.sel) simp
qed

section \<open>Physical memory protection registers\<close>

lemma fold_or_bit:
  "bit (fold (\<lambda>i w. w OR f i) xs a) n \<longleftrightarrow> bit (a :: u64) n \<or> (\<exists>i \<in> set xs. bit (f i) n)"
  by (induction xs arbitrary: a) (auto simp: bit_or_iff)

lemma byte_and_literals:
  "bit (255 :: u64) n \<longleftrightarrow> n < 8" "bit (0x60 :: u64) n \<longleftrightarrow> n = 5 \<or> n = 6"
proof -
  have "bit (255 :: u64) n = bit (mask 8 :: u64) n" by (simp add: mask_eq_exp_minus_1)
  then show "bit (255 :: u64) n \<longleftrightarrow> n < 8" by (auto simp: bit_mask_iff)
  have "bit (0x60 :: u64) n = bit (push_bit 5 1 OR push_bit 6 1 :: u64) n" by simp
  then show "bit (0x60 :: u64) n \<longleftrightarrow> n = 5 \<or> n = 6" unfolding bit_or_iff by (simp only: push_1_bit)
qed

lemma merge_byte_bit:
  assumes "i < 8" shows "bit (pmpcfg_merge_byte orig val i) k \<longleftrightarrow>
    k < 8 \<and> k \<noteq> 5 \<and> k \<noteq> 6 \<and> (if bit orig (8 * i + 7) then bit orig (8 * i + k) else bit val (8 * i + k))"
proof -
  have "(drop_bit (i * 8) orig AND 255) AND PMPCFG_L = 0 \<longleftrightarrow> \<not> bit (drop_bit (i * 8) orig AND 255) 7"
    using and_exp_eq_0_iff_not_bit [of "drop_bit (i * 8) orig AND 255" 7] by simp
  also have "\<dots> \<longleftrightarrow> \<not> bit orig (8 * i + 7)"
    by (simp add: bit_and_iff bit_drop_bit_eq byte_and_literals mult.commute)
  finally have l: "(drop_bit (i * 8) orig AND 255) AND PMPCFG_L = 0 \<longleftrightarrow> \<not> bit orig (8 * i + 7)" .
  have sel: "bit ((drop_bit (i * 8) w AND 255) AND NOT PMPCFG_RES) k
      \<longleftrightarrow> k < 8 \<and> k \<noteq> 5 \<and> k \<noteq> 6 \<and> bit w (8 * i + k)" for w :: u64
    unfolding bit_and_iff bit_not_iff bit_drop_bit_eq comp_def byte_and_literals mult.commute [of i 8] by auto
  show ?thesis
    unfolding pmpcfg_merge_byte_def Let_def l
    by (cases "bit orig (8 * i + 7)") (simp_all only: not_True_eq_False not_False_eq_True if_True if_False sel)
qed

lemma pmpcfg_merge_bit:
  assumes "i < 8" and "k < 8"
  shows "bit (pmpcfg_merge orig val) (8 * i + k) = bit (pmpcfg_merge_byte orig val i) k"
proof -
  have "bit (push_bit (j * 8) (pmpcfg_merge_byte orig val j)) (8 * i + k)
      \<longleftrightarrow> j = i \<and> bit (pmpcfg_merge_byte orig val i) k" if j: "j < 8" for j
  proof (cases "j = i")
    case True
    then show ?thesis using assms by (simp add: bit_push_bit_iff mult.commute)
  next
    case False
    then have "j * 8 \<le> 8 * i + k \<Longrightarrow> 8 \<le> 8 * i + k - j * 8" using assms by (cases "j < i") auto
    then show ?thesis using False j by (auto simp: bit_push_bit_iff merge_byte_bit)
  qed
  then show ?thesis using assms(1) by (auto simp: pmpcfg_merge_def fold_or_bit)
qed

lemma unpack_entry_csrs:
  "csr_pmpcfg (unpack_pmp_entry i s) = csr_pmpcfg s" "csr_pmpaddr (unpack_pmp_entry i s) = csr_pmpaddr s"
  by (simp_all add: unpack_pmp_entry_def pmp_push_def Let_def)

lemma unpack_csrs: "csr_pmpcfg (unpack_pmpaddrs s) = csr_pmpcfg s"
proof -
  have "csr_pmpcfg (fold unpack_pmp_entry is t) = csr_pmpcfg t" for "is" and t :: "'a RISCVCPUState_scheme"
    by (induction "is" arbitrary: t) (simp_all add: unpack_entry_csrs)
  then show ?thesis by (simp add: unpack_pmpaddrs_def tlb_flush_all_def tlb_init_def)
qed

text \<open>
  C30. Locked protection entries survive a write: writing \<open>pmpcfg0\<close> leaves every byte
  whose lock bit is set as it is, takes the other bytes from the written value, and clears the
  reserved bits of all of them.
\<close>

theorem pmpcfg_lock:
  fixes s :: RISCVCPUState and val :: u64
  assumes "i < 8" and "k < 8"
  shows "bit (csr_pmpcfg (write_pmpcfg s 0 val) 0) (8 * i + k) \<longleftrightarrow> k \<noteq> 5 \<and> k \<noteq> 6
     \<and> (if bit (csr_pmpcfg s 0) (8 * i + 7) then bit (csr_pmpcfg s 0) (8 * i + k) else bit val (8 * i + k))"
  using assms by (auto simp: write_pmpcfg_def unpack_csrs pmpcfg_merge_bit merge_byte_bit)

theorem pmpcfg_lock_witness:
  "bit (csr_pmpcfg (write_pmpcfg (zero_cpu\<lparr>csr_pmpcfg := (\<lambda>_. 0x8F)\<rparr>) 0 0x1800) 0) 7
   \<and> bit (csr_pmpcfg (write_pmpcfg (zero_cpu\<lparr>csr_pmpcfg := (\<lambda>_. 0x8F)\<rparr>) 0 0x1800) 0) 11"
  using pmpcfg_lock [of 0 7 "zero_cpu\<lparr>csr_pmpcfg := (\<lambda>_. 0x8F)\<rparr>" "0x1800"]
    pmpcfg_lock [of 1 3 "zero_cpu\<lparr>csr_pmpcfg := (\<lambda>_. 0x8F)\<rparr>" "0x1800"] by simp

lemma int_bit_small: "j < 31 \<Longrightarrow> int_bit j = push_bit j 1"
proof -
  assume "j < 31"
  then have "bit (int_bit j) n = bit (push_bit j 1 :: u64) n" if "n < 64" for n
    using that unfolding int_bit_def by (auto simp: bit_signed_iff bit_exp_iff)
  then show ?thesis by (intro bit_word_eqI) simp
qed

lemma trailing_ones_eq:
  assumes "t < 31" and "\<And>i. i < t \<Longrightarrow> bit a i" and "\<not> bit a t" and "j \<le> t"
  shows "trailing_ones a j = t"
  using assms(4)
proof (induction "t - j" arbitrary: j)
  case 0
  then have "j = t" by simp
  moreover have "a AND int_bit t = 0"
    using assms by (simp add: int_bit_small and_exp_eq_0_iff_not_bit)
  ultimately show ?case using assms(1) by (simp add: trailing_ones.simps)
next
  case (Suc d)
  then have j: "j < t" by simp
  then have "a AND int_bit j \<noteq> 0"
    using assms by (simp add: int_bit_small and_exp_eq_0_iff_not_bit)
  moreover have "trailing_ones a (Suc j) = t" using Suc j by simp
  ultimately show ?case using j assms(1) by (subst trailing_ones.simps) simp
qed

lemma clear_low: "(x :: u64) AND NOT (mask n) = push_bit n (drop_bit n x)"
  by (rule bit_word_eqI) (auto simp: bit_simps)



end
