(* ===== verification/Trap_Laws.thy ===== *)
theory Trap_Laws
  imports Trap
begin

text \<open>
  Laws of traps and interrupts: the bits of the status word under trap entry and return, the
  round trip through a handler, the privilege of the handler, and the selection of interrupts
  against the rule of the privileged architecture (\<open>irq_taken\<close>).
\<close>

section \<open>Trap entry and return\<close>

text \<open>Single-bit literals of the status word.\<close>

lemma status_literals:
  "bit (0x2 :: u64) n \<longleftrightarrow> n = 1" "bit (0x8 :: u64) n \<longleftrightarrow> n = 3" "bit (0x20 :: u64) n \<longleftrightarrow> n = 5"
  "bit (0x80 :: u64) n \<longleftrightarrow> n = 7" "bit (0x100 :: u64) n \<longleftrightarrow> n = 8"
  "bit (0x1800 :: u64) n \<longleftrightarrow> n = 11 \<or> n = 12"
proof -
  have e: "bit (push_bit k 1 :: u64) n \<longleftrightarrow> n = k" if "k < 64" for k
    using that by (auto simp: bit_exp_iff)
  have "bit (0x1800 :: u64) n = bit (push_bit 11 1 OR push_bit 12 1 :: u64) n" by simp
  then show "bit (0x1800 :: u64) n \<longleftrightarrow> n = 11 \<or> n = 12" unfolding bit_or_iff by (simp only: e)
  show "bit (0x2 :: u64) n \<longleftrightarrow> n = 1" "bit (0x8 :: u64) n \<longleftrightarrow> n = 3" "bit (0x20 :: u64) n \<longleftrightarrow> n = 5"
    "bit (0x80 :: u64) n \<longleftrightarrow> n = 7" "bit (0x100 :: u64) n \<longleftrightarrow> n = 8"
    using e [of 1] e [of 3] e [of 5] e [of 7] e [of 8] by simp_all
qed

lemmas status_bits = bit_or_iff bit_and_iff bit_not_iff status_literals

lemma push_byte_bit: "k \<le> 56 \<Longrightarrow> bit (push_bit k (ucast (p :: u8)) :: u64) n \<longleftrightarrow> k \<le> n \<and> bit p (n - k)"
  by (auto simp: bit_push_bit_iff bit_ucast_iff dest: bit_imp_le_length)

lemma push_bool_bit: "k < 64 \<Longrightarrow> bit (push_bit k (of_bool b) :: u64) n \<longleftrightarrow> b \<and> n = k"
  by (cases b) (auto simp: bit_exp_iff)

text \<open>Entry to supervisor mode touches no bit from 17 on, and not MPP.\<close>

definition s_entry_status :: "u64 \<Rightarrow> u8 \<Rightarrow> u64" where
  "s_entry_status st p =
     (((st AND NOT MSTATUS_SPIE) OR push_bit MSTATUS_SPIE_SHIFT (of_bool (st AND MSTATUS_SIE \<noteq> 0)))
        AND NOT MSTATUS_SPP OR push_bit MSTATUS_SPP_SHIFT (ucast p)) AND NOT MSTATUS_SIE"

definition m_entry_status :: "u64 \<Rightarrow> u8 \<Rightarrow> u64" where
  "m_entry_status st p =
     (((st AND NOT MSTATUS_MPIE) OR push_bit MSTATUS_MPIE_SHIFT (of_bool (st AND MSTATUS_MIE \<noteq> 0)))
        AND NOT MSTATUS_MPP OR push_bit MSTATUS_MPP_SHIFT (ucast p)) AND NOT MSTATUS_MIE"

lemma s_entry_bit: "bit (s_entry_status st p) n \<longleftrightarrow>
    n < 64 \<and> n \<noteq> 1 \<and> (8 \<le> n \<and> bit p (n - 8) \<or> n \<noteq> 8 \<and> (if n = 5 then bit st 1 else bit st n))"
proof -
  have "st AND MSTATUS_SIE \<noteq> 0 \<longleftrightarrow> bit st 1" using and_exp_eq_0_iff_not_bit [of st 1] by simp
  moreover have "bit p (n - 8) \<Longrightarrow> n < 64" "bit st n \<Longrightarrow> n < 64"
    using bit_imp_le_length [of p "n - 8"] bit_imp_le_length [of st n] by auto
  ultimately show ?thesis
    unfolding s_entry_status_def status_bits by (auto simp: push_byte_bit push_bool_bit)
qed

lemma m_entry_bit: "bit (m_entry_status st p) n \<longleftrightarrow>
    n < 64 \<and> n \<noteq> 3 \<and> (11 \<le> n \<and> bit p (n - 11) \<or> n \<noteq> 11 \<and> n \<noteq> 12 \<and> (if n = 7 then bit st 3 else bit st n))"
proof -
  have "st AND MSTATUS_MIE \<noteq> 0 \<longleftrightarrow> bit st 3" using and_exp_eq_0_iff_not_bit [of st 3] by simp
  moreover have "bit p (n - 11) \<Longrightarrow> n < 64" "bit st n \<Longrightarrow> n < 64"
    using bit_imp_le_length [of p "n - 11"] bit_imp_le_length [of st n] by auto
  ultimately show ?thesis
    unfolding m_entry_status_def status_bits by (auto simp: push_byte_bit push_bool_bit)
qed

lemma enter_s_status:
  "enter_s s cause tval = set_priv (s\<lparr>scause := cause, sepc := CANONICAL_S49 (pc s),
     stval := CANONICAL_S49 tval, mstatus := s_entry_status (mstatus s) (priv s)\<rparr>) PRV_S"
  by (simp add: enter_s_def s_entry_status_def Let_def)

lemma enter_m_status:
  "enter_m s cause tval = set_priv (s\<lparr>mcause := cause, mepc := CANONICAL_S49 (pc s),
     mtval := CANONICAL_S49 tval, mstatus := m_entry_status (mstatus s) (priv s)\<rparr>) PRV_M"
  by (simp add: enter_m_def m_entry_status_def Let_def)

text \<open>The status word after a return.\<close>

definition s_return_status :: "u64 \<Rightarrow> u64" where
  "s_return_status st = (let st = st AND NOT MSTATUS_SIE;
      st = st OR (drop_bit 4 st AND MSTATUS_SIE); st = st OR MSTATUS_SPIE in st AND NOT MSTATUS_SPP)"

definition m_return_status :: "u64 \<Rightarrow> u64" where
  "m_return_status st = (let st = st AND NOT MSTATUS_MIE;
      st = st OR (drop_bit 4 st AND MSTATUS_MIE); st = st OR MSTATUS_MPIE in st AND NOT MSTATUS_MPP)"

lemma s_return_bit: "bit (s_return_status st) n \<longleftrightarrow>
    (if n = 1 then bit st 5 else if n = 5 then True else n \<noteq> 8 \<and> bit st n)"
  unfolding s_return_status_def Let_def status_bits bit_drop_bit_eq comp_def
  by (auto dest: bit_imp_le_length)

lemma m_return_bit: "bit (m_return_status st) n \<longleftrightarrow>
    (if n = 3 then bit st 7 else if n = 7 then True else n \<noteq> 11 \<and> n \<noteq> 12 \<and> bit st n)"
  unfolding m_return_status_def Let_def status_bits bit_drop_bit_eq comp_def
  by (auto dest: bit_imp_le_length)

definition SPP_of :: "u64 \<Rightarrow> u8" where
  "SPP_of st = ucast (drop_bit MSTATUS_SPP_SHIFT (st AND MSTATUS_SPP))"

definition MPP_of :: "u64 \<Rightarrow> u8" where
  "MPP_of st = ucast (drop_bit MSTATUS_MPP_SHIFT (st AND MSTATUS_MPP))"

lemma SPP_bit: "bit (SPP_of st) n \<longleftrightarrow> n = 0 \<and> bit st 8"
  unfolding SPP_of_def bit_ucast_iff bit_drop_bit_eq comp_def status_bits by auto

lemma MPP_bit: "bit (MPP_of st) n \<longleftrightarrow> n < 2 \<and> bit st (11 + n)"
  unfolding MPP_of_def bit_ucast_iff bit_drop_bit_eq comp_def status_bits
  by (auto simp: less_2_cases_iff)

lemma handle_sret_status:
  "handle_sret s = (let s' = set_priv (s\<lparr>mstatus := s_return_status (mstatus s)\<rparr>) (SPP_of (mstatus s))
     in s'\<lparr>pc := sepc s'\<rparr>)"
proof -
  have "((((st AND NOT MSTATUS_SIE) OR (drop_bit 4 (st AND NOT MSTATUS_SIE) AND MSTATUS_SIE)) OR MSTATUS_SPIE)
      AND MSTATUS_SPP) = st AND MSTATUS_SPP" for st :: u64
    by (rule bit_word_eqI, unfold status_bits bit_drop_bit_eq comp_def) auto
  then show ?thesis by (simp only: handle_sret_def Let_def s_return_status_def SPP_of_def)
qed

lemma handle_mret_status:
  "handle_mret s = (let s' = set_priv (s\<lparr>mstatus := m_return_status (mstatus s)\<rparr>) (MPP_of (mstatus s))
     in s'\<lparr>pc := mepc s'\<rparr>)"
proof -
  have "((((st AND NOT MSTATUS_MIE) OR (drop_bit 4 (st AND NOT MSTATUS_MIE) AND MSTATUS_MIE)) OR MSTATUS_MPIE)
      AND MSTATUS_MPP) = st AND MSTATUS_MPP" for st :: u64
    by (rule bit_word_eqI, unfold status_bits bit_drop_bit_eq comp_def) auto
  then show ?thesis by (simp only: handle_mret_def Let_def m_return_status_def MPP_of_def)
qed

lemma small_word_bits: "unat (p :: u8) < 2 ^ k \<Longrightarrow> bit p n \<Longrightarrow> n < k"
proof (rule ccontr)
  assume p: "unat p < 2 ^ k" and b: "bit p n" and "\<not> n < k"
  then have "(2 :: nat) ^ k \<le> 2 ^ n" by simp
  with p have "unat p < 2 ^ n" by linarith
  then have "unat p div 2 ^ n = 0" by simp
  moreover have "bit (unat p) n" using b by (simp add: bit_unsigned_iff)
  ultimately show False by (simp add: bit_iff_odd)
qed

lemma priv_bits: "p \<le> (3 :: u8) \<Longrightarrow> bit p n \<Longrightarrow> n < 2"
  by (rule small_word_bits) (auto simp: word_le_nat_alt)

lemma SPP_entry: "p \<le> 1 \<Longrightarrow> SPP_of (s_entry_status st p) = p"
proof (rule bit_word_eqI)
  fix n assume "p \<le> 1"
  then have "bit p n \<Longrightarrow> n = 0" using small_word_bits [of p 1 n] by (simp add: word_le_nat_alt)
  then show "bit (SPP_of (s_entry_status st p)) n = bit p n"
    by (auto simp: SPP_bit s_entry_bit)
qed

lemma MPP_entry: "p \<le> 3 \<Longrightarrow> MPP_of (m_entry_status st p) = p"
  by (rule bit_word_eqI) (auto simp: MPP_bit m_entry_bit dest: priv_bits)

lemma s_resume_bit:
  assumes "p \<le> 1"
  shows "bit (s_return_status (s_entry_status st p)) n
      = (if n = 5 then True else if n = 8 then False else bit st n)"
proof -
  have "bit p (n - 8) \<Longrightarrow> n - 8 = 0"
    using assms small_word_bits [of p 1 "n - 8"] by (simp add: word_le_nat_alt)
  then show ?thesis
    using bit_imp_le_length [of st n] by (auto simp: s_return_bit s_entry_bit)
qed

lemma m_resume_bit:
  assumes "p \<le> 3"
  shows "bit (m_return_status (m_entry_status st p)) n
      = (if n = 7 then True else if n = 11 \<or> n = 12 then False else bit st n)"
proof -
  have "bit p (n - 11) \<Longrightarrow> n - 11 < 2" by (rule priv_bits [OF assms])
  then have "11 \<le> n \<Longrightarrow> bit p (n - 11) \<Longrightarrow> n = 11 \<or> n = 12" by linarith
  then show ?thesis
    using bit_imp_le_length [of st n] by (auto simp: m_return_bit m_entry_bit)
qed

text \<open>
  C8. Taking a trap and returning from it resumes the interrupted context: whichever mode handles
  the trap, the matching return instruction restores the privilege, the interrupt enable bit, the
  registers and, for a canonical pc, the pc; the only differences it leaves in the status word are
  the previous-enable bit, which becomes 1, and the previous-privilege field, which becomes user.
\<close>

theorem trap_return:
  fixes s :: RISCVCPUState and cause tval :: u64
  defines "s1 \<equiv> raise_exception2 s cause tval"
  defines "s2 \<equiv> if trap_delegated s cause then handle_sret s1 else handle_mret s1"
  assumes p: "priv s \<le> PRV_M"
  shows "priv s2 = priv s \<and> pc s2 = CANONICAL_S49 (pc s) \<and> reg s2 = reg s
    \<and> (\<forall>n. bit (mstatus s2) n =
         (if trap_delegated s cause
          then (if n = 5 then True else if n = 8 then False else bit (mstatus s) n)
          else (if n = 7 then True else if n = 11 \<or> n = 12 then False else bit (mstatus s) n)))"
proof (cases "trap_delegated s cause")
  case True
  then have "priv s \<le> 1" by (auto simp: trap_delegated_def split: if_splits)
  with True show ?thesis
    unfolding s2_def s1_def raise_exception2_def handle_sret_status enter_s_status Let_def
    by (auto simp: set_priv_def tlb_flush_all_def tlb_init_def SPP_entry s_resume_bit)
next
  case False
  with p show ?thesis
    unfolding s2_def s1_def raise_exception2_def handle_mret_status enter_m_status Let_def
    by (auto simp: set_priv_def tlb_flush_all_def tlb_init_def MPP_entry m_resume_bit)
qed

theorem trap_return_witness:
  "let s = zero_cpu\<lparr>priv := PRV_S, mstatus := 2, medeleg := 0x100, pc := 0x1000\<rparr>;
       s2 = handle_sret (raise_exception2 s 8 0)
   in priv s2 = PRV_S \<and> bit (mstatus s2) 1"
proof -
  let ?s = "zero_cpu\<lparr>priv := PRV_S, mstatus := 2, medeleg := 0x100, pc := 0x1000\<rparr>"
  have d: "trap_delegated ?s 8" by (simp add: trap_delegated_def)
  show ?thesis using trap_return [of ?s 8 0] d by (auto simp: Let_def)
qed

text \<open>
  C18. A trap never lowers the privilege: it is handled in supervisor mode exactly when it is
  delegated, which a trap taken in machine mode never is, and in machine mode otherwise; the
  handler starts with its interrupts disabled, at the vector of the handling mode, with cause,
  pc and trap value saved in the registers of that mode.
\<close>

theorem trap_entry:
  fixes s :: RISCVCPUState and cause tval :: u64
  defines "s1 \<equiv> raise_exception2 s cause tval"
  assumes p: "priv s \<le> PRV_M"
  shows "priv s \<le> priv s1 \<and> (priv s = PRV_M \<longrightarrow> priv s1 = PRV_M)
    \<and> (if trap_delegated s cause
        then priv s1 = PRV_S \<and> \<not> bit (mstatus s1) 1 \<and> pc s1 = trap_target (stvec s) cause
          \<and> scause s1 = cause \<and> sepc s1 = CANONICAL_S49 (pc s) \<and> stval s1 = CANONICAL_S49 tval
        else priv s1 = PRV_M \<and> \<not> bit (mstatus s1) 3 \<and> pc s1 = trap_target (mtvec s) cause
          \<and> mcause s1 = cause \<and> mepc s1 = CANONICAL_S49 (pc s) \<and> mtval s1 = CANONICAL_S49 tval)"
proof (cases "trap_delegated s cause")
  case True
  then have "priv s \<le> 1" by (auto simp: trap_delegated_def split: if_splits)
  moreover from this have "priv s \<noteq> 3" by (auto simp: word_le_nat_alt)
  ultimately show ?thesis using True
    unfolding s1_def raise_exception2_def enter_s_status Let_def
    by (auto simp: set_priv_def tlb_flush_all_def tlb_init_def s_entry_bit)
next
  case False
  with p show ?thesis
    unfolding s1_def raise_exception2_def enter_m_status Let_def
    by (auto simp: set_priv_def tlb_flush_all_def tlb_init_def m_entry_bit)
qed

theorem trap_entry_witness:
  "let s = zero_cpu\<lparr>medeleg := 0x100, stvec := 0x4000\<rparr>; s1 = raise_exception2 s 8 0
   in priv s1 = PRV_S \<and> pc s1 = 0x4000"
proof -
  let ?s = "zero_cpu\<lparr>medeleg := 0x100, stvec := 0x4000\<rparr>"
  have d: "trap_delegated ?s 8" by (simp add: trap_delegated_def zero_cpu_def)
  show ?thesis using trap_entry [of ?s 8 0] d by (simp add: Let_def zero_cpu_def trap_target_def)
qed

section \<open>Interrupt selection\<close>

text \<open>
  An interrupt is taken when it is pending and enabled, and either the hart runs below the mode
  that handles it, or it runs in that mode with interrupts globally enabled.
\<close>

definition irq_taken :: "'a RISCVCPUState_scheme \<Rightarrow> nat \<Rightarrow> bool" where
  "irq_taken s i \<longleftrightarrow> bit (mip s) i \<and> bit (mie s) i
     \<and> (if bit (mideleg s) i
        then priv s < PRV_S \<or> priv s = PRV_S \<and> bit (mstatus s) 1
        else priv s < PRV_M \<or> priv s = PRV_M \<and> bit (mstatus s) 3)"

lemma pending_irq_bit:
  assumes "priv s \<in> {PRV_U, PRV_S, PRV_M}"
  shows "bit (get_pending_irq_mask s) i \<longleftrightarrow> irq_taken s i"
proof (cases "mip s AND mie s = 0")
  case True
  then have "bit (mip s AND mie s) i = bit (0 :: u32) i" by simp
  then have "\<not> irq_taken s i" by (auto simp: irq_taken_def bit_and_iff)
  with True show ?thesis by (simp add: get_pending_irq_mask_def)
next
  case False
  have "mstatus s AND MSTATUS_MIE \<noteq> 0 \<longleftrightarrow> bit (mstatus s) 3"
    "mstatus s AND MSTATUS_SIE \<noteq> 0 \<longleftrightarrow> bit (mstatus s) 1"
    using and_exp_eq_0_iff_not_bit [of "mstatus s" 3] and_exp_eq_0_iff_not_bit [of "mstatus s" 1] by simp_all
  then show ?thesis
    using assms False
    by (auto simp: get_pending_irq_mask_def irq_taken_def bit_and_iff bit_or_iff bit_not_iff
        dest: bit_imp_le_length)
qed

text \<open>
  C17. Interrupts are taken exactly when the privileged architecture says so: when no interrupt
  qualifies, nothing happens; otherwise the lowest-numbered one that qualifies is entered, with
  the interrupt flag set in its cause.
\<close>

theorem raise_interrupt_spec:
  fixes s :: RISCVCPUState
  assumes "priv s \<in> {PRV_U, PRV_S, PRV_M}"
  shows "if \<exists>i. irq_taken s i
    then \<exists>i < 32. irq_taken s i \<and> (\<forall>j < i. \<not> irq_taken s j)
        \<and> raise_interrupt s = (True, raise_exception2 s (of_nat i OR CAUSE_INTERRUPT) 0)
    else raise_interrupt s = (False, s)"
proof (cases "get_pending_irq_mask s = 0")
  case True
  then have "\<not> irq_taken s i" for i using pending_irq_bit [OF assms, of i] by simp
  with True show ?thesis by (simp add: raise_interrupt_def)
next
  case False
  note l = ctz32_least [OF False, unfolded pending_irq_bit [OF assms]]
  show ?thesis using l False
    by (auto simp: raise_interrupt_def raise_exception_def Let_def intro!: exI [of _ "ctz32 (get_pending_irq_mask s)"])
qed

theorem raise_interrupt_spec_witness:
  "fst (raise_interrupt (zero_cpu\<lparr>priv := PRV_S, mip := 0x80, mie := 0x80\<rparr>))"
proof -
  let ?s = "zero_cpu\<lparr>priv := PRV_S, mip := 0x80, mie := 0x80\<rparr>"
  have "irq_taken ?s 7" by (simp add: irq_taken_def zero_cpu_def)
  then have "\<exists>i. irq_taken ?s i" by blast
  then show ?thesis using raise_interrupt_spec [of ?s] by auto
qed

end
