(* ===== verification/Mmu_Tlb.thy ===== *)
theory Mmu_Tlb
  imports Mmu_Walk Device_Laws Csr_Laws Trap_Laws
begin

text \<open>
  The software TLBs of \<open>riscv_cpu.cpp\<close> and \<open>riscv_cpu.h\<close> (definitions: theories Tlb and Mmu).
  \<^item> \<open>tlb_ok\<close>: every valid entry maps its page to the host memory the page-table walk and the
    physical memory map give, and a valid write entry has its page marked dirty.
  \<^item> Under \<open>tlb_ok\<close> the inlined fast paths of load, store and fetch refine the slow paths.
  \<^item> Loads, fetches, stores, device accesses, CSR writes, traps and returns keep \<open>tlb_ok\<close>; the one
    exception (\<open>mret\<close> under MPRV) is shown by a concrete machine.
\<close>

section \<open>Harts and devices\<close>

text \<open>
  The relation between the harts before and after a device access: the machine made a device
  step, and the hart is the slot of the machine it came from.
\<close>

definition dev_hart :: "hart \<Rightarrow> hart \<Rightarrow> bool" where
  "dev_hart s s' \<longleftrightarrow> dev_step (machine_of s) (machine s')
     \<and> cpu_of s' = cpu_state (machine s') (unat (mhartid s))"

lemma dev_step_fields_eq:
  assumes "dev_step m m'"
  shows "mem_map m' = mem_map m" "host_mem m' = host_mem m" "ncpus m' = ncpus m"
    "maxinsns m' = maxinsns m" "cosim m' = cosim m" "pending_interrupt m' = pending_interrupt m"
    "m_pending_exception m' = m_pending_exception m"
    "hooks_csr_read m' = hooks_csr_read m" "hooks_csr_write m' = hooks_csr_write m"
    "same_core (cpu_state m i) (cpu_state m' i)"
proof -
  let ?m = "m'\<lparr>cpu_state := cpu_state m, plic_pending_irq := plic_pending_irq m,
        plic_served_irq := plic_served_irq m, plic_priority := plic_priority m, uart := uart m,
        dw_apb_uart := dw_apb_uart m, console_in := console_in m, console_out := console_out m\<rparr>"
  have e: "?m = m" and c: "\<And>i. same_core (cpu_state m i) (cpu_state m' i)"
    using assms by (simp_all add: dev_step_def)
  have "mem_map ?m = mem_map m" "host_mem ?m = host_mem m" "ncpus ?m = ncpus m"
    "maxinsns ?m = maxinsns m" "cosim ?m = cosim m" "pending_interrupt ?m = pending_interrupt m"
    "m_pending_exception ?m = m_pending_exception m"
    "hooks_csr_read ?m = hooks_csr_read m" "hooks_csr_write ?m = hooks_csr_write m"
    by (simp_all only: e)
  then show "mem_map m' = mem_map m" "host_mem m' = host_mem m" "ncpus m' = ncpus m"
    "maxinsns m' = maxinsns m" "cosim m' = cosim m" "pending_interrupt m' = pending_interrupt m"
    "m_pending_exception m' = m_pending_exception m"
    "hooks_csr_read m' = hooks_csr_read m" "hooks_csr_write m' = hooks_csr_write m"
    "same_core (cpu_state m i) (cpu_state m' i)"
    by (simp_all add: c)
qed

lemma machine_of_fields [simp]:
  "mem_map (machine_of s) = mem_map (machine s)" "host_mem (machine_of s) = host_mem (machine s)"
  "ncpus (machine_of s) = ncpus (machine s)" "maxinsns (machine_of s) = maxinsns (machine s)"
  "cosim (machine_of s) = cosim (machine s)"
  "pending_interrupt (machine_of s) = pending_interrupt (machine s)"
  "m_pending_exception (machine_of s) = m_pending_exception (machine s)"
  "hooks_csr_read (machine_of s) = hooks_csr_read (machine s)"
  "hooks_csr_write (machine_of s) = hooks_csr_write (machine s)"
  "cpu_state (machine_of s) (unat (mhartid s)) = cpu_of s"
  by (simp_all add: machine_of_def set_cpu_def)

lemma with_machine_dev:
  assumes "with_machine f s = Some (v, s')" and "\<And>m v m'. f m = Some (v, m') \<Longrightarrow> dev_step m m'"
  shows "dev_hart s s'"
proof -
  obtain m' where f: "f (machine_of s) = Some (v, m')" and s': "s' = hart_of m' (unat (mhartid s))"
    using assms(1) by (auto simp: with_machine_def split: option.splits)
  have "machine s' = m'" "cpu_of s' = cpu_state m' (unat (mhartid s))"
    by (simp_all add: s' hart_of_def cpu_of_def RISCVCPUState.defs)
  then show ?thesis using assms(2) [OF f] by (simp add: dev_hart_def)
qed

lemma dev_hart_core: "dev_hart s s' \<Longrightarrow> same_core (cpu_of s) (cpu_of s')"
  using dev_step_fields_eq(10) [of "machine_of s" "machine s'" "unat (mhartid s)"]
  by (simp add: dev_hart_def)

lemmas dev_hart_machine = dev_step_fields_eq [of "machine_of s" "machine s'" for s s', simplified]

section \<open>What translation depends on\<close>

text \<open>Memory maps that differ in dirty bits only.\<close>

definition same_ranges :: "PhysMemoryMap \<Rightarrow> PhysMemoryMap \<Rightarrow> bool" where
  "same_ranges mm mm' \<longleftrightarrow> n_phys_mem_range mm' = n_phys_mem_range mm
     \<and> (\<forall>i. (phys_mem_range mm' i)\<lparr>dirty_bits_tab := dirty_bits_tab (phys_mem_range mm i)\<rparr>
            = phys_mem_range mm i)"

lemma same_ranges_refl [simp]: "same_ranges mm mm"
  by (simp add: same_ranges_def)

lemma same_ranges_range:
  assumes "same_ranges mm mm'"
  shows "pr_addr (phys_mem_range mm' i) = pr_addr (phys_mem_range mm i)"
    "pr_size (phys_mem_range mm' i) = pr_size (phys_mem_range mm i)"
    "is_ram (phys_mem_range mm' i) = is_ram (phys_mem_range mm i)"
    "phys_mem (phys_mem_range mm' i) = phys_mem (phys_mem_range mm i)"
    "host_ptr (phys_mem_range mm' i) pa = host_ptr (phys_mem_range mm i) pa"
proof -
  let ?r = "(phys_mem_range mm' i)\<lparr>dirty_bits_tab := dirty_bits_tab (phys_mem_range mm i)\<rparr>"
  have e: "?r = phys_mem_range mm i" using assms by (simp add: same_ranges_def)
  have "pr_addr ?r = pr_addr (phys_mem_range mm i)" "pr_size ?r = pr_size (phys_mem_range mm i)"
    "is_ram ?r = is_ram (phys_mem_range mm i)" "phys_mem ?r = phys_mem (phys_mem_range mm i)"
    by (simp_all only: e)
  then show "pr_addr (phys_mem_range mm' i) = pr_addr (phys_mem_range mm i)"
    "pr_size (phys_mem_range mm' i) = pr_size (phys_mem_range mm i)"
    "is_ram (phys_mem_range mm' i) = is_ram (phys_mem_range mm i)"
    "phys_mem (phys_mem_range mm' i) = phys_mem (phys_mem_range mm i)"
    "host_ptr (phys_mem_range mm' i) pa = host_ptr (phys_mem_range mm i) pa"
    by (simp_all add: host_ptr_def)
qed

lemma same_ranges_lookup:
  assumes "same_ranges mm mm'"
  shows "get_phys_mem_range mm' pa = get_phys_mem_range mm pa"
proof -
  have "find_range mm' pa (n_phys_mem_range mm) = find_range mm pa (n_phys_mem_range mm)"
    by (rule find_range_cong) (simp add: in_range_def same_ranges_range [OF assms])
  then show ?thesis using assms by (simp add: get_phys_mem_range_def same_ranges_def)
qed

definition same_xlate :: "hart \<Rightarrow> hart \<Rightarrow> bool" where
  "same_xlate s s' \<longleftrightarrow> priv s' = priv s \<and> mstatus s' = mstatus s \<and> satp s' = satp s
     \<and> same_ranges (mem_map (machine s)) (mem_map (machine s'))
     \<and> host_mem (machine s') = host_mem (machine s)"

lemma phys_read_same:
  assumes "same_ranges (mem_map (machine s)) (mem_map (machine s'))"
    and "host_mem (machine s') = host_mem (machine s)"
  shows "riscv_phys_read n s' a = riscv_phys_read n s a"
  unfolding riscv_phys_read_def get_phys_mem_range_pmp_def riscv_cpu_pmp_access_ok_def
    same_ranges_lookup [OF assms(1)] assms(2)
  by (simp add: same_ranges_range [OF assms(1)] split: option.splits)

lemma walk_same:
  assumes "\<And>n a. riscv_phys_read n s' a = riscv_phys_read n s a" and "mstatus s' = mstatus s"
  shows "walk s' p acc va n base = walk s p acc va n base"
proof (induction n arbitrary: base)
  case (Suc n)
  have "leaf_ok s' p acc n pte = leaf_ok s p acc n pte" for pte
    by (simp add: leaf_ok_def assms(2))
  then show ?case unfolding walk.simps Let_def assms(1) using Suc by (simp cong: pread.case_cong if_cong)
qed simp

lemma get_phys_addr_same:
  assumes "same_xlate s s'"
  shows "riscv_cpu_get_phys_addr s' va acc = riscv_cpu_get_phys_addr s va acc"
proof -
  have "walk s' p acc va n base = walk s p acc va n base" for p n base
    by (rule walk_same) (use assms phys_read_same in \<open>auto simp: same_xlate_def\<close>)
  moreover have "effective_priv s' c = effective_priv s c" "satp s' = satp s" for c
    using assms by (simp_all add: effective_priv_def same_xlate_def)
  ultimately show ?thesis unfolding riscv_cpu_get_phys_addr_def Let_def by (simp cong: if_cong)
qed

section \<open>Coherence of the TLBs\<close>

text \<open>
  RAM comes in whole pages: every address of a page that has RAM resolves to the same range, and
  the range starts at a page boundary.
\<close>

definition ram_paged :: "PhysMemoryMap \<Rightarrow> bool" where
  "ram_paged mm \<longleftrightarrow> (\<forall>pa i. get_phys_mem_range mm pa = Some i \<and> is_ram (phys_mem_range mm i)
     \<longrightarrow> page_base (pr_addr (phys_mem_range mm i)) = pr_addr (phys_mem_range mm i)
       \<and> (\<forall>pb. page_base pb = page_base pa \<longrightarrow> get_phys_mem_range mm pb = Some i))"

lemma page_base_take_bit: "page_base a = a - take_bit 12 a"
  using page_split [of a] by (simp add: take_bit_eq_mask mask_eq_exp_minus_1 algebra_simps)

lemma take_bit_sub_int: "take_bit n (b :: int) = 0 \<Longrightarrow> take_bit n (x - b) = take_bit n x"
  using take_bit_diff [of n x b] by simp

lemma take_bit_sub_aligned: "take_bit n (b :: u64) = 0 \<Longrightarrow> n \<le> 64 \<Longrightarrow> take_bit n (x - b) = take_bit n x"
  by (transfer fixing: n) (simp add: min_def take_bit_sub_int)

lemma page_base_sub:
  assumes "page_base b = b"
  shows "page_base (x - b) = page_base x - b"
proof -
  have "take_bit 12 b = 0" using assms by (simp add: page_base_take_bit)
  then have "take_bit 12 (x - b) = take_bit 12 x"
    by (intro take_bit_sub_aligned) simp_all
  then show ?thesis by (simp add: page_base_take_bit)
qed

lemma page_of_sub:
  assumes "page_base x = page_base y" and "page_base b = b"
  shows "page_of (x - b) = page_of (y - b)"
  using drop_bit_page [of "x - b" "y - b" 12] assms by (simp add: page_base_sub)

text \<open>
  A TLB entry is invalid, or it is what a translation of its page for this kind of access gives
  now: the translation succeeds, ends in RAM, and the addend leads to the host address of the
  page. An entry for writing is for a page already marked dirty.
\<close>

definition maps_page :: "hart \<Rightarrow> nat \<Rightarrow> TLBEntry \<Rightarrow> bool" where
  "maps_page s acc e \<longleftrightarrow> vaddr e = - 1 \<or>
     (\<exists>pa i. page_base (vaddr e) = vaddr e
        \<and> riscv_cpu_get_phys_addr s (vaddr e) acc = Paddr pa
        \<and> get_phys_mem_range (mem_map (machine s)) pa = Some i
        \<and> (let pr = phys_mem_range (mem_map (machine s)) i in
            is_ram pr \<and> mem_addend e + vaddr e = host_ptr pr pa
            \<and> (acc = ACCESS_WRITE \<longrightarrow> phys_mem_is_dirty_bit pr (pa - pr_addr pr))))"

definition tlb_ok :: "hart \<Rightarrow> bool" where
  "tlb_ok s \<longleftrightarrow> (\<forall>i < TLB_SIZE. maps_page s ACCESS_READ (tlb_read s i)
     \<and> maps_page s ACCESS_WRITE (tlb_write s i) \<and> maps_page s ACCESS_CODE (tlb_code s i))"

text \<open>The translation, the range and the host address an entry stands for, at any address of its page.\<close>

lemma maps_page_hit:
  assumes e: "maps_page s acc e" "vaddr e = page_base a" and rp: "ram_paged (mem_map (machine s))"
  obtains pa i where "riscv_cpu_get_phys_addr s a acc = Paddr pa"
    "get_phys_mem_range (mem_map (machine s)) pa = Some i"
    "is_ram (phys_mem_range (mem_map (machine s)) i)"
    "host_ptr (phys_mem_range (mem_map (machine s)) i) pa = mem_addend e + a"
    "acc = ACCESS_WRITE \<Longrightarrow> phys_mem_is_dirty_bit (phys_mem_range (mem_map (machine s)) i)
        (pa - pr_addr (phys_mem_range (mem_map (machine s)) i))"
proof -
  let ?rng = "phys_mem_range (mem_map (machine s))"
  obtain pa i where x: "riscv_cpu_get_phys_addr s (page_base a) acc = Paddr pa"
    and r: "get_phys_mem_range (mem_map (machine s)) pa = Some i" "is_ram (?rng i)"
    and h: "mem_addend e + page_base a = host_ptr (?rng i) pa"
    and d: "acc = ACCESS_WRITE \<Longrightarrow> phys_mem_is_dirty_bit (?rng i) (pa - pr_addr (?rng i))"
    using e by (auto simp: maps_page_def Let_def)
  have pb: "page_base (page_base a) = page_base a"
    by (simp add: page_base_eq_iff bit_page_base)
  let ?pa = "in_page pa a"
  have x': "riscv_cpu_get_phys_addr s a acc = Paddr ?pa"
    using get_phys_addr_in_page [OF pb, of s acc] x by simp
  have same: "page_base ?pa = page_base pa" by simp
  have r': "get_phys_mem_range (mem_map (machine s)) ?pa = Some i"
    and al: "page_base (pr_addr (?rng i)) = pr_addr (?rng i)"
    using rp r same unfolding ram_paged_def by blast+
  have "?pa - pa = a - page_base a"
    by (rule in_page_offset [OF _ pb]) (use get_phys_addr_offset [OF x] in simp)
  then have pa: "?pa = pa + (a - page_base a)" by (simp add: algebra_simps)
  have "host_ptr (?rng i) (pa + d) = host_ptr (?rng i) pa + d" for d by (simp add: host_ptr_def)
  then have h': "host_ptr (?rng i) ?pa = mem_addend e + a"
    unfolding pa using h [symmetric] by simp
  have "phys_mem_is_dirty_bit (?rng i) (?pa - pr_addr (?rng i))" if "acc = ACCESS_WRITE"
    using d [OF that] unfolding phys_mem_is_dirty_bit_def Let_def page_of_sub [OF same al] .
  then show ?thesis using that x' r' r(2) h' by blast
qed

section \<open>The fast paths implement the slow paths\<close>

lemma low_mask: "push_bit k 1 - 1 = (mask k :: u64)"
  by (simp add: mask_eq_exp_minus_1)

lemma aligned_bits: "\<not> misaligned k a \<Longrightarrow> n < k \<Longrightarrow> \<not> bit a n"
proof -
  assume al: "\<not> misaligned k a" and n: "n < k"
  have "bit (a AND mask k) n = bit (0 :: u64) n" using al unfolding misaligned_def low_mask by simp
  then show "\<not> bit a n" using n by (auto simp: bit_simps dest: bit_imp_le_length)
qed

lemma aligned_tag: "\<not> misaligned k a \<Longrightarrow> k \<le> 12 \<Longrightarrow> tlb_tag k a = page_base a"
  unfolding tlb_tag_def low_mask PG_MASK_eq
  by (rule bit_word_eqI)
    (auto simp: bit_page_base bit_and_iff bit_or_iff bit_not_iff bit_mask_iff dest: aligned_bits)

text \<open>The observable part of a state: everything but the contents of the TLBs.\<close>

definition forget_tlbs :: "hart \<Rightarrow> hart" where
  "forget_tlbs s = s\<lparr>tlb_read := (\<lambda>_. \<lparr>vaddr = - 1, mem_addend = 0\<rparr>),
     tlb_write := (\<lambda>_. \<lparr>vaddr = - 1, mem_addend = 0\<rparr>),
     tlb_code := (\<lambda>_. \<lparr>vaddr = - 1, mem_addend = 0\<rparr>),
     tlb_read_paddr_addend := (\<lambda>_. 0), tlb_write_paddr_addend := (\<lambda>_. 0),
     tlb_code_paddr_addend := (\<lambda>_. 0)\<rparr>"

fun observe :: "'a mres \<Rightarrow> 'a mres" where
  "observe (Val v s) = Val v (forget_tlbs s)"
| "observe (Exc s) = Exc (forget_tlbs s)"
| "observe Abort = Abort"

lemma forget_fill [simp]:
  "forget_tlbs (fill_tlb_read a pa p s) = forget_tlbs s"
  "forget_tlbs (fill_tlb_write a pa p s) = forget_tlbs s"
  "forget_tlbs (fill_tlb_code a pa p s) = forget_tlbs s"
  by (simp_all add: forget_tlbs_def fill_tlb_read_def fill_tlb_write_def fill_tlb_code_def)

lemma forget_set_host_mem: "forget_tlbs (set_host_mem h s) = set_host_mem h (forget_tlbs s)"
  by (simp add: forget_tlbs_def set_host_mem_def)

lemma fill_machine [simp]:
  "machine (fill_tlb_read a pa p s) = machine s" "machine (fill_tlb_write a pa p s) = machine s"
  "machine (fill_tlb_code a pa p s) = machine s"
  by (simp_all add: fill_tlb_read_def fill_tlb_write_def fill_tlb_code_def)

lemma ram_pmp:
  "get_phys_mem_range (mem_map (machine s)) pa = Some i
   \<Longrightarrow> get_phys_mem_range_pmp s pa n perm = Some (phys_mem_range (mem_map (machine s)) i)"
  by (simp add: get_phys_mem_range_pmp_def riscv_cpu_pmp_access_ok_def)

lemma or_set_bit: "bit w b \<Longrightarrow> w OR push_bit b 1 = (w :: u32)"
  by (rule bit_word_eqI) (auto simp: bit_or_iff bit_exp_iff)

lemma set_dirty_again:
  assumes "phys_mem_is_dirty_bit pr off" shows "phys_mem_set_dirty_bit pr off = pr"
proof (cases "dirty_bits pr")
  case (Some t)
  let ?w = "unat (drop_bit 5 (page_of off))" and ?b = "unat (page_of off AND 0x1f)"
  have b: "bit (dirty_bits_tab pr t ?w) ?b"
    using assms Some by (simp add: phys_mem_is_dirty_bit_def Let_def and_1_bit del: drop_bit_drop_bit)
  show ?thesis using Some or_set_bit [OF b]
    by (simp add: phys_mem_set_dirty_bit_def Let_def del: push_bit_of_1 drop_bit_drop_bit)
qed (simp add: phys_mem_set_dirty_bit_def)

lemma mark_dirty_again:
  assumes "get_phys_mem_range (mem_map (machine s)) pa = Some i"
    and "phys_mem_is_dirty_bit (phys_mem_range (mem_map (machine s)) i)
          (pa - pr_addr (phys_mem_range (mem_map (machine s)) i))"
  shows "mark_dirty pa s = s"
  using assms by (simp add: mark_dirty_def Let_def set_dirty_again set_range_def)

lemma tlb_index_less [simp]: "tlb_index a < TLB_SIZE"
proof -
  have "unat (drop_bit 12 a AND 0xff) \<le> 0xff"
    using word_and_le1 [of "drop_bit 12 a" "0xff"] by (simp add: word_le_nat_alt)
  then show ?thesis by (simp add: tlb_index_def)
qed

text \<open>The slow paths on RAM.\<close>

definition ram_at :: "hart \<Rightarrow> nat \<Rightarrow> u64 \<Rightarrow> u64 \<Rightarrow> PhysMemoryRange \<Rightarrow> bool" where
  "ram_at s acc a pa pr \<longleftrightarrow> riscv_cpu_get_phys_addr s a acc = Paddr pa
     \<and> (\<exists>i. get_phys_mem_range (mem_map (machine s)) pa = Some i
          \<and> pr = phys_mem_range (mem_map (machine s)) i) \<and> is_ram pr"

lemma read_memory_ram:
  assumes "ram_at s ACCESS_READ a pa pr" and "\<not> misaligned k a" and "k \<le> 3"
  shows "riscv_cpu_read_memory s a k =
    Val (load_le (2 ^ k) (host_mem (machine s)) (host_ptr pr pa)) (fill_tlb_read a pa (host_ptr pr pa) s)"
  using assms unfolding ram_at_def riscv_cpu_read_memory_def by (auto simp: ram_pmp Let_def)

lemma write_memory_ram:
  assumes "ram_at s ACCESS_WRITE a pa pr" and "\<not> misaligned k a" and "k \<le> 3"
  shows "riscv_cpu_write_memory s a v k =
    Val () (set_host_mem (store_le (2 ^ k) (host_mem (machine (mark_dirty pa s))) (host_ptr pr pa) v)
       (fill_tlb_write a pa (host_ptr pr pa) (mark_dirty pa s)))"
  using assms unfolding ram_at_def riscv_cpu_write_memory_def by (auto simp: ram_pmp Let_def)

lemma insn_slow_ram:
  assumes "ram_at s ACCESS_CODE a pa pr"
  shows "target_read_insn_slow s 16 a =
    Val (ucast (load_le 2 (host_mem (machine s)) (host_ptr pr pa))) (fill_tlb_code a pa (host_ptr pr pa) s)"
  using assms unfolding ram_at_def target_read_insn_slow_def exec_range_def
  by (auto simp: ram_pmp riscv_cpu_pmp_access_ok_def Let_def)

lemma hit_ram_at:
  assumes "maps_page s acc e" and "vaddr e = page_base a" and "ram_paged (mem_map (machine s))"
  obtains pa pr where "ram_at s acc a pa pr" "host_ptr pr pa = mem_addend e + a"
    "acc = ACCESS_WRITE \<Longrightarrow> mark_dirty pa s = s"
  using maps_page_hit [OF assms] mark_dirty_again unfolding ram_at_def by metis

lemma fast_read:
  assumes ok: "tlb_ok s" and rp: "ram_paged (mem_map (machine s))" and k: "k \<le> 3"
  shows "observe (target_read k s a)
     = observe (mbind (riscv_cpu_read_memory s a k) (\<lambda>v s. Val (take_bit (8 * 2 ^ k) v) s))"
proof (cases "\<not> misaligned k a \<and> vaddr (tlb_read s (tlb_index a)) = tlb_tag k a")
  case True
  then have al: "\<not> misaligned k a" and tag: "vaddr (tlb_read s (tlb_index a)) = page_base a"
    using k by (simp_all add: aligned_tag)
  have "maps_page s ACCESS_READ (tlb_read s (tlb_index a))" using ok by (simp add: tlb_ok_def)
  from hit_ram_at [OF this tag rp] obtain pa pr where x: "ram_at s ACCESS_READ a pa pr"
    and p: "host_ptr pr pa = mem_addend (tlb_read s (tlb_index a)) + a" by blast
  show ?thesis
    unfolding read_memory_ram [OF x al k] p using True le.load_small [symmetric]
    by (simp add: target_read_def)
next
  case False
  then show ?thesis
    unfolding target_read_def Let_def by (cases "misaligned k a") (simp_all add: riscv_cpu_read_memory_def)
qed

lemma fast_write:
  assumes ok: "tlb_ok s" and rp: "ram_paged (mem_map (machine s))" and k: "k \<le> 3"
  shows "observe (target_write k s a v) = observe (riscv_cpu_write_memory s a (take_bit (8 * 2 ^ k) v) k)"
proof (cases "\<not> misaligned k a \<and> vaddr (tlb_write s (tlb_index a)) = tlb_tag k a")
  case True
  then have al: "\<not> misaligned k a" and tag: "vaddr (tlb_write s (tlb_index a)) = page_base a"
    using k by (simp_all add: aligned_tag)
  have "maps_page s ACCESS_WRITE (tlb_write s (tlb_index a))" using ok by (simp add: tlb_ok_def)
  from hit_ram_at [OF this tag rp] obtain pa pr where x: "ram_at s ACCESS_WRITE a pa pr"
    and p: "host_ptr pr pa = mem_addend (tlb_write s (tlb_index a)) + a" and d: "mark_dirty pa s = s"
    by blast
  show ?thesis
    unfolding write_memory_ram [OF x al k] p d using True
    by (simp add: target_write_def forget_set_host_mem)
next
  case False
  then show ?thesis
    unfolding target_write_def Let_def by (cases "misaligned k a") (simp_all add: riscv_cpu_write_memory_def)
qed

lemma fast_fetch:
  assumes ok: "tlb_ok s" and rp: "ram_paged (mem_map (machine s))"
  shows "observe (target_read_insn_u16 s a)
     = observe (mbind (target_read_insn_slow s 16 a) (\<lambda>v s. Val (ucast v) s))"
proof (cases "vaddr (tlb_code s (tlb_index a)) = a AND NOT PG_MASK")
  case True
  then have tag: "vaddr (tlb_code s (tlb_index a)) = page_base a" by (simp add: page_base_def)
  have "maps_page s ACCESS_CODE (tlb_code s (tlb_index a))" using ok by (simp add: tlb_ok_def)
  from hit_ram_at [OF this tag rp] obtain pa pr where x: "ram_at s ACCESS_CODE a pa pr"
    and p: "host_ptr pr pa = mem_addend (tlb_code s (tlb_index a)) + a" by blast
  have "ucast (ucast w :: u32) = (ucast w :: u16)" for w :: u64
    by (rule bit_word_eqI) (simp add: bit_simps)
  then show ?thesis
    unfolding insn_slow_ram [OF x] p using True by (simp add: target_read_insn_u16_def)
qed (simp add: target_read_insn_u16_def Let_def)

text \<open>
  C1. With coherent TLBs the fast paths of loads, stores and fetches do what the slow paths do:
  the same value, the same exception, the same memory and registers; only the contents of the
  TLBs may differ.
\<close>

theorem fast_path_refines:
  assumes ok: "tlb_ok s" and rp: "ram_paged (mem_map (machine s))" and k: "k \<le> 3"
  shows "observe (target_read k s a)
       = observe (mbind (riscv_cpu_read_memory s a k) (\<lambda>v s. Val (take_bit (8 * 2 ^ k) v) s))
    \<and> observe (target_write k s a v)
       = observe (riscv_cpu_write_memory s a (take_bit (8 * 2 ^ k) v) k)
    \<and> observe (target_read_insn_u16 s a)
       = observe (mbind (target_read_insn_slow s 16 a) (\<lambda>v s. Val (ucast v) s))"
  using fast_read [OF assms] fast_write [OF assms] fast_fetch [OF ok rp] by blast

section \<open>Memory accesses keep the TLBs coherent\<close>

definition dirty_mono :: "PhysMemoryMap \<Rightarrow> PhysMemoryMap \<Rightarrow> bool" where
  "dirty_mono mm mm' \<longleftrightarrow> (\<forall>i off. phys_mem_is_dirty_bit (phys_mem_range mm i) off
     \<longrightarrow> phys_mem_is_dirty_bit (phys_mem_range mm' i) off)"

definition keeps_xlate :: "hart \<Rightarrow> hart \<Rightarrow> bool" where
  "keeps_xlate s s' \<longleftrightarrow> (\<forall>va acc. riscv_cpu_get_phys_addr s' va acc = riscv_cpu_get_phys_addr s va acc)
     \<and> same_ranges (mem_map (machine s)) (mem_map (machine s'))
     \<and> dirty_mono (mem_map (machine s)) (mem_map (machine s'))"

lemma dirty_mono_refl [simp]: "dirty_mono mm mm"
  by (simp add: dirty_mono_def)

lemma same_xlate_keeps:
  "same_xlate s s' \<Longrightarrow> dirty_mono (mem_map (machine s)) (mem_map (machine s')) \<Longrightarrow> keeps_xlate s s'"
  by (simp add: keeps_xlate_def get_phys_addr_same same_xlate_def)

lemma maps_page_keeps:
  assumes "keeps_xlate s s'" and "maps_page s acc e" shows "maps_page s' acc e"
  using assms same_ranges_lookup [of "mem_map (machine s)" "mem_map (machine s')"]
    same_ranges_range [of "mem_map (machine s)" "mem_map (machine s')"]
  unfolding maps_page_def keeps_xlate_def dirty_mono_def Let_def by (metis (no_types, lifting))

lemma tlb_ok_keeps:
  assumes "tlb_ok s" and "keeps_xlate s s'"
    and "tlb_read s' = tlb_read s" "tlb_write s' = tlb_write s" "tlb_code s' = tlb_code s"
  shows "tlb_ok s'"
  using assms maps_page_keeps [OF assms(2)] by (simp add: tlb_ok_def)

lemma ram_paged_same:
  assumes "same_ranges mm mm'" and "ram_paged mm" shows "ram_paged mm'"
  using assms(2) unfolding ram_paged_def same_ranges_lookup [OF assms(1)] same_ranges_range [OF assms(1)] .

lemma tlb_entry_fields [simp]:
  "vaddr (tlb_entry a p) = page_base a" "mem_addend (tlb_entry a p) = p - a"
  unfolding tlb_entry_def page_base_def by (simp_all only: TLBEntry.simps)

text \<open>An entry made from a successful translation to RAM is coherent.\<close>

lemma fill_maps_page:
  assumes x: "ram_at s acc a pa pr" and rp: "ram_paged (mem_map (machine s))"
    and d: "acc = ACCESS_WRITE \<Longrightarrow> phys_mem_is_dirty_bit pr (pa - pr_addr pr)"
  shows "maps_page s acc (tlb_entry a (host_ptr pr pa))"
proof -
  obtain i where g: "riscv_cpu_get_phys_addr s a acc = Paddr pa"
    and r: "get_phys_mem_range (mem_map (machine s)) pa = Some i" "is_ram pr"
    and pr: "pr = phys_mem_range (mem_map (machine s)) i"
    using x by (auto simp: ram_at_def)
  have pb: "page_base a = page_base (page_base a)" by (simp add: page_base_eq_iff bit_page_base)
  let ?pa = "in_page pa (page_base a)"
  have same: "page_base ?pa = page_base pa" by simp
  have r': "get_phys_mem_range (mem_map (machine s)) ?pa = Some i"
    and al: "page_base (pr_addr pr) = pr_addr pr"
    using rp r same unfolding ram_paged_def pr by blast+
  have "?pa - pa = page_base a - a"
    by (rule in_page_offset [OF _ pb]) (use get_phys_addr_offset [OF g] in simp)
  then have pa: "?pa = pa + (page_base a - a)" by (simp add: algebra_simps)
  have "host_ptr pr (pa + d) = host_ptr pr pa + d" for d by (simp add: host_ptr_def)
  then have h: "host_ptr pr pa - a + page_base a = host_ptr pr ?pa" unfolding pa by simp
  have "riscv_cpu_get_phys_addr s (page_base a) acc = Paddr ?pa"
    using get_phys_addr_in_page [OF pb, of s acc] g by simp
  moreover have "phys_mem_is_dirty_bit pr (?pa - pr_addr pr)" if "acc = ACCESS_WRITE"
    using d [OF that] unfolding phys_mem_is_dirty_bit_def Let_def page_of_sub [OF same al] .
  ultimately show ?thesis
    using r' r(2) h pb unfolding pr
    by (auto simp: maps_page_def Let_def)
qed

text \<open>A state change that keeps translation and installs coherent entries.\<close>

lemma tlb_ok_update:
  assumes ok: "tlb_ok s" and k: "keeps_xlate s s'"
    and "\<And>i. tlb_read s' i = tlb_read s i \<or> maps_page s' ACCESS_READ (tlb_read s' i)"
    and "\<And>i. tlb_write s' i = tlb_write s i \<or> maps_page s' ACCESS_WRITE (tlb_write s' i)"
    and "\<And>i. tlb_code s' i = tlb_code s i \<or> maps_page s' ACCESS_CODE (tlb_code s' i)"
  shows "tlb_ok s'"
  using assms maps_page_keeps [OF k] unfolding tlb_ok_def by metis

lemma fill_same [simp]:
  "same_xlate s (fill_tlb_read a pa p s)" "same_xlate s (fill_tlb_write a pa p s)"
  "same_xlate s (fill_tlb_code a pa p s)" "same_xlate s (pend s c t)"
  by (simp_all add: same_xlate_def fill_tlb_read_def fill_tlb_write_def fill_tlb_code_def pend_def)

lemma pend_simps [simp]:
  "tlb_read (pend s c t) = tlb_read s" "tlb_write (pend s c t) = tlb_write s"
  "tlb_code (pend s c t) = tlb_code s" "machine (pend s c t) = machine s"
  for s :: hart
  by (simp_all add: pend_def)

lemma tlb_ok_pend [simp]: "tlb_ok s \<Longrightarrow> tlb_ok (pend s c t)"
  by (erule tlb_ok_keeps) (simp_all add: same_xlate_keeps)

lemma same_core_eq:
  assumes "same_core c c'"
  shows "priv c' = priv c" "mstatus c' = mstatus c" "satp c' = satp c" "tlb_read c' = tlb_read c"
    "tlb_write c' = tlb_write c" "tlb_code c' = tlb_code c" "reg c' = reg c" "mhartid c' = mhartid c"
proof -
  let ?c = "c'\<lparr>mip := mip c, power_down_flag := power_down_flag c, mcycle := mcycle c,
        timecmp := timecmp c, plic_enable_irq := plic_enable_irq c\<rparr>"
  have e: "?c = c" using assms by (simp add: same_core_def)
  have "priv ?c = priv c" "mstatus ?c = mstatus c" "satp ?c = satp c" "tlb_read ?c = tlb_read c"
    "tlb_write ?c = tlb_write c" "tlb_code ?c = tlb_code c" "reg ?c = reg c" "mhartid ?c = mhartid c"
    by (simp_all only: e)
  then show "priv c' = priv c" "mstatus c' = mstatus c" "satp c' = satp c" "tlb_read c' = tlb_read c"
    "tlb_write c' = tlb_write c" "tlb_code c' = tlb_code c" "reg c' = reg c" "mhartid c' = mhartid c"
    by simp_all
qed

lemma cpu_of_fields [simp]:
  "priv (cpu_of s) = priv s" "mstatus (cpu_of s) = mstatus s" "satp (cpu_of s) = satp s"
  "tlb_read (cpu_of s) = tlb_read s" "tlb_write (cpu_of s) = tlb_write s"
  "tlb_code (cpu_of s) = tlb_code s" "reg (cpu_of s) = reg s" "mhartid (cpu_of s) = mhartid s"
  by (simp_all add: cpu_of_def RISCVCPUState.defs)

lemma dev_hart_same:
  assumes "dev_hart s s'"
  shows "same_xlate s s'" "mem_map (machine s') = mem_map (machine s)" "tlb_read s' = tlb_read s"
    "tlb_write s' = tlb_write s" "tlb_code s' = tlb_code s" "reg s' = reg s" "mhartid s' = mhartid s"
proof -
  have d: "dev_step (machine_of s) (machine s')" using assms by (simp add: dev_hart_def)
  note c = same_core_eq [OF dev_hart_core [OF assms], simplified] and m = dev_step_fields_eq [OF d, simplified]
  show "same_xlate s s'" "mem_map (machine s') = mem_map (machine s)" "tlb_read s' = tlb_read s"
    "tlb_write s' = tlb_write s" "tlb_code s' = tlb_code s" "reg s' = reg s" "mhartid s' = mhartid s"
    using c m by (simp_all add: same_xlate_def)
qed

lemma tlb_ok_dev: "tlb_ok s \<Longrightarrow> dev_hart s s' \<Longrightarrow> tlb_ok s'"
  by (rule tlb_ok_keeps) (simp_all add: dev_hart_same same_xlate_keeps)

fun mres_all :: "(hart \<Rightarrow> bool) \<Rightarrow> 'a mres \<Rightarrow> bool" where
  "mres_all P (Val v s) = P s"
| "mres_all P (Exc s) = P s"
| "mres_all P Abort = True"

lemma tlb_ok_fill_read:
  assumes "tlb_ok s" "ram_paged (mem_map (machine s))" "ram_at s ACCESS_READ a pa pr"
  shows "tlb_ok (fill_tlb_read a pa (host_ptr pr pa) s)"
proof (rule tlb_ok_update [OF assms(1)])
  show k: "keeps_xlate s (fill_tlb_read a pa (host_ptr pr pa) s)" by (simp add: same_xlate_keeps)
  have "maps_page (fill_tlb_read a pa (host_ptr pr pa) s) ACCESS_READ (tlb_entry a (host_ptr pr pa))"
    by (rule maps_page_keeps [OF k], rule fill_maps_page [OF assms(3,2)]) simp
  then show "tlb_read (fill_tlb_read a pa (host_ptr pr pa) s) i = tlb_read s i
      \<or> maps_page (fill_tlb_read a pa (host_ptr pr pa) s) ACCESS_READ
          (tlb_read (fill_tlb_read a pa (host_ptr pr pa) s) i)" for i
    by (cases "i = tlb_index a") (simp_all add: fill_tlb_read_def)
qed (simp_all add: fill_tlb_read_def)

lemma tlb_ok_fill_code:
  assumes "tlb_ok s" "ram_paged (mem_map (machine s))" "ram_at s ACCESS_CODE a pa pr"
  shows "tlb_ok (fill_tlb_code a pa (host_ptr pr pa) s)"
proof (rule tlb_ok_update [OF assms(1)])
  show k: "keeps_xlate s (fill_tlb_code a pa (host_ptr pr pa) s)" by (simp add: same_xlate_keeps)
  have "maps_page (fill_tlb_code a pa (host_ptr pr pa) s) ACCESS_CODE (tlb_entry a (host_ptr pr pa))"
    by (rule maps_page_keeps [OF k], rule fill_maps_page [OF assms(3,2)]) simp
  then show "tlb_code (fill_tlb_code a pa (host_ptr pr pa) s) i = tlb_code s i
      \<or> maps_page (fill_tlb_code a pa (host_ptr pr pa) s) ACCESS_CODE
          (tlb_code (fill_tlb_code a pa (host_ptr pr pa) s) i)" for i
    by (cases "i = tlb_index a") (simp_all add: fill_tlb_code_def)
qed (simp_all add: fill_tlb_code_def)

lemma set_dirty_only: "(phys_mem_set_dirty_bit pr off)\<lparr>dirty_bits_tab := dirty_bits_tab pr\<rparr> = pr"
  by (simp add: phys_mem_set_dirty_bit_def Let_def split: option.splits)

lemma mark_dirty_machine:
  "mark_dirty pa s = s\<lparr>machine := machine (mark_dirty pa s)\<rparr>"
  "machine (mark_dirty pa s) = (machine s)\<lparr>mem_map := mem_map (machine (mark_dirty pa s))\<rparr>"
  by (simp_all add: mark_dirty_def Let_def split: option.splits)

lemma mark_dirty_fields [simp]:
  "tlb_read (mark_dirty pa s) = tlb_read s" "tlb_write (mark_dirty pa s) = tlb_write s"
  "tlb_code (mark_dirty pa s) = tlb_code s" "reg (mark_dirty pa s) = reg s"
  "host_mem (machine (mark_dirty pa s)) = host_mem (machine s)" "mhartid (mark_dirty pa s) = mhartid s"
  by (simp_all add: mark_dirty_def Let_def split: option.splits)

lemma mark_dirty_mem_map:
  "same_ranges (mem_map (machine s)) (mem_map (machine (mark_dirty pa s)))"
  "dirty_mono (mem_map (machine s)) (mem_map (machine (mark_dirty pa s)))"
  by (auto simp: mark_dirty_def Let_def set_range_def same_ranges_def dirty_mono_def set_dirty_only
      is_dirty_after_set split: option.splits)

lemma mark_dirty_marks:
  assumes "get_phys_mem_range (mem_map (machine s)) pa = Some i"
  defines "pr \<equiv> phys_mem_range (mem_map (machine (mark_dirty pa s))) i"
  shows "phys_mem_is_dirty_bit pr (pa - pr_addr pr)"
proof -
  have "pr_addr pr = pr_addr (phys_mem_range (mem_map (machine s)) i)"
    unfolding pr_def by (rule same_ranges_range(1) [OF mark_dirty_mem_map(1)])
  then show ?thesis
    unfolding pr_def using assms(1) by (simp add: mark_dirty_def Let_def set_range_def is_dirty_after_set)
qed

lemma ram_write_keeps:
  assumes ok: "tlb_ok s" and rp: "ram_paged (mem_map (machine s))" and x: "ram_at s ACCESS_WRITE a pa pr"
    and s': "s' = set_host_mem h (fill_tlb_write a pa (host_ptr pr pa) (mark_dirty pa s))"
    and same: "\<And>va acc. riscv_cpu_get_phys_addr s' va acc = riscv_cpu_get_phys_addr s va acc"
  shows "tlb_ok s'"
proof (rule tlb_ok_update [OF ok])
  have mm: "mem_map (machine s') = mem_map (machine (mark_dirty pa s))"
    by (simp add: s' set_host_mem_def)
  note sr = mark_dirty_mem_map(1) [of s pa, folded mm]
  show k: "keeps_xlate s s'" using same sr mark_dirty_mem_map(2) [of s pa] by (simp add: keeps_xlate_def mm)
  obtain i where i: "get_phys_mem_range (mem_map (machine s)) pa = Some i" "is_ram pr"
    and pr: "pr = phys_mem_range (mem_map (machine s)) i"
    using x by (auto simp: ram_at_def)
  define pr' where "pr' = phys_mem_range (mem_map (machine s')) i"
  have "ram_at s' ACCESS_WRITE a pa pr'"
    using x i same sr by (simp add: ram_at_def pr'_def pr same_ranges_lookup same_ranges_range)
  moreover have "phys_mem_is_dirty_bit pr' (pa - pr_addr pr')"
    using mark_dirty_marks [OF i(1)] by (simp add: pr'_def mm)
  moreover have "host_ptr pr' pa = host_ptr pr pa" by (simp add: pr'_def pr same_ranges_range [OF sr])
  ultimately have e: "maps_page s' ACCESS_WRITE (tlb_entry a (host_ptr pr pa))"
    using fill_maps_page [of s' ACCESS_WRITE a pa pr'] ram_paged_same [OF sr rp] by simp
  show "tlb_write s' i = tlb_write s i \<or> maps_page s' ACCESS_WRITE (tlb_write s' i)" for i
    using e by (cases "i = tlb_index a") (simp_all add: s' set_host_mem_def fill_tlb_write_def)
qed (simp_all add: s' set_host_mem_def fill_tlb_write_def)

lemma pmp_range: "get_phys_mem_range_pmp s pa n perm = Some pr \<longleftrightarrow>
    (\<exists>i. get_phys_mem_range (mem_map (machine s)) pa = Some i \<and> pr = phys_mem_range (mem_map (machine s)) i)"
  by (auto simp: get_phys_mem_range_pmp_def riscv_cpu_pmp_access_ok_def)

text \<open>The outcomes of the slow paths.\<close>

lemma read_memory_cases:
  obtains (exc) c where "riscv_cpu_read_memory s a k = Exc (pend s c a)"
    | (abort) "riscv_cpu_read_memory s a k = Abort"
    | (ram) pa pr where "ram_at s ACCESS_READ a pa pr" "\<not> misaligned k a" "k \<le> 3"
    | (dev) pr off v s' where "with_machine (device_load pr off k) s = Some (v, s')"
        "riscv_cpu_read_memory s a k = Val v s'"
proof (cases "misaligned k a")
  case True
  then show ?thesis using exc by (simp add: riscv_cpu_read_memory_def)
next
  case al: False
  show ?thesis
  proof (cases "riscv_cpu_get_phys_addr s a ACCESS_READ")
    case (Paddr pa)
    show ?thesis
    proof (cases "get_phys_mem_range_pmp s pa (push_bit k 1) PMPCFG_R")
      case None
      then show ?thesis using Paddr al exc by (simp add: riscv_cpu_read_memory_def)
    next
      case (Some pr)
      note r = riscv_cpu_read_memory_def [of s a k, unfolded Paddr xlate.case Some option.case if_not_P [OF al]]
      show ?thesis
      proof (cases "is_ram pr")
        case True
        with Paddr Some have "ram_at s ACCESS_READ a pa pr" by (auto simp: ram_at_def pmp_range)
        then show ?thesis using True r ram abort al by (cases "k \<le> 3") (simp_all add: Let_def)
      next
        case False
        then show ?thesis using r dev abort
          by (cases "with_machine (device_load pr (pa - pr_addr pr) k) s") auto
      qed
    qed
  qed (use al exc abort in \<open>simp_all add: riscv_cpu_read_memory_def\<close>)
qed

lemma write_memory_cases:
  obtains (exc) c where "riscv_cpu_write_memory s a v k = Exc (pend s c a)"
    | (abort) "riscv_cpu_write_memory s a v k = Abort"
    | (ram) pa pr where "ram_at s ACCESS_WRITE a pa pr" "\<not> misaligned k a" "k \<le> 3"
    | (dev) pr off s' where "with_machine (device_store pr off v k) s = Some ((), s')"
        "riscv_cpu_write_memory s a v k = Val () s'"
proof (cases "misaligned k a")
  case True
  then show ?thesis using exc by (simp add: riscv_cpu_write_memory_def)
next
  case al: False
  show ?thesis
  proof (cases "riscv_cpu_get_phys_addr s a ACCESS_WRITE")
    case (Paddr pa)
    show ?thesis
    proof (cases "get_phys_mem_range_pmp s pa (push_bit k 1) PMPCFG_W")
      case None
      then show ?thesis using Paddr al exc by (simp add: riscv_cpu_write_memory_def)
    next
      case (Some pr)
      note r = riscv_cpu_write_memory_def [of s a v k, unfolded Paddr xlate.case Some option.case if_not_P [OF al]]
      show ?thesis
      proof (cases "is_ram pr")
        case True
        with Paddr Some have "ram_at s ACCESS_WRITE a pa pr" by (auto simp: ram_at_def pmp_range)
        then show ?thesis using True r ram abort al by (cases "k \<le> 3") (simp_all add: Let_def)
      next
        case False
        then show ?thesis using r dev abort
          by (cases "with_machine (device_store pr (pa - pr_addr pr) v k) s") auto
      qed
    qed
  qed (use al exc abort in \<open>simp_all add: riscv_cpu_write_memory_def\<close>)
qed

lemma read_memory_keeps:
  assumes "tlb_ok s" and "ram_paged (mem_map (machine s))"
  shows "mres_all tlb_ok (riscv_cpu_read_memory s a k)"
proof (cases rule: read_memory_cases [of s a k])
  case (ram pa pr)
  then show ?thesis using tlb_ok_fill_read [OF assms ram(1)] by (simp add: read_memory_ram)
next
  case (dev pr off v s')
  then show ?thesis
    using tlb_ok_dev [OF assms(1)] with_machine_dev [OF dev(1)] device_load_frame by simp
qed (use assms in simp_all)

lemma read_keeps:
  assumes "tlb_ok s" and "ram_paged (mem_map (machine s))"
  shows "mres_all tlb_ok (target_read k s a)"
proof -
  have "mres_all tlb_ok (mbind r (\<lambda>v s. Val (f v) s))" if "mres_all tlb_ok r" for r :: "u64 mres" and f
    using that by (cases r) simp_all
  from this [of "riscv_cpu_read_memory s a k" "take_bit (8 * 2 ^ k)"] show ?thesis
    using read_memory_keeps [OF assms] assms(1) by (simp add: target_read_def Let_def)
qed

lemma write_keeps:
  assumes ok: "tlb_ok s" and rp: "ram_paged (mem_map (machine s))"
  shows "mres_all (\<lambda>s'. (\<forall>va acc. riscv_cpu_get_phys_addr s' va acc = riscv_cpu_get_phys_addr s va acc)
     \<longrightarrow> tlb_ok s') (riscv_cpu_write_memory s a v k)"
proof (cases rule: write_memory_cases [of s a v k])
  case (ram pa pr)
  then show ?thesis using ram_write_keeps [OF ok rp ram(1) refl] by (simp add: write_memory_ram)
next
  case (dev pr off s')
  then show ?thesis
    using tlb_ok_dev [OF ok] with_machine_dev [OF dev(1)] device_store_frame by simp
qed (use ok in simp_all)

lemma fetch_keeps:
  assumes ok: "tlb_ok s" and rp: "ram_paged (mem_map (machine s))"
  shows "mres_all tlb_ok (target_read_insn_slow s sz a)"
proof -
  have fault: "mres_all tlb_ok (fetch_fault s a x)" if "tlb_ok s" for s a and x
    using that by (cases x) (simp_all add: fetch_fault_def)
  have fill: "tlb_ok (fill_tlb_code a pa (host_ptr pr pa) s)"
    if "riscv_cpu_get_phys_addr s a ACCESS_CODE = Paddr pa" and "exec_range s pa n = Some pr" for pa pr n
    by (rule tlb_ok_fill_code [OF assms])
      (use that in \<open>auto simp: ram_at_def exec_range_def pmp_range split: option.splits if_splits\<close>)
  show ?thesis
    unfolding target_read_insn_slow_def Let_def riscv_cpu_pmp_access_ok_def if_True
    using fault fill ok by (auto split: xlate.splits option.splits)
qed

text \<open>
  C12. Coherence is kept by every memory access: a load, a fetch, and any access that faults leave
  the TLBs coherent, including the entries they install; so does a store, whether to RAM or to a
  device, unless it changes the page tables in use (after which software has to execute
  \<open>sfence.vma\<close>).
\<close>

theorem accesses_keep_tlb_ok:
  assumes "tlb_ok s" and "ram_paged (mem_map (machine s))"
  shows "mres_all tlb_ok (target_read k s a)
    \<and> mres_all tlb_ok (target_read_insn_slow s sz a)
    \<and> mres_all (\<lambda>s'. (\<forall>va acc. riscv_cpu_get_phys_addr s' va acc = riscv_cpu_get_phys_addr s va acc)
         \<longrightarrow> tlb_ok s') (target_write k s a v)"
proof (intro conjI)
  have hit: "tlb_ok (set_host_mem h s)"
    if "\<And>va acc. riscv_cpu_get_phys_addr (set_host_mem h s) va acc = riscv_cpu_get_phys_addr s va acc" for h
    by (rule tlb_ok_keeps [OF assms(1)]) (use that in \<open>simp_all add: keeps_xlate_def set_host_mem_def\<close>)
  show "mres_all (\<lambda>s'. (\<forall>va acc. riscv_cpu_get_phys_addr s' va acc = riscv_cpu_get_phys_addr s va acc)
         \<longrightarrow> tlb_ok s') (target_write k s a v)"
    using hit write_keeps [OF assms, of a "take_bit (8 * 2 ^ k) v" k] assms(1)
    by (auto simp: target_write_def Let_def)
qed (use read_keeps fetch_keeps assms in auto)

section \<open>Changes of context\<close>

text \<open>Two states in which every translation gives the same result.\<close>

definition same_context :: "hart \<Rightarrow> hart \<Rightarrow> bool" where
  "same_context s s' \<longleftrightarrow> machine s' = machine s \<and> satp s' = satp s
     \<and> (\<forall>c. effective_priv s' c = effective_priv s c)
     \<and> bit (mstatus s') 18 = bit (mstatus s) 18 \<and> bit (mstatus s') 19 = bit (mstatus s) 19"

lemma same_context_refl [simp]: "same_context s s"
  by (simp add: same_context_def)

lemma walk_context:
  assumes "same_context s s'"
  shows "walk s' p acc va n base = walk s p acc va n base"
proof (induction n arbitrary: base)
  case (Suc n)
  have "leaf_ok s' p acc n pte = leaf_ok s p acc n pte" for pte
    using assms flag_bits(5,6) [of "mstatus s"] flag_bits(5,6) [of "mstatus s'"]
    by (simp add: leaf_ok_def same_context_def)
  moreover have "riscv_phys_read 8 s' a = riscv_phys_read 8 s a" for a
    using assms by (intro phys_read_same) (simp_all add: same_context_def)
  ultimately show ?case
    unfolding walk.simps Let_def using Suc by (simp cong: pread.case_cong if_cong)
qed simp

lemma tlb_ok_context:
  assumes ok: "tlb_ok s" and c: "same_context s s'"
    and "tlb_read s' = tlb_read s" "tlb_write s' = tlb_write s" "tlb_code s' = tlb_code s"
  shows "tlb_ok s'"
proof (rule tlb_ok_keeps [OF ok])
  have "riscv_cpu_get_phys_addr s' va acc = riscv_cpu_get_phys_addr s va acc" for va acc
    unfolding riscv_cpu_get_phys_addr_def Let_def walk_context [OF c]
    using c by (simp add: same_context_def cong: if_cong)
  then show "keeps_xlate s s'" using c by (simp add: keeps_xlate_def same_context_def)
qed (use assms in simp_all)

lemma tlb_ok_flush:
  assumes "\<And>i. i < TLB_SIZE \<Longrightarrow> vaddr (tlb_read s i) = - 1 \<and> vaddr (tlb_write s i) = - 1 \<and> vaddr (tlb_code s i) = - 1"
  shows "tlb_ok s"
  using assms by (simp add: tlb_ok_def maps_page_def)

lemma flush_invalid:
  "i < TLB_SIZE \<Longrightarrow> vaddr (tlb_read (tlb_flush_all s) i) = - 1 \<and> vaddr (tlb_write (tlb_flush_all s) i) = - 1
     \<and> vaddr (tlb_code (tlb_flush_all s) i) = - 1"
  by (simp add: tlb_flush_all_def tlb_init_def tlb_invalidate_def)

lemma tlb_ok_flush_all [simp]: "tlb_ok (tlb_flush_all s)"
  by (rule tlb_ok_flush) (rule flush_invalid)

lemma flush_fields [simp]:
  "priv (tlb_flush_all s) = priv s" "mstatus (tlb_flush_all s) = mstatus s" "satp (tlb_flush_all s) = satp s"
  "reg (tlb_flush_all s) = reg s" "mhartid (tlb_flush_all s) = mhartid s" "pc (tlb_flush_all s) = pc s"
  by (simp_all add: tlb_flush_all_def tlb_init_def)

lemma flush_machine [simp]: "machine (tlb_flush_all s) = machine s"
  by (simp add: tlb_flush_all_def tlb_init_def)

lemma MPP_eq:
  assumes "bit a 11 = bit b 11" and "bit a 12 = bit b 12"
  shows "drop_bit MSTATUS_MPP_SHIFT a AND 3 = drop_bit MSTATUS_MPP_SHIFT (b :: u64) AND 3"
proof (rule bit_word_eqI)
  fix n :: nat
  have m: "(3 :: u64) = mask 2" by (simp add: mask_eq_exp_minus_1)
  have "n < 2 \<longleftrightarrow> n = 0 \<or> n = 1" by auto
  then show "bit (drop_bit MSTATUS_MPP_SHIFT a AND 3) n = bit (drop_bit MSTATUS_MPP_SHIFT b AND 3) n"
    unfolding m using assms by (auto simp: bit_and_iff bit_mask_iff bit_drop_bit_eq)
qed

lemma MPRV_bit: "(w :: u64) AND MSTATUS_MPRV = 0 \<longleftrightarrow> \<not> bit w 17"
  using and_exp_eq_0_iff_not_bit [of w 17] by simp

text \<open>Equal privilege and equal translation bits of \<open>mstatus\<close>.\<close>

lemma same_contextI:
  assumes "machine s' = machine s" "satp s' = satp s" "priv s' = priv s"
    and "\<And>n. n \<in> {17, 18, 19} \<Longrightarrow> bit (mstatus s') n = bit (mstatus s) n"
    and "bit (mstatus s) 17 \<Longrightarrow> bit (mstatus s') 11 = bit (mstatus s) 11 \<and> bit (mstatus s') 12 = bit (mstatus s) 12"
  shows "same_context s s'"
proof -
  have "effective_priv s' c = effective_priv s c" for c
    using assms MPP_eq [of "mstatus s'" "mstatus s"] by (auto simp: effective_priv_def MPRV_bit)
  then show ?thesis using assms by (simp add: same_context_def)
qed

lemma set_priv_fields [simp]:
  "priv (set_priv s p) = p" "mstatus (set_priv s p) = mstatus s" "satp (set_priv s p) = satp s"
  "reg (set_priv s p) = reg s" "mhartid (set_priv s p) = mhartid s"
  by (simp_all add: set_priv_def)

lemma set_priv_machine [simp]: "machine (set_priv s p) = machine s"
  by (simp add: set_priv_def)

lemma effective_priv_pc [simp]: "effective_priv (s\<lparr>pc := v\<rparr>) c = effective_priv s c"
  by (simp add: effective_priv_def)

text \<open>A new status word, then a switch of privilege, then a new pc.\<close>

lemma tlb_ok_switch:
  assumes ok: "tlb_ok s"
    and st: "priv s = p \<Longrightarrow> same_context s (s1\<lparr>mstatus := st\<rparr>)"
    and s1: "tlb_read s1 = tlb_read s" "tlb_write s1 = tlb_write s" "tlb_code s1 = tlb_code s" "priv s1 = priv s"
  shows "tlb_ok ((set_priv (s1\<lparr>mstatus := st\<rparr>) p)\<lparr>pc := v\<rparr>)"
proof (cases "priv s = p")
  case True
  then have "same_context s (s1\<lparr>mstatus := st, pc := v\<rparr>)"
    using st by (simp add: same_context_def)
  then show ?thesis using True s1 tlb_ok_context [OF ok, of "s1\<lparr>mstatus := st, pc := v\<rparr>"]
    by (simp add: set_priv_def)
next
  case False
  then show ?thesis
    by (intro tlb_ok_flush) (simp add: set_priv_def s1 tlb_flush_all_def tlb_init_def tlb_invalidate_def)
qed

section \<open>Control registers and traps keep the TLBs coherent\<close>

text \<open>Updates that do not touch the machine, the privilege, translation, the TLBs or the registers.\<close>

definition quiet :: "hart \<Rightarrow> hart \<Rightarrow> bool" where
  "quiet s s' \<longleftrightarrow> machine s' = machine s \<and> mhartid s' = mhartid s \<and> priv s' = priv s
     \<and> mstatus s' = mstatus s \<and> satp s' = satp s \<and> tlb_read s' = tlb_read s
     \<and> tlb_write s' = tlb_write s \<and> tlb_code s' = tlb_code s \<and> reg s' = reg s"

lemma quiet_refl [simp]: "quiet s s"
  by (simp add: quiet_def)

lemma quiet_trans [trans]: "quiet a b \<Longrightarrow> quiet b c \<Longrightarrow> quiet a c"
  by (simp add: quiet_def)

lemma tlb_ok_quiet: "tlb_ok s \<Longrightarrow> quiet s s' \<Longrightarrow> tlb_ok s'"
  by (erule tlb_ok_context) (simp_all add: quiet_def same_context_def effective_priv_def)

lemma pmp_push_quiet: "quiet s (pmp_push c l h s)"
  by (simp add: quiet_def pmp_push_def)

lemma unpack_quiet: "quiet s (fold unpack_pmp_entry is s)"
proof (induction "is" arbitrary: s)
  case (Cons i "is")
  have "quiet s (unpack_pmp_entry i s)"
    by (simp add: unpack_pmp_entry_def Let_def pmp_push_quiet)
  then show ?case using Cons quiet_trans by simp
qed simp

text \<open>What a write to a control register can do.\<close>

inductive csr_effect :: "hart \<Rightarrow> hart \<Rightarrow> bool" for s where
  quiet: "quiet s s' \<Longrightarrow> csr_effect s s'"
| status: "csr_effect s (set_mstatus s w)"
| flush: "quiet s s1 \<Longrightarrow> csr_effect s (tlb_flush_all (s1\<lparr>satp := x\<rparr>))"

lemma csr_effect_pmp: "quiet s s1 \<Longrightarrow> csr_effect s (unpack_pmpaddrs s1)"
proof -
  assume q: "quiet s s1"
  let ?t = "fold unpack_pmp_entry [0..<16] (s1\<lparr>pmp_n := 0\<rparr>)"
  have "quiet s1 (s1\<lparr>pmp_n := 0\<rparr>)" by (simp add: quiet_def)
  with q unpack_quiet [of "s1\<lparr>pmp_n := 0\<rparr>" "[0..<16]"] have "quiet s ?t" by (blast intro: quiet_trans)
  from csr_effect.flush [OF this, of "satp ?t"] show ?thesis by (simp add: unpack_pmpaddrs_def)
qed

lemma csr_effect_if:
  "csr_effect s (snd a) \<Longrightarrow> csr_effect s (snd b) \<Longrightarrow> csr_effect s (snd (if c then a else b))"
  by simp

lemma csr_effect_hook: "hooks_csr_write (machine s) = None \<Longrightarrow> csr_effect s (snd (csr_write_hook s csr v))"
  by (simp add: csr_write_hook_def csr_effect.quiet)

lemma csr_effect_special:
  "csr_effect s (write_satp s v)" "csr_effect s (write_pmpcfg s c v)" "csr_effect s (write_pmpaddr s i v)"
proof -
  show "csr_effect s (write_satp s v)"
    using csr_effect.flush [of s s "satp s"] csr_effect.flush [of s s "v AND SATP_MASK"]
    by (simp add: write_satp_def Let_def)
  show "csr_effect s (write_pmpcfg s c v)"
    by (auto simp: write_pmpcfg_def quiet_def intro: csr_effect.quiet csr_effect_pmp)
  show "csr_effect s (write_pmpaddr s i v)"
    by (auto simp: write_pmpaddr_def quiet_def intro: csr_effect.quiet csr_effect_pmp)
qed

lemma csr_write_effect:
  assumes "hooks_csr_write (machine s) = None"
  shows "csr_effect s (snd (csr_write s csr v))"
  unfolding csr_write_def
  by (intro csr_effect_if, unfold snd_conv)
    (rule csr_effect_special csr_effect.status csr_effect_hook [OF assms] |
     (rule csr_effect.quiet, simp add: quiet_def set_frm_def write_tdata1_def write_dcsr_def Let_def))+

lemma tlb_ok_set_mstatus:
  assumes ok: "tlb_ok s" shows "tlb_ok (set_mstatus s v)"
proof -
  define modified where "modified = mstatus s XOR v"
  define fl where "fl \<longleftrightarrow> modified AND (MSTATUS_MPRV OR MSTATUS_SUM OR MSTATUS_MXR) \<noteq> 0
      \<or> mstatus s AND MSTATUS_MPRV \<noteq> 0 \<and> modified AND MSTATUS_MPP \<noteq> 0"
  have s': "machine (set_mstatus s v) = machine s" "satp (set_mstatus s v) = satp s"
    "priv (set_mstatus s v) = priv s"
    "tlb_read (set_mstatus s v) = tlb_read (if fl then tlb_flush_all s else s)"
    "tlb_write (set_mstatus s v) = tlb_write (if fl then tlb_flush_all s else s)"
    "tlb_code (set_mstatus s v) = tlb_code (if fl then tlb_flush_all s else s)"
    by (simp_all add: set_mstatus_def Let_def fl_def modified_def)
  show ?thesis
  proof (cases fl)
    case True
    then show ?thesis using flush_invalid [of _ s] by (intro tlb_ok_flush) (simp add: s')
  next
    case False
    have lit: "bit (MSTATUS_MPRV OR MSTATUS_SUM OR MSTATUS_MXR :: u64) n \<longleftrightarrow> n \<in> {17, 18, 19}" for n
    proof -
      have "(MSTATUS_MPRV OR MSTATUS_SUM OR MSTATUS_MXR :: u64) = push_bit 17 1 OR push_bit 18 1 OR push_bit 19 1"
        by simp
      then show ?thesis by (simp only: bit_or_iff push_1_bit) auto
    qed
    have sep: "w AND m = 0 \<Longrightarrow> bit m n \<Longrightarrow> \<not> bit w n" for w m :: u64 and n
      using bit_and_iff [of w m n] by simp
    have eq: "bit v n = bit (mstatus s) n" if "n \<in> {17, 18, 19}" for n
    proof -
      have "modified AND (MSTATUS_MPRV OR MSTATUS_SUM OR MSTATUS_MXR) = 0" using False by (simp add: fl_def)
      from sep [OF this iffD2 [OF lit that]] show ?thesis by (auto simp: modified_def bit_xor_iff)
    qed
    have mpp: "bit v n = bit (mstatus s) n" if b: "bit (mstatus s) 17" and n: "n = 11 \<or> n = 12" for n
    proof -
      have "modified AND MSTATUS_MPP = 0" using False b MPRV_bit [of "mstatus s"] by (simp add: fl_def)
      from sep [OF this iffD2 [OF status_literals(6) n]] show ?thesis by (auto simp: modified_def bit_xor_iff)
    qed
    have w: "n \<in> mstatus_writable" if "n \<in> {11, 12, 17, 18, 19}" for n
      using that by (auto simp: mstatus_writable_def)
    have "same_context s (set_mstatus s v)"
      by (rule same_contextI) (use eq mpp w in \<open>auto simp: s' set_mstatus_bit\<close>)
    then show ?thesis using False by (intro tlb_ok_context [OF ok]) (simp_all add: s')
  qed
qed

lemma tlb_ok_csr_effect: "csr_effect s s' \<Longrightarrow> tlb_ok s \<Longrightarrow> tlb_ok s'"
  by (erule csr_effect.cases) (simp_all add: tlb_ok_quiet tlb_ok_set_mstatus)

lemma tlb_ok_exception:
  assumes ok: "tlb_ok s" and m: "priv s = PRV_M \<Longrightarrow> \<not> bit (mstatus s) 17"
  shows "tlb_ok (raise_exception2 s cause tval)"
proof (cases "trap_delegated s cause")
  case True
  let ?s1 = "s\<lparr>scause := cause, sepc := CANONICAL_S49 (pc s), stval := CANONICAL_S49 tval\<rparr>"
  have b: "bit (s_entry_status (mstatus s) 1) n = bit (mstatus s) n" if "n \<in> {11, 12, 17, 18, 19}" for n
    using that by (auto simp: s_entry_bit bit_1_iff dest: bit_imp_le_length)
  have "same_context s (?s1\<lparr>mstatus := s_entry_status (mstatus s) (priv s)\<rparr>)" if "priv s = PRV_S"
    by (rule same_contextI) (use that b in auto)
  from tlb_ok_switch [OF ok this, where p = PRV_S and v = "trap_target (stvec s) cause"] show ?thesis
    using True by (simp add: raise_exception2_def enter_s_status Let_def set_priv_def tlb_flush_all_def tlb_init_def split: if_splits)
next
  case False
  let ?s1 = "s\<lparr>mcause := cause, mepc := CANONICAL_S49 (pc s), mtval := CANONICAL_S49 tval\<rparr>"
  have b: "bit (m_entry_status (mstatus s) 3) n = bit (mstatus s) n" if n: "n \<in> {17, 18, 19}" for n
  proof -
    have "\<not> bit (3 :: u8) (n - 11)" using n priv_bits [of 3 "n - 11"] by auto
    then show ?thesis using n by (auto simp: m_entry_bit dest: bit_imp_le_length)
  qed
  have "same_context s (?s1\<lparr>mstatus := m_entry_status (mstatus s) (priv s)\<rparr>)" if "priv s = PRV_M"
    by (rule same_contextI) (use that b m in auto)
  from tlb_ok_switch [OF ok this, where p = PRV_M and v = "trap_target (mtvec s) cause"] show ?thesis
    using False by (simp add: raise_exception2_def enter_m_status Let_def set_priv_def tlb_flush_all_def tlb_init_def split: if_splits)
qed

lemma tlb_ok_sret: "tlb_ok s \<Longrightarrow> tlb_ok (handle_sret s)"
proof -
  assume ok: "tlb_ok s"
  have "same_context s (s\<lparr>mstatus := s_return_status (mstatus s)\<rparr>)"
    by (rule same_contextI) (auto simp: s_return_bit)
  from tlb_ok_switch [OF ok this, where p = "SPP_of (mstatus s)" and v = "sepc s"] show ?thesis
    by (simp add: handle_sret_status Let_def set_priv_def tlb_flush_all_def tlb_init_def split: if_splits)
qed

lemma tlb_ok_mret: "tlb_ok s \<Longrightarrow> \<not> bit (mstatus s) 17 \<Longrightarrow> tlb_ok (handle_mret s)"
proof -
  assume ok: "tlb_ok s" and m: "\<not> bit (mstatus s) 17"
  have "same_context s (s\<lparr>mstatus := m_return_status (mstatus s)\<rparr>)"
    by (rule same_contextI) (use m in \<open>auto simp: m_return_bit\<close>)
  from tlb_ok_switch [OF ok this, where p = "MPP_of (mstatus s)" and v = "mepc s"] show ?thesis
    by (simp add: handle_mret_status Let_def set_priv_def tlb_flush_all_def tlb_init_def split: if_splits)
qed

lemma tlb_ok_dret: "tlb_ok s \<Longrightarrow> tlb_ok (handle_dret s)"
proof -
  assume ok: "tlb_ok s"
  let ?s1 = "s\<lparr>stop_the_counter := False, debug_mode := False\<rparr>"
  have "same_context s (?s1\<lparr>mstatus := mstatus s\<rparr>)" by (rule same_contextI) simp_all
  from tlb_ok_switch [OF ok this, where p = "ucast (dcsr s AND 3)" and v = "dpc s"] show ?thesis
    by (simp add: handle_dret_def Let_def set_priv_def tlb_flush_all_def tlb_init_def split: if_splits)
qed

text \<open>
  C11. Coherence is kept by every operation that changes the translation context: writes to any
  control register (without an external hook), \<open>sret\<close> and \<open>dret\<close>, and, as long as the
  privilege of data accesses is not modified (MPRV), \<open>mret\<close> and trap entry. Where translation
  changes, the TLBs have been flushed.
\<close>

theorem context_changes_keep_tlb_ok:
  assumes "tlb_ok s" and "hooks_csr_write (machine s) = None"
  shows "tlb_ok (snd (csr_write s csr v)) \<and> tlb_ok (handle_sret s) \<and> tlb_ok (handle_dret s)
    \<and> (mstatus s AND MSTATUS_MPRV = 0
        \<longrightarrow> tlb_ok (handle_mret s) \<and> tlb_ok (raise_exception2 s cause tval))"
  using assms tlb_ok_csr_effect [OF csr_write_effect] tlb_ok_sret tlb_ok_dret tlb_ok_mret
    tlb_ok_exception MPRV_bit [of "mstatus s"] by blast

section \<open>Concrete machines\<close>

lemma unat_page_base: "unat (page_base a) = unat a div 4096 * 4096"
proof -
  have e: "page_base a = push_bit 12 (drop_bit 12 a)"
    by (rule bit_word_eqI) (auto simp: page_base_def PG_MASK_eq bit_simps)
  have "unat a div 4096 * 4096 < 2 ^ 64"
    by (rule order.strict_trans1 [OF div_times_less_eq_dividend]) (use unsigned_less [of a, where ?'a = nat] in simp)
  then show ?thesis
    unfolding e unsigned_push_bit_eq unsigned_drop_bit_eq
    by (simp add: take_bit_nat_eq_self drop_bit_eq_div push_bit_eq_mult)
qed

lemma page_le: "page_base x = x \<Longrightarrow> page_base b = page_base a \<Longrightarrow> (x \<le> b) = (x \<le> a)"
proof -
  assume x: "page_base x = x" and ab: "page_base b = page_base a"
  have "unat b div 4096 = unat a div 4096"
    using arg_cong [OF ab, of unat] by (simp add: unat_page_base)
  moreover have "(unat x div 4096 * 4096 \<le> n) = (unat x div 4096 \<le> n div 4096)" for n
    by (simp add: less_eq_div_iff_mult_less_eq)
  ultimately show ?thesis
    using unat_page_base [of x] unfolding x word_le_nat_alt by metis
qed

lemma ram_paged_aligned:
  assumes "\<And>i. i < n_phys_mem_range mm \<Longrightarrow>
      page_base (pr_addr (phys_mem_range mm i)) = pr_addr (phys_mem_range mm i)
    \<and> page_base (pr_addr (phys_mem_range mm i) + pr_size (phys_mem_range mm i))
        = pr_addr (phys_mem_range mm i) + pr_size (phys_mem_range mm i)"
  shows "ram_paged mm"
proof -
  have get_range_less: "i < n_phys_mem_range mm" if "get_phys_mem_range mm a = Some i" for a i
    using that by (simp add: get_phys_mem_range_def find_range_Some)
  have r: "in_range (phys_mem_range mm i) b = in_range (phys_mem_range mm i) a"
    if p: "page_base b = page_base a" and i: "i < n_phys_mem_range mm" for a b i
    using page_le [OF conjunct1 [OF assms [OF i]] p] page_le [OF conjunct2 [OF assms [OF i]] p]
    unfolding in_range_def not_le [symmetric] by simp
  have "find_range mm b n = find_range mm a n"
    if p: "page_base b = page_base a" and "n \<le> n_phys_mem_range mm" for a b n
    using that(2) by (induction n) (simp_all add: r [OF p])
  then have "get_phys_mem_range mm b = get_phys_mem_range mm a" if "page_base b = page_base a" for a b
    using that unfolding get_phys_mem_range_def by blast
  then show ?thesis
    unfolding ram_paged_def using assms get_range_less by metis
qed

text \<open>The machine of \<^const>\<open>walk_example\<close> with clean TLBs, in supervisor mode.\<close>

definition tlb_example :: hart where
  "tlb_example = tlb_flush_all walk_example"

lemma example_range:
  "n_phys_mem_range (mem_map (machine walk_example)) = 1"
  "pr_addr (phys_mem_range (mem_map (machine walk_example)) 0) = 0"
  "pr_size (phys_mem_range (mem_map (machine walk_example)) 0) = 0x2000"
  "is_ram (phys_mem_range (mem_map (machine walk_example)) 0)"
  by (simp_all add: walk_example_def RISCVCPUState.defs zero_machine_def register_ram_entry_def
      phys_mem_map_init_def set_range_def Let_def)

lemma example_paged: "ram_paged (mem_map (machine walk_example))"
  by (rule ram_paged_aligned) (simp add: example_range page_base_def)

lemma tlb_example_ok: "tlb_ok tlb_example" "ram_paged (mem_map (machine tlb_example))"
  by (simp_all add: tlb_example_def example_paged)

theorem fast_path_refines_witness:
  "tlb_ok tlb_example \<and> ram_paged (mem_map (machine tlb_example))
   \<and> observe (target_write 3 tlb_example 0x128 7) = observe (riscv_cpu_write_memory tlb_example 0x128 7 3)"
  using fast_path_refines [of tlb_example 3 "0x128" 7] tlb_example_ok by simp

theorem accesses_keep_tlb_ok_witness:
  "tlb_ok tlb_example \<and> ram_paged (mem_map (machine tlb_example))
   \<and> mres_all tlb_ok (target_read 3 tlb_example 0x128)"
  using accesses_keep_tlb_ok [of tlb_example 3 "0x128"] tlb_example_ok by simp

theorem context_changes_keep_tlb_ok_witness:
  "tlb_ok tlb_example \<and> hooks_csr_write (machine tlb_example) = None \<and> mstatus tlb_example AND MSTATUS_MPRV = 0
   \<and> tlb_ok (snd (csr_write tlb_example 0x180 0)) \<and> tlb_ok (raise_exception2 tlb_example 12 0)"
proof -
  have "hooks_csr_write (machine tlb_example) = None" "mstatus tlb_example AND MSTATUS_MPRV = 0"
    by (simp_all add: tlb_example_def walk_example_def RISCVCPUState.defs zero_machine_def zero_cpu_def)
  then show ?thesis
    using context_changes_keep_tlb_ok [of tlb_example "0x180" 0 12 0] tlb_example_ok by simp
qed

text \<open>
  Machine mode with MPRV set and MPP = M: data accesses are not translated. The read TLB holds the
  entry of such an access to page 0.
\<close>

definition mprv_example :: hart where
  "mprv_example = fill_tlb_read 0 0 0x7000
     (tlb_flush_all (walk_example\<lparr>priv := PRV_M, mstatus := MSTATUS_MPRV OR MSTATUS_MPP\<rparr>))"

lemma mprv_example_ok:
  "tlb_ok mprv_example" "ram_paged (mem_map (machine mprv_example))" "priv mprv_example = PRV_M"
proof -
  let ?s = "tlb_flush_all (walk_example\<lparr>priv := PRV_M, mstatus := MSTATUS_MPRV OR MSTATUS_MPP\<rparr>)"
  let ?pr = "phys_mem_range (mem_map (machine walk_example)) 0"
  have rp: "ram_paged (mem_map (machine ?s))" by (simp add: example_paged)
  have h: "host_ptr ?pr 0 = 0x7000"
    by (simp add: walk_example_def RISCVCPUState.defs zero_machine_def register_ram_entry_def
        phys_mem_map_init_def set_range_def Let_def host_ptr_def)
  have "ram_at ?s ACCESS_READ 0 0 ?pr"
    by (simp add: ram_at_def example_range riscv_cpu_get_phys_addr_def effective_priv_def
        get_phys_mem_range_def in_range_def Let_def)
  from tlb_ok_fill_read [OF _ rp this] show "tlb_ok mprv_example"
    unfolding h mprv_example_def by simp
  show "ram_paged (mem_map (machine mprv_example))" "priv mprv_example = PRV_M"
    using rp by (simp_all add: mprv_example_def fill_tlb_read_def)
qed

text \<open>
  The restriction on MPRV is needed: \<open>mret\<close> from machine mode to machine mode with MPRV
  set changes the privilege of data accesses (MPP becomes U) and \<open>set_priv\<close> does not flush, so a
  load is served from a stale entry where the page-table walk raises an exception.
\<close>

theorem mret_stale_tlb:
  "\<exists>s. tlb_ok s \<and> ram_paged (mem_map (machine s)) \<and> \<not> tlb_ok (handle_mret s)
     \<and> (\<exists>v s'. target_read 3 (handle_mret s) 0 = Val v s')
     \<and> (\<exists>s'. riscv_cpu_read_memory (handle_mret s) 0 3 = Exc s')"
proof -
  let ?s = "handle_mret mprv_example"
  have s: "?s = mprv_example\<lparr>mstatus := 0x20080, pc := mepc mprv_example\<rparr>"
    by (simp add: handle_mret_def Let_def set_priv_def mprv_example_def fill_tlb_read_def)
  have f: "effective_priv ?s False = PRV_U" "satp ?s = satp walk_example" "mem_map (machine ?s) = mem_map (machine walk_example)"
      "host_mem (machine ?s) = host_mem (machine walk_example)"
    unfolding s by (simp_all add: effective_priv_def mprv_example_def fill_tlb_read_def)
  have "riscv_phys_read 8 ?s 0x1000 = riscv_phys_read 8 walk_example 0x1000"
    unfolding riscv_phys_read_def get_phys_mem_range_pmp_def riscv_cpu_pmp_access_ok_def f ..
  then have x: "riscv_cpu_get_phys_addr ?s 0 ACCESS_READ = XFault"
    by (simp add: riscv_cpu_get_phys_addr_def f walk_example_satp walk_example_read
        numeral_3_eq_3 Let_def leaf_ok_def)
  have hit: "target_read 3 ?s 0 = Val (load_le 8 (host_mem (machine ?s)) 0x7000) ?s"
    unfolding s by (simp add: target_read_def Let_def mprv_example_def fill_tlb_read_def misaligned_def tlb_tag_def tlb_entry_def)
  have miss: "riscv_cpu_read_memory ?s 0 3 = Exc (pend ?s CAUSE_LOAD_PAGE_FAULT 0)"
    using x by (simp add: riscv_cpu_read_memory_def misaligned_def)
  have "vaddr (tlb_read ?s (tlb_index 0)) = page_base 0"
    unfolding s by (simp add: mprv_example_def fill_tlb_read_def tlb_entry_def page_base_def)
  then have "\<not> maps_page ?s ACCESS_READ (tlb_read ?s (tlb_index 0))"
    using x by (simp add: maps_page_def page_base_def)
  then have "\<not> tlb_ok ?s"
    unfolding tlb_ok_def using tlb_index_less [of 0] by blast
  then show ?thesis using hit miss mprv_example_ok by blast
qed

end
