(* ===== verification/Exec_Frames.thy ===== *)
theory Exec_Frames
  imports Interp Mmu_Tlb
begin

text \<open>
  The instruction bodies of theories \<open>Exec_C\<close>, \<open>Exec_Int\<close>, \<open>Exec_Fp\<close> and the atomic operations, seen
  as relations on harts. The locale \<open>body_relation\<close> lists the changes a body is composed of; any
  relation with these laws contains the effect of every instruction but the system instructions
  (\<open>unprivileged_body\<close>).
\<close>

section \<open>Ends of an instruction body\<close>

fun flow_all :: "(hart \<Rightarrow> bool) \<Rightarrow> flow \<Rightarrow> bool" where
  "flow_all P (F_NEXT n s) = P s"
| "flow_all P (F_JUMP i s) = P s"
| "flow_all P (F_ILLEGAL s) = P s"
| "flow_all P (F_MMU_EXCEPTION s) = P s"
| "flow_all P (F_EXCEPTION s) = P s"
| "flow_all P (F_DONE s) = P s"
| "flow_all P F_CRASH = True"

lemma mres_all_bind:
  "mres_all P (mbind r f) \<longleftrightarrow> (case r of Val v s \<Rightarrow> mres_all P (f v s) | Exc s \<Rightarrow> P s | Abort \<Rightarrow> True)"
  by (cases r) simp_all

lemma creg_pos [simp]: "0 < creg_lo insn" "0 < creg_hi insn"
proof -
  have "unat ((x :: u32) OR 8) \<noteq> 0" for x
  proof
    assume "unat (x OR 8) = 0"
    then have "x OR 8 = 0" by (simp add: unsigned_eq_0_iff)
    then have "bit (x OR 8) 3 = bit (0 :: u32) 3" by (rule arg_cong)
    then show False by (simp add: bit_or_iff)
  qed
  then show "0 < creg_lo insn" "0 < creg_hi insn" unfolding creg_lo_def creg_hi_def by simp_all
qed

section \<open>Relations kept by the instruction bodies\<close>

text \<open>
  What the bodies of the unprivileged instructions do to a hart. A relation that contains these
  changes and is closed under composition contains the effect of every such body.
\<close>

locale body_relation =
  fixes R :: "hart \<Rightarrow> hart \<Rightarrow> bool"
  assumes refl [simp]: "R s s"
    and trans: "R s s' \<Longrightarrow> R s' s'' \<Longrightarrow> R s s''"
    and pc: "R s (s\<lparr>pc := v\<rparr>)"
    and fflags: "R s (s\<lparr>fflags := fl\<rparr>)"
    and load_res: "R s (s\<lparr>load_res := v\<rparr>)"
    and pending: "R s (s\<lparr>pending_exception := c, pending_tval := v\<rparr>)" "R s (s\<lparr>pending_exception := c\<rparr>)"
    and write_reg: "x \<noteq> 0 \<Longrightarrow> R s (write_reg x v s)"
    and write_fp_reg: "R s (write_fp_reg x v s)"
    and target_read: "mres_all (R s) (target_read k s a)"
    and target_write: "k \<le> 3 \<Longrightarrow> mres_all (R s) (target_write k s a v)"
begin

lemma updates [simp]:
  assumes "R s s'"
  shows "R s (s'\<lparr>pc := v\<rparr>)" "R s (s'\<lparr>fflags := fl\<rparr>)" "R s (s'\<lparr>load_res := v\<rparr>)"
    "R s (s'\<lparr>pending_exception := c, pending_tval := v\<rparr>)" "R s (s'\<lparr>pending_exception := c\<rparr>)"
    "x \<noteq> 0 \<Longrightarrow> R s (write_reg x v s')" "R s (write_fp_reg x v s')" "R s (write_rd x v s')"
    "R s (pend s' c v)"
proof -
  have "pend s' c v = s'\<lparr>pending_exception := c, pending_tval := v\<rparr>" by (simp add: pend_def)
  then show "R s (s'\<lparr>pc := v\<rparr>)" "R s (s'\<lparr>fflags := fl\<rparr>)" "R s (s'\<lparr>load_res := v\<rparr>)"
    "R s (s'\<lparr>pending_exception := c, pending_tval := v\<rparr>)" "R s (s'\<lparr>pending_exception := c\<rparr>)"
    "x \<noteq> 0 \<Longrightarrow> R s (write_reg x v s')" "R s (write_fp_reg x v s')" "R s (write_rd x v s')"
    "R s (pend s' c v)"
    using trans [OF assms] assms
    by (simp_all add: pc fflags load_res pending write_reg write_fp_reg write_rd_def)
qed

lemma flow_load [simp]:
  assumes "\<And>v s'. R s s' \<Longrightarrow> flow_all (R s) (k v s')"
  shows "flow_all (R s) (load_then n s a k)"
  using assms target_read [of s n a] by (auto simp: load_then_def split: mres.splits)

lemma flow_store:
  assumes "R s s0" and "n \<le> 3" and "\<And>s'. R s s' \<Longrightarrow> flow_all (R s) (k s')"
  shows "flow_all (R s) (store_then n s0 a v k)"
  using assms(3) target_write [OF assms(2), of s0 a v] trans [OF assms(1)]
  by (auto simp: store_then_def split: mres.splits)

lemma flow_store_next [simp]: "n \<le> 3 \<Longrightarrow> flow_all (R s) (store_then n s a v (F_NEXT j))"
  by (rule flow_store) simp_all

lemma flow_raise [simp]: "R s s' \<Longrightarrow> flow_all (R s) (raise_pending c s')"
  by (simp add: raise_pending_def)

lemma flow_c:
  "flow_all (R s) (exec_c0 s i)" "flow_all (R s) (exec_c1 s i)" "flow_all (R s) (exec_c2 s i)"
  by (simp_all add: exec_c0_def exec_c1_def exec_c1_alu_def exec_c2_def exec_c2_cr_def Let_def)

lemma flow_finish_op [simp]: "flow_all (R s) (finish_op s insn r)"
  by (simp add: finish_op_def split: option.splits)

lemma flow_int:
  "flow_all (R s) (exec_lui s i)" "flow_all (R s) (exec_auipc s i)"
  "flow_all (R s) (exec_jal s i)" "flow_all (R s) (exec_jalr s i)"
  "flow_all (R s) (exec_branch s i)" "flow_all (R s) (exec_load s i)"
  "flow_all (R s) (exec_store s i)" "flow_all (R s) (exec_op_imm s i)"
  "flow_all (R s) (exec_op_imm_32 s i)" "flow_all (R s) (exec_op s i)"
  "flow_all (R s) (exec_op_32 s i)"
  by (simp_all add: exec_lui_def exec_auipc_def exec_jal_def exec_jalr_def exec_branch_def exec_load_def
      exec_store_def exec_op_imm_def exec_op_imm_32_def exec_op_def exec_op_32_def Let_def split: option.splits)

lemma flow_amo: "flow_all (R s) (exec_amo s i)"
proof -
  have rmw: "flow_all (R s) (exec_amo_rmw n s i)" if "n \<le> 3" for n
    unfolding exec_amo_rmw_def Let_def using target_read [of s n "reg s (insn_rs1 i)"] that
    by (auto split: mres.splits option.splits intro: flow_store)
  have "flow_all (R s) (exec_op_a n s i)" if "n \<le> 3" for n
    using rmw [OF that] that
    by (auto simp: exec_op_a_def exec_lr_def exec_sc_def Let_def intro: flow_store)
  then show ?thesis by (simp add: exec_amo_def Let_def)
qed

lemma flow_misc:
  "flow_all (R s) (exec_misc_mem s i)" "flow_all (R s) (exec_fp_load s i)"
  "flow_all (R s) (exec_fp_store s i)"
  by (simp_all add: exec_misc_mem_def exec_fp_load_def exec_fp_store_def Let_def)

lemma flow_fp_done [simp]: "flow_all (R s) (fp_done s i r)" "flow_all (R s) (fp_finish s i q)"
    "flow_all (R s) (int_finish s i v fl)"
  by (simp_all add: fp_done_def fp_finish_def int_finish_def split: option.splits)

lemma flow_fma:
  "flow_all (R s) (exec_fmadd s i)" "flow_all (R s) (exec_fmsub s i)"
  "flow_all (R s) (exec_fnmsub s i)" "flow_all (R s) (exec_fnmadd s i)"
proof -
  have "flow_all (R s) (exec_fma a b s i)" for a b
    unfolding exec_fma_def Let_def by (auto split: option.splits)
  then show "flow_all (R s) (exec_fmadd s i)" "flow_all (R s) (exec_fmsub s i)"
    "flow_all (R s) (exec_fnmsub s i)" "flow_all (R s) (exec_fnmadd s i)"
    by (simp_all add: exec_fmadd_def exec_fmsub_def exec_fnmsub_def exec_fnmadd_def)
qed

lemma flow_fp_parts:
  "flow_all (R s) (exec_fp_arith t s i op)" "flow_all (R s) (exec_fp_sgnj t s i)"
  "flow_all (R s) (exec_fp_minmax t s i)" "flow_all (R s) (exec_fp_cmp t s i)"
  "flow_all (R s) (exec_fp_of_int t s i)" "flow_all (R s) (exec_fp_cvt t s i)"
  "flow_all (R s) (exec_fp_mv_x t s i)" "flow_all (R s) (exec_fp_mv_w t s i)"
  by (simp_all add: exec_fp_arith_def exec_fp_sgnj_def exec_fp_minmax_def exec_fp_cmp_def exec_fp_of_int_def
      exec_fp_cvt_def exec_fp_mv_x_def exec_fp_mv_w_def Let_def split: option.split)

lemma flow_fp_to_int: "flow_all (R s) (exec_fp_to_int t s i)"
  by (simp add: exec_fp_to_int_def Let_def case_prod_unfold split: option.split)

lemma flow_fp_template [simp]: "flow_all (R s) (exec_fp_template t s i op)"
  by (simp add: exec_fp_template_def flow_fp_parts flow_fp_to_int)

lemma flow_op_fp: "flow_all (R s) (exec_op_fp s i)"
  by (simp add: exec_op_fp_def Let_def)

lemma unprivileged_body:
  assumes "i AND 0x7f \<noteq> 0x73"
  shows "flow_all (R s) (fst (exec_insn k s i))"
  unfolding exec_insn_def Let_def using assms
  by (simp add: flow_c flow_int flow_amo flow_misc flow_fma flow_op_fp)

end

end
