(* ===== verification/Hart_Steps.thy ===== *)
theory Hart_Steps
  imports Exec_Frames
begin

text \<open>
  The interpreter as sequences of elementary steps. \<open>hart_step\<close> is an inductive relation on harts: a
  change of control state, a register write other than x0, a TLB flush or fill, a store to guest
  RAM, a device access. Every instruction body of theories \<open>Exec_C\<close>, \<open>Exec_Int\<close>, \<open>Exec_Fp\<close> and
  \<open>Exec_Sys\<close>, the fetch and the loop of theory \<open>Interp\<close> only make such steps (\<open>reaches_interp\<close>),
  as long as no external hook writes control registers.
\<close>

section \<open>Steps\<close>

text \<open>
  The elementary changes of state a hart is composed of. \<open>silent\<close> changes are those of pc, floating-point
  and control registers, pending exceptions and counters.
\<close>

definition silent :: "hart \<Rightarrow> hart \<Rightarrow> bool" where
  "silent s s' \<longleftrightarrow> machine s' = machine s \<and> mhartid s' = mhartid s \<and> reg s' = reg s
     \<and> tlb_read s' = tlb_read s \<and> tlb_write s' = tlb_write s \<and> tlb_code s' = tlb_code s"

inductive hart_step :: "hart \<Rightarrow> hart \<Rightarrow> bool" where
  silent: "silent s s' \<Longrightarrow> hart_step s s'"
| register: "x \<noteq> 0 \<Longrightarrow> hart_step s (s\<lparr>reg := (reg s)(x := v)\<rparr>)"
| flush: "hart_step s (tlb_flush_all s)"
| fill_read: "ram_at s ACCESS_READ a pa pr \<Longrightarrow> hart_step s (fill_tlb_read a pa (host_ptr pr pa) s)"
| fill_code: "ram_at s ACCESS_CODE a pa pr \<Longrightarrow> hart_step s (fill_tlb_code a pa (host_ptr pr pa) s)"
| store_hit: "vaddr (tlb_write s (tlb_index a)) = page_base a \<Longrightarrow> \<not> misaligned k a \<Longrightarrow> k \<le> 3
    \<Longrightarrow> hart_step s (set_host_mem (store_le (2 ^ k) (host_mem (machine s))
          (mem_addend (tlb_write s (tlb_index a)) + a) v) s)"
| store_ram: "ram_at s ACCESS_WRITE a pa pr \<Longrightarrow> \<not> misaligned k a \<Longrightarrow> k \<le> 3
    \<Longrightarrow> hart_step s (set_host_mem (store_le (2 ^ k) (host_mem (machine s)) (host_ptr pr pa) v)
          (fill_tlb_write a pa (host_ptr pr pa) (mark_dirty pa s)))"
| device: "dev_hart s s' \<Longrightarrow> hart_step s s'"

abbreviation reaches :: "hart \<Rightarrow> hart \<Rightarrow> bool" where
  "reaches \<equiv> hart_step\<^sup>*\<^sup>*"

lemma reaches_step: "reaches s s' \<Longrightarrow> hart_step s' s'' \<Longrightarrow> reaches s s''"
  by (rule rtranclp.rtrancl_into_rtrancl)

lemma reaches_silent: "reaches s s' \<Longrightarrow> silent s' s'' \<Longrightarrow> reaches s s''"
  by (blast intro: reaches_step hart_step.silent)

text \<open>Updates of single fields, in the order the interpreter needs them.\<close>

lemma reaches_update [simp]:
  assumes "reaches s s'"
  shows "reaches s (s'\<lparr>pc := v1\<rparr>)" "reaches s (s'\<lparr>fflags := v2\<rparr>)" "reaches s (s'\<lparr>load_res := v3\<rparr>)"
    "reaches s (s'\<lparr>pending_exception := v4\<rparr>)" "reaches s (s'\<lparr>pending_tval := v5\<rparr>)"
    "reaches s (s'\<lparr>terminate_simulation := v6\<rparr>)" "reaches s (s'\<lparr>power_down_flag := v7\<rparr>)"
    "reaches s (s'\<lparr>info := v8\<rparr>)" "reaches s (s'\<lparr>next_addr := v9\<rparr>)"
    "reaches s (s'\<lparr>insn_counter := v10\<rparr>)" "reaches s (s'\<lparr>mcycle := v11\<rparr>)" "reaches s (s'\<lparr>minstret := v12\<rparr>)"
    "reaches s (s'\<lparr>most_recently_written_reg := v13\<rparr>)" "reaches s (s'\<lparr>most_recently_written_fp_reg := v14\<rparr>)"
    "reaches s (s'\<lparr>mstatus := v15\<rparr>)" "reaches s (s'\<lparr>stop_the_counter := v16\<rparr>)" "reaches s (s'\<lparr>debug_mode := v17\<rparr>)"
    "reaches s (s'\<lparr>priv := v18\<rparr>)" "reaches s (s'\<lparr>fs := v19\<rparr>)" "reaches s (s'\<lparr>fp_reg := v20\<rparr>)"
    "reaches s (s'\<lparr>reg_prior := v21\<rparr>)" "reaches s (s'\<lparr>mcause := v22\<rparr>)" "reaches s (s'\<lparr>mepc := v23\<rparr>)"
    "reaches s (s'\<lparr>mtval := v24\<rparr>)" "reaches s (s'\<lparr>scause := v25\<rparr>)" "reaches s (s'\<lparr>sepc := v26\<rparr>)"
    "reaches s (s'\<lparr>stval := v27\<rparr>)"
  by (rule reaches_silent [OF assms], simp add: silent_def)+

lemma reaches_flush [simp]: "reaches s s' \<Longrightarrow> reaches s (tlb_flush_all s')"
  by (blast intro: reaches_step hart_step.flush)

lemma reaches_priv [simp]: "reaches s s' \<Longrightarrow> reaches s (set_priv s' p)"
  by (simp add: set_priv_def)

lemma reaches_write_reg [simp]: "reaches s s' \<Longrightarrow> x \<noteq> 0 \<Longrightarrow> reaches s (write_reg x v s')"
  by (rule reaches_silent [OF reaches_step [OF _ hart_step.register [of x _ v]]])
    (simp_all add: silent_def write_reg_def)

lemma reaches_write_rd [simp]: "reaches s s' \<Longrightarrow> reaches s (write_rd x v s')"
  by (simp add: write_rd_def)

lemma reaches_write_fp_reg [simp]: "reaches s s' \<Longrightarrow> reaches s (write_fp_reg x v s')"
  by (simp add: write_fp_reg_def)

lemma reaches_pend [simp]: "reaches s s' \<Longrightarrow> reaches s (pend s' c t)"
  by (simp add: pend_def)

lemma reaches_trap [simp]:
  assumes "reaches s s'"
  shows "reaches s (raise_exception2 s' c t)" "reaches s (handle_sret s')" "reaches s (handle_mret s')"
    "reaches s (handle_dret s')" "reaches s (snd (raise_interrupt s'))"
  using assms by (simp_all add: raise_exception2_def enter_s_def enter_m_def handle_sret_def handle_mret_def
      handle_dret_def raise_interrupt_def raise_exception_def Let_def)


section \<open>Memory accesses\<close>

lemma reaches_read_memory: "mres_all (reaches s) (riscv_cpu_read_memory s a k)"
proof (cases rule: read_memory_cases [of s a k])
  case (ram pa pr)
  then show ?thesis using hart_step.fill_read [OF ram(1)] by (simp add: read_memory_ram)
next
  case (dev pr off v s')
  then show ?thesis using with_machine_dev device_load_frame hart_step.device by fastforce
qed simp_all

lemma reaches_write_memory: "mres_all (reaches s) (riscv_cpu_write_memory s a v k)"
proof (cases rule: write_memory_cases [of s a v k])
  case (ram pa pr)
  then show ?thesis using hart_step.store_ram [OF ram, of v] by (simp add: write_memory_ram)
next
  case (dev pr off s')
  then show ?thesis using with_machine_dev device_store_frame hart_step.device by fastforce
qed simp_all

lemma reaches_target_read: "mres_all (reaches s) (target_read k s a)"
  using reaches_read_memory [of s a k]
  by (auto simp: target_read_def Let_def mres_all_bind split: mres.splits)

lemma reaches_target_write: "k \<le> 3 \<Longrightarrow> mres_all (reaches s) (target_write k s a v)"
  using reaches_write_memory [of s a "take_bit (8 * 2 ^ k) v" k]
    hart_step.store_hit [of s a k "take_bit (8 * 2 ^ k) v"]
  by (auto simp: target_write_def Let_def aligned_tag)

lemma reaches_insn_slow: "mres_all (reaches s) (target_read_insn_slow s sz a)"
proof -
  have fault: "mres_all (reaches s) (fetch_fault s' a x)" if "reaches s s'" for s' and x
    using that by (cases x) (simp_all add: fetch_fault_def)
  have fill: "reaches s (fill_tlb_code a pa (host_ptr pr pa) s)"
    if "riscv_cpu_get_phys_addr s a ACCESS_CODE = Paddr pa" and "exec_range s pa n = Some pr" for pa pr n
    by (rule r_into_rtranclp, rule hart_step.fill_code)
      (use that in \<open>auto simp: ram_at_def exec_range_def pmp_range split: option.splits if_splits\<close>)
  show ?thesis
    unfolding target_read_insn_slow_def Let_def riscv_cpu_pmp_access_ok_def if_True
    using fault fill by (auto split: xlate.splits option.splits)
qed

lemma reaches_insn_u16: "mres_all (reaches s) (target_read_insn_u16 s a)"
  using reaches_insn_slow [of s 16 a]
  by (auto simp: target_read_insn_u16_def Let_def mres_all_bind split: mres.splits)

interpretation body: body_relation reaches
  by (unfold_locales; (erule (1) rtranclp_trans | simp add: reaches_target_read reaches_target_write))

lemmas reaches_trans = body.trans

section \<open>System instructions\<close>

lemma reaches_mstatus: "reaches s (set_mstatus s v)"
proof -
  have "silent s (set_mstatus s v) \<or> silent (tlb_flush_all s) (set_mstatus s v)"
    by (simp add: set_mstatus_def Let_def silent_def)
  then show ?thesis using reaches_silent [of s s] reaches_silent [of s "tlb_flush_all s"] by auto
qed

lemma csr_effect_reaches: "csr_effect s s' \<Longrightarrow> reaches s s'"
proof (induction rule: csr_effect.induct)
  case (quiet s')
  then show ?case by (intro r_into_rtranclp hart_step.silent) (simp add: quiet_def silent_def)
next
  case (flush s1 x)
  then have "silent s (s1\<lparr>satp := x\<rparr>)" by (simp add: quiet_def silent_def)
  then show ?case using reaches_silent [of s s] by simp
qed (rule reaches_mstatus)

lemma reaches_csr_write:
  "reaches s s' \<Longrightarrow> hooks_csr_write (machine s') = None \<Longrightarrow> reaches s (snd (csr_write s' csr v))"
  by (rule reaches_trans [OF _ csr_effect_reaches [OF csr_write_effect]])

lemma mark_dirty_config [simp]:
  "ncpus (machine (mark_dirty pa s)) = ncpus (machine s)" "maxinsns (machine (mark_dirty pa s)) = maxinsns (machine s)"
  "cosim (machine (mark_dirty pa s)) = cosim (machine s)"
  "hooks_csr_write (machine (mark_dirty pa s)) = hooks_csr_write (machine s)"
  by (simp_all add: mark_dirty_def Let_def split: option.splits)

lemma hart_step_config:
  assumes "hart_step s s'"
  shows "same_ranges (mem_map (machine s)) (mem_map (machine s')) \<and> ncpus (machine s') = ncpus (machine s)
    \<and> maxinsns (machine s') = maxinsns (machine s) \<and> cosim (machine s') = cosim (machine s)
    \<and> hooks_csr_write (machine s') = hooks_csr_write (machine s) \<and> mhartid s' = mhartid s"
  using assms
proof induction
  case (silent s s')
  then show ?case by (simp add: silent_def)
next
  case (store_ram s a pa pr k v)
  show ?case using mark_dirty_mem_map(1) [of s pa] by (simp add: set_host_mem_def fill_tlb_write_def)
next
  case (device s s')
  then have d: "dev_step (machine_of s) (machine s')" by (simp add: dev_hart_def)
  show ?case using dev_step_fields_eq [OF d] dev_hart_same [OF device] by simp
qed (simp_all add: set_host_mem_def fill_tlb_read_def fill_tlb_code_def tlb_flush_all_def tlb_init_def)

lemma same_ranges_trans: "same_ranges a b \<Longrightarrow> same_ranges b c \<Longrightarrow> same_ranges a c"
proof -
  assume ab: "same_ranges a b" and bc: "same_ranges b c"
  have "(phys_mem_range c i)\<lparr>dirty_bits_tab := dirty_bits_tab (phys_mem_range a i)\<rparr> = phys_mem_range a i" for i
  proof -
    have "(phys_mem_range c i)\<lparr>dirty_bits_tab := dirty_bits_tab (phys_mem_range a i)\<rparr>
        = ((phys_mem_range c i)\<lparr>dirty_bits_tab := dirty_bits_tab (phys_mem_range b i)\<rparr>)
            \<lparr>dirty_bits_tab := dirty_bits_tab (phys_mem_range a i)\<rparr>" by simp
    also have "\<dots> = phys_mem_range a i"
      using ab bc unfolding same_ranges_def by (simp only:)
    finally show ?thesis .
  qed
  then show ?thesis using ab bc by (simp add: same_ranges_def)
qed

lemma reaches_config:
  assumes "reaches s s'"
  shows "same_ranges (mem_map (machine s)) (mem_map (machine s')) \<and> ncpus (machine s') = ncpus (machine s)
    \<and> maxinsns (machine s') = maxinsns (machine s) \<and> cosim (machine s') = cosim (machine s)
    \<and> hooks_csr_write (machine s') = hooks_csr_write (machine s) \<and> mhartid s' = mhartid s"
  using assms
proof induction
  case (step t u)
  then show ?case using hart_step_config [OF step(2)] same_ranges_trans by metis
qed simp

lemma reaches_hooks: "reaches s s' \<Longrightarrow> hooks_csr_write (machine s') = hooks_csr_write (machine s)"
  using reaches_config by blast

lemma reaches_sync: "sync_counters k s = Some s' \<Longrightarrow> reaches s s'"
  by (auto simp: sync_counters_def Let_def split: if_splits)

lemma flow_csr_finish: "reaches s s' \<Longrightarrow> flow_all (reaches s) (csr_finish s' i v e)"
  by (simp add: csr_finish_def Let_def)

lemma flow_csr:
  assumes "hooks_csr_write (machine s) = None"
  shows "flow_all (reaches s) (fst (exec_csrrw k s i v))" "flow_all (reaches s) (fst (exec_csrrs k s i v b))"
proof -
  have w: "flow_all (reaches s) (csr_finish (snd (csr_write t csr x)) i y e)" if "sync_counters k s = Some t" for t csr x y e
    using reaches_sync [OF that] assms reaches_hooks by (intro flow_csr_finish reaches_csr_write) auto
  show "flow_all (reaches s) (fst (exec_csrrw k s i v))" "flow_all (reaches s) (fst (exec_csrrs k s i v b))"
    using w reaches_sync
    by (auto simp: exec_csrrw_def exec_csrrs_def Let_def case_prod_unfold flow_csr_finish split: option.splits)
qed

lemma flow_sys_bodies:
  "flow_all (reaches s) (exec_ecall s i)" "flow_all (reaches s) (exec_ebreak s i)"
  "flow_all (reaches s) (exec_sret s i)" "flow_all (reaches s) (exec_mret s i)"
  "flow_all (reaches s) (exec_dret s i)" "flow_all (reaches s) (exec_wfi s i)"
  "flow_all (reaches s) (exec_sfence_vma s i)"
  by (simp_all add: exec_ecall_def raise_pending_def exec_ebreak_def exec_sret_def exec_mret_def exec_dret_def
      exec_wfi_def exec_sfence_vma_def tlb_flush_vaddr_def Let_def)

lemma flow_system:
  assumes "hooks_csr_write (machine s) = None"
  shows "flow_all (reaches s) (fst (exec_system k s i))"
  unfolding exec_system_def Let_def using flow_csr [OF assms] by (simp add: flow_sys_bodies)

lemma flow_insn:
  assumes "hooks_csr_write (machine s) = None"
  shows "flow_all (reaches s) (fst (exec_insn k s i))"
  using body.unprivileged_body [of i s k] flow_system [OF assms, of k i]
  by (cases "i AND 0x7f = 0x73") (simp_all add: exec_insn_def Let_def)

section \<open>The interpreter\<close>

fun fetched_all :: "(hart \<Rightarrow> bool) \<Rightarrow> fetched \<Rightarrow> bool" where
  "fetched_all P (Insn i l s) = P s"
| "fetched_all P (Interrupted s) = P s"
| "fetched_all P (FetchExc l s) = P s"
| "fetched_all P FetchCrash = True"

lemma reaches_fetch: "fetched_all (reaches s) (fetch l s)"
proof -
  have hit: "fetched_all (reaches s) (fetch_tlb_hit l t e)" if "reaches s t" for l t e
    using that reaches_insn_u16 [of t "pc t + 2"]
    by (auto simp: fetch_tlb_hit_def Let_def split: mres.splits intro: reaches_trans)
  show ?thesis
    using reaches_insn_slow [of s 32 "pc s"] hit [of s] reaches_trap(5) [of s s]
    by (auto simp: fetch_def Let_def raise_interrupt_def split: mres.splits)
qed

fun outcome_all :: "(hart \<Rightarrow> bool) \<Rightarrow> outcome \<Rightarrow> bool" where
  "outcome_all P (I_Ret r s) = P s"
| "outcome_all P I_Crash = True"

fun iter_all :: "(hart \<Rightarrow> bool) \<Rightarrow> iter_result \<Rightarrow> bool" where
  "iter_all P (Continue l s) = P s"
| "iter_all P (Leave r) = outcome_all P r"

lemma reaches_exits:
  assumes "reaches s s'"
  shows "outcome_all (reaches s) (the_end l s')" "outcome_all (reaches s) (done_interp l s')"
    "outcome_all (reaches s) (exception l s')" "outcome_all (reaches s) (illegal_insn l s')"
proof -
  have e: "outcome_all (reaches s) (the_end l s')" if "reaches s s'" for l s'
    using reaches_trans [OF that reaches_sync] by (auto simp: the_end_def split: option.splits)
  then show "outcome_all (reaches s) (the_end l s')" "outcome_all (reaches s) (done_interp l s')"
    "outcome_all (reaches s) (exception l s')" "outcome_all (reaches s) (illegal_insn l s')"
    using assms by (simp_all add: done_interp_def exception_def illegal_insn_def Let_def)
qed

lemma reaches_after_exec: "flow_all (reaches s) (fst r) \<Longrightarrow> iter_all (reaches s) (after_exec l r)"
  by (cases r; cases "fst r") (simp_all add: after_exec_def Let_def jump_state_def reaches_exits)

lemma flow_all_mono: "flow_all P f \<Longrightarrow> (\<And>s. P s \<Longrightarrow> Q s) \<Longrightarrow> flow_all Q f"
  by (cases f) simp_all

lemma reaches_iteration:
  assumes "hooks_csr_write (machine s) = None"
  shows "iter_all (reaches s) (iteration l s)"
proof (cases "fetch (l\<lparr>insn_executed := insn_executed l + 1\<rparr>) s")
  case (Insn i l1 s1)
  have r: "reaches s s1" using reaches_fetch [of s "l\<lparr>insn_executed := insn_executed l + 1\<rparr>"] Insn by simp
  have "flow_all (reaches s) (fst (exec_insn (cnt l1) s1 i))"
    by (rule flow_all_mono [OF flow_insn]) (use r reaches_hooks [OF r] assms in \<open>auto intro: reaches_trans\<close>)
  then show ?thesis
    using Insn by (auto simp: iteration_def Let_def reaches_exits intro: reaches_after_exec)
qed (use reaches_fetch [of s "l\<lparr>insn_executed := insn_executed l + 1\<rparr>"]
      in \<open>auto simp: iteration_def Let_def reaches_exits\<close>)

lemma reaches_loop:
  "reaches s s0 \<Longrightarrow> hooks_csr_write (machine s) = None \<Longrightarrow> outcome_all (reaches s) (interp_loop l s0)"
proof (induction l s0 rule: interp_loop.induct)
  case (1 l0 s0)
  let ?s = "s0\<lparr>pc := GET_PC l0\<rparr>" and ?l = "dec_cycles l0"
  have s: "reaches s ?s" using 1(2) by simp
  have "hooks_csr_write (machine ?s) = None" using reaches_hooks [OF s] 1(3) by simp
  note it = reaches_iteration [OF this, of ?l]
  have "outcome_all (reaches s) r" if "iteration ?l ?s = Leave r" for r
    using it that reaches_trans [OF s] by (cases r) auto
  moreover have "outcome_all (reaches s) (interp_loop l' s')"
    if "iteration ?l ?s = Continue l' s'" "0 < n_cycles (cnt ?l)" for l' s'
    using that it reaches_trans [OF s] 1(3) by (intro 1(1) [OF refl refl _ _ that(1)]) auto
  ultimately show ?case
    using reaches_exits(1) [OF s] by (subst interp_loop.simps) (auto simp: Let_def split: iter_result.split)
qed

lemma reaches_interp:
  assumes "hooks_csr_write (machine s) = None"
  shows "outcome_all (reaches s) (riscv_cpu_interp s n)"
proof -
  let ?s = "s\<lparr>most_recently_written_reg := - 1, most_recently_written_fp_reg := - 1, info := ctf_nop\<rparr>"
  have i: "reaches s (snd (raise_interrupt ?s))" "reaches s ?s" by simp_all
  show ?thesis
    unfolding riscv_cpu_interp_def riscv_cpu_interp64_def Let_def
    using i reaches_loop [OF _ assms]
    by (auto simp: case_prod_unfold intro: reaches_exits)
qed

end
