(* ===== verification/Hart_Invariants.thy ===== *)
theory Hart_Invariants
  imports Hart_Steps
begin

text \<open>
  Invariants of the interpreter, each proved once per elementary step: the locale \<open>hart_invariant\<close>
  carries a property from \<open>hart_step\<close> to \<open>riscv_cpu_interp\<close>. It is interpreted for register x0,
  for the confinement of stores to guest RAM, and for the isolation of the other harts.
\<close>

section \<open>Invariants of a hart\<close>

text \<open>A property kept by every step is kept by the interpreter.\<close>

locale hart_invariant =
  fixes inv :: "hart \<Rightarrow> bool"
  assumes step: "inv s \<Longrightarrow> hart_step s s' \<Longrightarrow> inv s'"
begin

lemma reaches: "reaches s s' \<Longrightarrow> inv s \<Longrightarrow> inv s'"
  by (induction rule: rtranclp_induct) (blast intro: step)+

lemma interp:
  assumes "inv s" and "hooks_csr_write (machine s) = None" and "riscv_cpu_interp s n = I_Ret r s'"
  shows "inv s'"
  using reaches_interp [OF assms(2), of n] reaches assms by simp

end

subsection \<open>Register x0\<close>

lemma set_host_mem_fields [simp]:
  "reg (set_host_mem h s) = reg s" "tlb_read (set_host_mem h s) = tlb_read s"
  "tlb_write (set_host_mem h s) = tlb_write s" "tlb_code (set_host_mem h s) = tlb_code s"
  "host_mem (machine (set_host_mem h s)) = h" "mem_map (machine (set_host_mem h s)) = mem_map (machine s)"
  by (simp_all add: set_host_mem_def)

lemma x0_step: "hart_step s s' \<Longrightarrow> reg s' 0 = reg s 0"
  by (induction rule: hart_step.induct)
    (simp_all add: silent_def fill_tlb_read_def fill_tlb_write_def fill_tlb_code_def dev_hart_same
      tlb_flush_all_def tlb_init_def)

interpretation x0: hart_invariant "\<lambda>s. reg s 0 = v" for v
  by unfold_locales (simp add: x0_step)

subsection \<open>Guest memory\<close>

text \<open>The host bytes that back guest RAM.\<close>

definition ram_byte :: "PhysMemoryMap \<Rightarrow> u64 \<Rightarrow> bool" where
  "ram_byte mm p \<longleftrightarrow> (\<exists>i < n_phys_mem_range mm. is_ram (phys_mem_range mm i)
     \<and> p - phys_mem (phys_mem_range mm i) < pr_size (phys_mem_range mm i))"

text \<open>An entry maps its page, when it is valid, into guest RAM.\<close>

definition entry_in_ram :: "PhysMemoryMap \<Rightarrow> TLBEntry \<Rightarrow> bool" where
  "entry_in_ram mm e \<longleftrightarrow> (\<forall>a. page_base a = vaddr e \<longrightarrow> ram_byte mm (mem_addend e + a))"

definition tlbs_in_ram :: "PhysMemoryMap \<Rightarrow> 'a RISCVCPUState_scheme \<Rightarrow> bool" where
  "tlbs_in_ram mm s \<longleftrightarrow> (\<forall>i < TLB_SIZE. entry_in_ram mm (tlb_read s i) \<and> entry_in_ram mm (tlb_write s i)
     \<and> entry_in_ram mm (tlb_code s i))"

lemma ram_byte_same: "same_ranges mm mm' \<Longrightarrow> ram_byte mm' = ram_byte mm"
  unfolding ram_byte_def by (intro ext) (simp add: same_ranges_range same_ranges_def [THEN iffD1, THEN conjunct1])

lemma in_range_offset: "in_range pr a \<Longrightarrow> a - pr_addr pr < pr_size pr"
proof -
  assume r: "in_range pr a"
  then have le: "unat (pr_addr pr) \<le> unat a" by (simp add: in_range_def word_le_nat_alt)
  have l: "unat a < unat (pr_addr pr + pr_size pr)" using r by (simp add: in_range_def word_less_nat_alt)
  have "unat (pr_addr pr + pr_size pr) \<le> unat (pr_addr pr) + unat (pr_size pr)"
    by (simp add: unat_word_ariths)
  with le l have "unat a - unat (pr_addr pr) < unat (pr_size pr)" by linarith
  then show ?thesis using le by (simp add: word_less_nat_alt unat_sub word_le_nat_alt)
qed

lemma ram_at_byte: "ram_at s acc a pa pr \<Longrightarrow> ram_byte (mem_map (machine s)) (host_ptr pr pa)"
proof -
  assume "ram_at s acc a pa pr"
  then obtain i where g: "get_phys_mem_range (mem_map (machine s)) pa = Some i" "is_ram pr"
    and pr: "pr = phys_mem_range (mem_map (machine s)) i" by (auto simp: ram_at_def)
  then have "i < n_phys_mem_range (mem_map (machine s))" "in_range pr pa"
    by (simp_all add: get_phys_mem_range_def find_range_Some)
  then show ?thesis
    using g in_range_offset [of pr pa] unfolding ram_byte_def pr host_ptr_def by auto
qed

text \<open>RAM is paged, so a translation to RAM covers the whole page.\<close>

lemma fill_in_ram:
  assumes x: "ram_at s acc a pa pr" and rp: "ram_paged (mem_map (machine s))"
  shows "entry_in_ram (mem_map (machine s)) (tlb_entry a (host_ptr pr pa))"
  unfolding entry_in_ram_def
proof (intro allI impI)
  fix b assume "page_base b = vaddr (tlb_entry a (host_ptr pr pa))"
  then have b: "page_base a = page_base b" by simp
  let ?pb = "in_page pa b"
  have "riscv_cpu_get_phys_addr s b acc = Paddr ?pb"
    using get_phys_addr_in_page [OF b, of s acc] x by (simp add: ram_at_def)
  moreover have "get_phys_mem_range (mem_map (machine s)) ?pb = get_phys_mem_range (mem_map (machine s)) pa"
    using rp x unfolding ram_paged_def ram_at_def by (metis page_base_in_page)
  ultimately have "ram_at s acc b ?pb pr" using x by (auto simp: ram_at_def)
  moreover have "?pb - pa = b - a" by (rule in_page_offset) (use b x get_phys_addr_offset in \<open>auto simp: ram_at_def\<close>)
  then have "host_ptr pr ?pb = mem_addend (tlb_entry a (host_ptr pr pa)) + b"
    by (simp add: host_ptr_def algebra_simps)
  ultimately show "ram_byte (mem_map (machine s)) (mem_addend (tlb_entry a (host_ptr pr pa)) + b)"
    using ram_at_byte by metis
qed

text \<open>An aligned store stays in its page.\<close>

lemma aligned_in_page:
  assumes "\<not> misaligned k a" and "k \<le> 3" and "i < 2 ^ k"
  shows "page_base (a + of_nat i) = page_base a"
proof -
  have i: "\<not> bit (of_nat i :: u64) n" if "k \<le> n" for n
    using assms(3) that by (auto simp: bit_of_nat_iff bit_nat_def div_eq_0_iff dest: less_le_trans [OF _ power_increasing])
  have a: "\<not> bit a n" if "n < k" for n
  proof -
    have "a AND (push_bit k 1 - 1) = take_bit k a" by (simp add: take_bit_eq_mask mask_eq_exp_minus_1)
    then have "take_bit k a = 0" using assms(1) by (simp add: misaligned_def)
    then have "bit (take_bit k a) n = False" by simp
    then show ?thesis using that by (simp add: bit_take_bit_iff)
  qed
  have "a + of_nat i = a OR of_nat i"
    by (rule disjunctive_add) (use a i in \<open>metis not_le\<close>)
  then show ?thesis using i assms(2) by (simp add: page_base_eq_iff bit_or_iff)
qed

lemma store_confined:
  assumes e: "entry_in_ram mm e" "vaddr e = page_base a" and k: "\<not> misaligned k a" "k \<le> 3" and q: "\<not> ram_byte mm q"
  shows "store_le (2 ^ k) h (mem_addend e + a) v q = h q"
proof (rule store_le_other)
  fix i assume "i < (2 :: nat) ^ k"
  then have "ram_byte mm (mem_addend e + (a + of_nat i))"
    using e aligned_in_page [OF k, of i] by (simp add: entry_in_ram_def)
  then show "q \<noteq> mem_addend e + a + of_nat i" using q by (auto simp: add.assoc)
qed

definition confined :: "PhysMemoryMap \<Rightarrow> hostmem \<Rightarrow> hart \<Rightarrow> bool" where
  "confined mm h s \<longleftrightarrow> ram_paged mm \<and> same_ranges mm (mem_map (machine s)) \<and> tlbs_in_ram mm s
     \<and> (\<forall>p. \<not> ram_byte mm p \<longrightarrow> host_mem (machine s) p = h p)"

lemma confined_fill:
  assumes "confined mm h s" and "ram_at s acc a pa pr"
  shows "entry_in_ram mm (tlb_entry a (host_ptr pr pa))"
proof -
  have sr: "same_ranges mm (mem_map (machine s))" and "ram_paged mm"
    using assms(1) by (simp_all add: confined_def)
  then have "ram_paged (mem_map (machine s))" by (rule ram_paged_same)
  from fill_in_ram [OF assms(2) this] show ?thesis by (simp add: entry_in_ram_def ram_byte_same [OF sr])
qed

lemma page_base_not_minus: "page_base a \<noteq> - 1"
proof
  assume "page_base a = - 1"
  then have "bit (page_base a) 0 = bit (- 1 :: u64) 0" by simp
  then show False by (simp add: bit_page_base)
qed

lemma confined_step: "hart_step s s' \<Longrightarrow> confined mm h s \<Longrightarrow> confined mm h s'"
proof (induction rule: hart_step.induct)
  case (silent s s')
  then show ?case by (simp add: confined_def silent_def tlbs_in_ram_def)
next
  case (flush s)
  have "entry_in_ram mm e" if "vaddr e = - 1" for e
    using that page_base_not_minus by (simp add: entry_in_ram_def)
  then have "tlbs_in_ram mm (tlb_flush_all s)" using flush_invalid [of _ s] by (simp add: tlbs_in_ram_def)
  then show ?case using flush by (simp add: confined_def)
next
  case (fill_read s a pa pr)
  then show ?case using confined_fill [OF fill_read(2,1)]
    by (simp add: confined_def tlbs_in_ram_def fill_tlb_read_def)
next
  case (fill_code s a pa pr)
  then show ?case using confined_fill [OF fill_code(2,1)]
    by (simp add: confined_def tlbs_in_ram_def fill_tlb_code_def)
next
  case (store_hit s a k v)
  then have "entry_in_ram mm (tlb_write s (tlb_index a))"
    using tlb_index_less by (simp add: confined_def tlbs_in_ram_def)
  note store_confined [OF this store_hit(1-3)]
  then show ?case using store_hit(4) by (simp add: confined_def tlbs_in_ram_def)
next
  case (store_ram s a pa pr k v)
  note e = confined_fill [OF store_ram(4,1)]
  have w: "store_le (2 ^ k) (host_mem (machine s)) (host_ptr pr pa) v p = host_mem (machine s) p" if "\<not> ram_byte mm p" for p
    using store_confined [OF e _ store_ram(2,3) that] by simp
  have "same_ranges mm (mem_map (machine (mark_dirty pa s)))"
    using store_ram(4) mark_dirty_mem_map(1) [of s pa] same_ranges_trans by (auto simp: confined_def)
  then show ?case using store_ram(4) e w by (simp add: confined_def tlbs_in_ram_def fill_tlb_write_def)
next
  case (device s s')
  then have d: "dev_step (machine_of s) (machine s')" by (simp add: dev_hart_def)
  show ?case using device(2) dev_hart_same [OF device(1)] dev_step_fields_eq(2) [OF d]
    by (simp add: confined_def tlbs_in_ram_def)
qed (simp add: confined_def tlbs_in_ram_def)

interpretation mem: hart_invariant "confined mm h" for mm h
  by unfold_locales (rule confined_step)

section \<open>A program of one instruction\<close>

text \<open>\<open>addi x1, x0, 5\<close> at address 0x100 of a machine with two pages of RAM.\<close>

definition exec_example :: hart where
  "exec_example = tlb_flush_all (walk_example
     \<lparr>priv := PRV_M, pc := 0x100,
      machine := (machine walk_example)\<lparr>host_mem := store_le 4 (\<lambda>_. 0) 0x7100 0x00500093\<rparr>\<rparr>)"

lemma exec_example_fields:
  "mem_map (machine exec_example) = mem_map (machine walk_example)" "priv exec_example = PRV_M" "pc exec_example = 0x100"
  "mip exec_example = 0" "hooks_csr_write (machine exec_example) = None" "tdata1 exec_example = (\<lambda>_. 0)"
  "tdata2 exec_example = (\<lambda>_. 0)" "insn_counter exec_example = 0" "reg exec_example = (\<lambda>_. 0)"
  "stop_the_counter exec_example = False"
  "host_mem (machine exec_example) = store_le 4 (\<lambda>_. 0) 0x7100 0x00500093"
  by (simp_all add: exec_example_def walk_example_def RISCVCPUState.defs zero_cpu_def zero_machine_def tlb_flush_all_def tlb_init_def)

lemma exec_example_fetch:
  assumes s: "s = exec_example\<lparr>most_recently_written_reg := - 1, most_recently_written_fp_reg := - 1, info := ctf_nop,
      pending_exception := - 1, pc := 0x100\<rparr>" and l: "code_end l \<le> code_ptr l"
  shows "fetch l s = Insn 0x00500093 l (fill_tlb_code 0x100 0x100 0x7100 s)"
proof -
  let ?pr = "phys_mem_range (mem_map (machine walk_example)) 0"
  have h: "host_ptr ?pr 0x100 = 0x7100"
    by (simp add: walk_example_def RISCVCPUState.defs zero_machine_def register_ram_entry_def
        phys_mem_map_init_def set_range_def Let_def host_ptr_def)
  have i: "load_le 4 (store_le 4 (\<lambda>_. 0) 0x7100 0x00500093) 0x7100 = (0x00500093 :: u64)"
    using le.load_store [of 4 "\<lambda>_. 0" "0x7100" "0x00500093"] by simp
  have v: "\<not> interrupts_visible s" by (simp add: s interrupts_visible_def exec_example_fields)
  have c: "vaddr (tlb_code s (tlb_index (pc s))) \<noteq> pc s AND NOT PG_MASK"
    by (simp add: s exec_example_def tlb_flush_all_def tlb_init_def tlb_invalidate_def tlb_index_less)
  have "target_read_insn_slow s 32 0x100 = Val 0x00500093 (fill_tlb_code 0x100 0x100 0x7100 s)"
    unfolding target_read_insn_slow_def
    by (simp add: s riscv_cpu_get_phys_addr_def effective_priv_def exec_range_def
       get_phys_mem_range_pmp_def riscv_cpu_pmp_access_ok_def exec_example_fields get_phys_mem_range_def
       in_range_def example_range h i fill_tlb_code_def tlb_index_def cong: if_cong)
  then show ?thesis using v c l by (simp add: fetch_def s)
qed

lemma exec_example_run:
  "\<exists>s'. riscv_cpu_interp exec_example 1 = I_Ret 1 s' \<and> reg s' 1 = 5"
proof -
  define s where "s = exec_example\<lparr>most_recently_written_reg := - 1, most_recently_written_fp_reg := - 1, info := ctf_nop,
      pending_exception := - 1, pc := 0x100\<rparr>"
  define t where "t = fill_tlb_code 0x100 0x100 0x7100 s"
  have x: "exec_insn k t 0x00500093 = (F_NEXT 4 (write_reg 1 5 t), k)" for k
    by (simp add: exec_insn_def exec_op_imm_def finish_op_def op_imm_def imm_i_def insn_fields write_rd_def
        t_def fill_tlb_code_def s_def exec_example_fields sx_def)
  have n: "\<not> trigger_hit s" by (simp add: trigger_hit_def s_def exec_example_fields)
  show ?thesis
    unfolding riscv_cpu_interp_def riscv_cpu_interp64_def Let_def
    apply (simp add: interrupts_visible_def exec_example_fields)
    apply (subst interp_loop.simps)
    apply (simp add: GET_PC_def dec_cycles_def Let_def iteration_def s_def [symmetric] n exec_example_fetch [OF s_def]
       t_def [symmetric] x after_exec_def)
    apply (subst interp_loop.simps)
    apply (simp add: GET_PC_def dec_cycles_def Let_def the_end_def sync_counters_def GET_INSN_COUNTER_def
       word_sless_alt write_reg_def)
    done
qed

section \<open>What the interpreter leaves alone\<close>

text \<open>
  C34. Register x0 is never changed: whatever the interpreter executes, and however it leaves its
  loop, the register has the value it had (provided no external hook handles control registers).
\<close>

theorem x0_constant:
  assumes "hooks_csr_write (machine s) = None" and "riscv_cpu_interp s n = I_Ret r s'"
  shows "reg s' 0 = reg s 0"
  by (rule x0.interp [OF refl assms])

theorem x0_constant_witness: "\<exists>s'. riscv_cpu_interp exec_example 1 = I_Ret 1 s' \<and> reg s' 0 = 0 \<and> reg s' 1 = 5"
  using exec_example_run x0_constant [OF exec_example_fields(5), of 1 1]
  by (auto simp: exec_example_fields)

text \<open>
  C5. The interpreter writes host memory only inside the blocks that back guest RAM, even through
  TLB entries that have become stale, and it keeps every valid TLB entry inside them. Size,
  position and kind of the memory ranges, the number of harts, the instruction budget and the hart
  number stay as they are.
\<close>

theorem memory_confined:
  assumes "ram_paged (mem_map (machine s))" and "tlbs_in_ram (mem_map (machine s)) s"
    and "hooks_csr_write (machine s) = None" and "riscv_cpu_interp s n = I_Ret r s'"
  shows "(\<forall>p. ram_byte (mem_map (machine s)) p \<or> host_mem (machine s') p = host_mem (machine s) p)
    \<and> tlbs_in_ram (mem_map (machine s')) s' \<and> ram_paged (mem_map (machine s'))
    \<and> same_ranges (mem_map (machine s)) (mem_map (machine s')) \<and> ncpus (machine s') = ncpus (machine s)
    \<and> maxinsns (machine s') = maxinsns (machine s) \<and> mhartid s' = mhartid s"
proof -
  have "confined (mem_map (machine s)) (host_mem (machine s)) s" using assms(1,2) by (simp add: confined_def)
  from mem.interp [OF this assms(3,4)] have c: "confined (mem_map (machine s)) (host_mem (machine s)) s'" .
  then have sr: "same_ranges (mem_map (machine s)) (mem_map (machine s'))" by (simp add: confined_def)
  have "tlbs_in_ram (mem_map (machine s')) s'"
    using c unfolding tlbs_in_ram_def entry_in_ram_def ram_byte_same [OF sr] confined_def by blast
  moreover have "reaches s s'" using reaches_interp [OF assms(3), of n] assms(4) by simp
  ultimately show ?thesis
    using c sr reaches_config [of s s'] ram_paged_same [OF sr] by (auto simp: confined_def)
qed

lemma exec_example_in_ram: "tlbs_in_ram mm exec_example"
  unfolding exec_example_def tlbs_in_ram_def entry_in_ram_def
  using page_base_not_minus by (simp add: tlb_flush_all_def tlb_init_def tlb_invalidate_def)

lemma example_block: "phys_mem (phys_mem_range (mem_map (machine walk_example)) 0) = 0x7000"
  by (simp add: walk_example_def RISCVCPUState.defs zero_machine_def register_ram_entry_def
      phys_mem_map_init_def set_range_def Let_def)

theorem memory_confined_witness:
  "\<exists>s'. riscv_cpu_interp exec_example 1 = I_Ret 1 s' \<and> host_mem (machine s') 0x9000 = 0"
proof -
  obtain s' where r: "riscv_cpu_interp exec_example 1 = I_Ret 1 s'" using exec_example_run by blast
  have p: "ram_paged (mem_map (machine exec_example))" by (simp add: exec_example_fields example_paged)
  have "\<not> ram_byte (mem_map (machine exec_example)) 0x9000"
    unfolding exec_example_fields ram_byte_def example_range by (simp add: example_range example_block)
  then have "host_mem (machine s') 0x9000 = host_mem (machine exec_example) 0x9000"
    using conjunct1 [OF memory_confined [OF p exec_example_in_ram exec_example_fields(5) r]] by metis
  moreover have "host_mem (machine exec_example) 0x9000 = 0"
  proof -
    have "0x9000 \<noteq> 0x7100 + (of_nat i :: u64)" if "i < 4" for i
    proof -
      have "i \<in> {0, 1, 2, 3}" using that by auto
      then show ?thesis by auto
    qed
    then show ?thesis unfolding exec_example_fields by (rule store_le_other)
  qed
  ultimately show ?thesis using r by auto
qed

subsection \<open>The other harts\<close>

text \<open>Of the harts that do not run, only the interrupt and timer state can change.\<close>

definition others_kept :: "u64 \<Rightarrow> (nat \<Rightarrow> RISCVCPUState) \<Rightarrow> hart \<Rightarrow> bool" where
  "others_kept h c s \<longleftrightarrow> mhartid s = h \<and> (\<forall>i. i \<noteq> unat h \<longrightarrow> same_core (c i) (cpu_state (machine s) i))"

lemma mark_dirty_cpus [simp]: "cpu_state (machine (mark_dirty pa s)) = cpu_state (machine s)"
  by (simp add: mark_dirty_def Let_def split: option.splits)

lemma others_step: "hart_step s s' \<Longrightarrow> others_kept h c s \<Longrightarrow> others_kept h c s'"
proof (induction rule: hart_step.induct)
  case (device s s')
  then have d: "dev_step (machine_of s) (machine s')" by (simp add: dev_hart_def)
  have "same_core (c i) (cpu_state (machine s') i)" if i: "i \<noteq> unat h" for i
  proof (rule same_core_trans)
    show "same_core (c i) (cpu_state (machine s) i)" using device(2) i by (simp add: others_kept_def)
    have "cpu_state (machine_of s) i = cpu_state (machine s) i"
      using device(2) i by (simp add: machine_of_def set_cpu_def others_kept_def)
    then show "same_core (cpu_state (machine s) i) (cpu_state (machine s') i)"
      using dev_step_fields_eq(10) [OF d, of i] by simp
  qed
  then show ?case using device(2) dev_hart_same [OF device(1)] by (simp add: others_kept_def)
qed (simp_all add: others_kept_def silent_def set_host_mem_def fill_tlb_read_def fill_tlb_write_def fill_tlb_code_def
    tlb_flush_all_def tlb_init_def)

interpretation iso: hart_invariant "others_kept h c" for h c
  by unfold_locales (rule others_step)

text \<open>
  C19. Harts are isolated: running one hart changes of every other hart at most the pending
  interrupts, the power-down flag, the cycle counter, the timer comparator and the PLIC enable
  mask. Registers, privilege, translation state and TLBs of the others stay as they are.
\<close>

theorem harts_isolated:
  assumes "hooks_csr_write (machine s) = None" and "riscv_cpu_interp s n = I_Ret r s'" and "i \<noteq> unat (mhartid s)"
  shows "same_core (cpu_state (machine s) i) (cpu_state (machine s') i)"
proof -
  have "others_kept (mhartid s) (cpu_state (machine s)) s" by (simp add: others_kept_def same_core_def)
  from iso.interp [OF this assms(1,2)] assms(3) show ?thesis by (simp add: others_kept_def)
qed

theorem harts_isolated_witness:
  "\<exists>s'. riscv_cpu_interp exec_example 1 = I_Ret 1 s'
     \<and> same_core (cpu_state (machine exec_example) 3) (cpu_state (machine s') 3)"
proof -
  obtain s' where r: "riscv_cpu_interp exec_example 1 = I_Ret 1 s'" using exec_example_run by blast
  have "3 \<noteq> unat (mhartid exec_example)"
    by (simp add: exec_example_def walk_example_def RISCVCPUState.defs zero_cpu_def tlb_flush_all_def tlb_init_def)
  from harts_isolated [OF exec_example_fields(5) r this] r show ?thesis by auto
qed

end
