(* ===== verification/Interp_Laws.thy ===== *)
theory Interp_Laws
  imports Hart_Invariants
begin

text \<open>
  Laws of the interpreter of theory \<open>Interp\<close>: the count of executed instructions and the
  instruction counter, and the confinement of user mode.
\<close>

section \<open>The instruction counter\<close>

lemma pmp_insn_counter: "insn_counter (unpack_pmpaddrs s) = insn_counter s"
proof -
  have "insn_counter (fold unpack_pmp_entry is s) = insn_counter s" for "is" and s :: "'a RISCVCPUState_scheme"
    by (induction "is" arbitrary: s) (simp_all add: unpack_pmp_entry_def Let_def pmp_push_def)
  then show ?thesis by (simp add: unpack_pmpaddrs_def tlb_flush_all_def tlb_init_def)
qed

lemma insn_counter_if:
  "insn_counter (snd a) = v \<Longrightarrow> insn_counter (snd b) = v \<Longrightarrow> insn_counter (snd (if c then a else b)) = v"
  by simp

lemma csr_write_insn_counter:
  assumes "hooks_csr_write (machine s) = None"
  shows "insn_counter (snd (csr_write s csr v)) = insn_counter s"
  unfolding csr_write_def
  by (intro insn_counter_if, unfold snd_conv)
    (simp_all add: set_frm_def write_tdata1_def write_dcsr_def write_satp_def write_pmpcfg_def write_pmpaddr_def
      csr_write_hook_def set_mstatus_def tlb_flush_all_def tlb_init_def pmp_insn_counter assms Let_def)

lemma sync_insn_counter: "sync_counters k s = Some s' \<Longrightarrow> insn_counter s' = GET_INSN_COUNTER k"
  by (auto simp: sync_counters_def Let_def split: if_splits)

lemma exec_insn_addend:
  assumes "hooks_csr_write (machine s) = None"
  shows "insn_counter_addend (snd (exec_insn k s i)) = insn_counter_addend k"
proof -
  have "insn_counter_addend (snd (exec_csrrw k s i v)) = insn_counter_addend k" for v
  proof (cases "sync_counters k s")
    case (Some t)
    have "hooks_csr_write (machine t) = None"
      using reaches_hooks [OF reaches_sync [OF Some]] assms by simp
    from csr_write_insn_counter [OF this] show ?thesis using Some sync_insn_counter [OF Some]
      by (auto simp: exec_csrrw_def Let_def GET_INSN_COUNTER_def case_prod_unfold split: option.splits)
  qed (simp add: exec_csrrw_def Let_def)
  moreover have "snd (exec_csrrs k s i v b) = k" for v b
    by (auto simp: exec_csrrs_def Let_def case_prod_unfold split: option.splits)
  ultimately have "insn_counter_addend (snd (exec_system k s i)) = insn_counter_addend k"
    by (simp add: exec_system_def Let_def)
  then show ?thesis by (simp add: exec_insn_def Let_def)
qed

text \<open>
  Where a run of \<open>n\<close> cycles from counter \<open>c\<close> stands when \<open>j\<close> instructions have been started.
\<close>

definition run_at :: "u64 \<Rightarrow> int \<Rightarrow> int \<Rightarrow> locals \<Rightarrow> bool" where
  "run_at c n j l \<longleftrightarrow> insn_counter_addend (cnt l) = c + word_of_int n \<and> n_cycles (cnt l) = n - j"

definition counted :: "u64 \<Rightarrow> int \<Rightarrow> int \<Rightarrow> outcome \<Rightarrow> bool" where
  "counted c j n r = (case r of I_Crash \<Rightarrow> True
     | I_Ret k s \<Rightarrow> j \<le> k \<and> k \<le> n \<and> (insn_counter s = c + word_of_int k \<or> insn_counter s = c + word_of_int k - 1))"

lemma counted_mono: "counted c (j + 1) n r \<Longrightarrow> counted c j n r"
  by (auto simp: counted_def split: outcome.splits)

lemma counted_the_end:
  assumes "insn_counter_addend (cnt l) = c + word_of_int a" and "insn_executed l = k" and "j \<le> k" and "k \<le> n"
    and "a - n_cycles (cnt l) = k \<or> a - n_cycles (cnt l) = k - 1"
  shows "counted c j n (the_end l s)"
proof -
  have "(c + word_of_int a) - word_of_int (n_cycles (cnt l)) = c + word_of_int (a - n_cycles (cnt l))" by simp
  also have "\<dots> \<in> {c + word_of_int k, c + word_of_int (k - 1)}" using assms(5) by (elim disjE) (simp_all only: insert_iff simp_thms)
  finally have "(c + word_of_int a) - word_of_int (n_cycles (cnt l)) \<in> {c + word_of_int k, c + word_of_int k - 1}" by simp
  then show ?thesis
    using assms(1-4) by (auto simp: counted_def the_end_def GET_INSN_COUNTER_def split: option.splits dest!: sync_insn_counter)
qed

lemma counted_exits:
  assumes "run_at c n j l" and "insn_executed l = j + 1" and "0 \<le> j" and "j < n"
  shows "counted c j n (done_interp l s)" "counted c j n (exception l s)" "counted c j n (illegal_insn l s)"
    "counted c j n (the_end l s)" "counted c j n (done_interp (dec_addend l) s)"
proof -
  have d: "counted c j n (done_interp l s)" for s
    unfolding done_interp_def by (rule counted_the_end [where a = n and k = "j + 1"]) (use assms in \<open>simp_all add: run_at_def dec_cycles_def\<close>)
  have e: "counted c j n (done_interp ((dec_addend l)\<lparr>insn_executed := j\<rparr>) s)" for s
    unfolding done_interp_def by (rule counted_the_end [where a = "n - 1" and k = j])
      (use assms in \<open>simp_all add: run_at_def dec_cycles_def dec_addend_def\<close>)
  have x: "counted c j n (exception l s)" for s
    using d e assms(2) by (simp add: exception_def Let_def)
  show "counted c j n (done_interp l s)" by (rule d)
  show "counted c j n (exception l s)" "counted c j n (illegal_insn l s)"
    using x by (simp_all add: illegal_insn_def)
  show "counted c j n (the_end l s)"
    by (rule counted_the_end [where a = n and k = "j + 1"]) (use assms in \<open>simp_all add: run_at_def\<close>)
  show "counted c j n (done_interp (dec_addend l) s)"
    unfolding done_interp_def by (rule counted_the_end [where a = "n - 1" and k = "j + 1"])
      (use assms in \<open>simp_all add: run_at_def dec_cycles_def dec_addend_def\<close>)
qed


fun fetched_locals :: "(locals \<Rightarrow> bool) \<Rightarrow> fetched \<Rightarrow> bool" where
  "fetched_locals P (Insn i l s) = P l"
| "fetched_locals P (FetchExc l s) = P l"
| "fetched_locals P _ = True"

lemma fetch_locals: "fetched_locals (\<lambda>l'. cnt l' = cnt l \<and> insn_executed l' = insn_executed l) (fetch l s)"
proof -
  have "fetched_locals (\<lambda>l'. cnt l' = cnt l \<and> insn_executed l' = insn_executed l) (fetch_tlb_hit l t e)" for t e
    by (auto simp: fetch_tlb_hit_def Let_def split: mres.splits)
  then show ?thesis by (auto simp: fetch_def Let_def case_prod_unfold split: mres.splits)
qed

lemma counted_iteration:
  assumes l: "run_at c n j l" "insn_executed l = j" and j: "0 \<le> j" "j < n"
    and h: "hooks_csr_write (machine s) = None"
  shows "case iteration l s of Leave r \<Rightarrow> counted c j n r
     | Continue l' s' \<Rightarrow> run_at c n j l' \<and> insn_executed l' = j + 1"
proof -
  let ?l = "l\<lparr>insn_executed := insn_executed l + 1\<rparr>"
  have l1: "run_at c n j ?l" "insn_executed ?l = j + 1" using l by (simp_all add: run_at_def)
  note f = fetch_locals [of ?l s] and fr = reaches_fetch [of s ?l]
  show ?thesis
  proof (cases "trigger_hit s")
    case True
    then show ?thesis using counted_exits(5) [OF l1 j] by (simp add: iteration_def Let_def)
  next
    case nt: False
    show ?thesis
    proof (cases "fetch ?l s")
      case (Insn i l2 s2)
      then have l2: "run_at c n j l2" "insn_executed l2 = j + 1" using f l1 by (simp_all add: run_at_def)
      have "hooks_csr_write (machine s2) = None" using reaches_hooks [of s s2] fr Insn h by simp
      note a = exec_insn_addend [OF this, of "cnt l2" i]
      obtain fl k where x: "exec_insn (cnt l2) s2 i = (fl, k)" by (cases "exec_insn (cnt l2) s2 i")
      define l3 where "l3 = l2\<lparr>cnt := (cnt l2)\<lparr>insn_counter_addend := insn_counter_addend k\<rparr>\<rparr>"
      have l3: "run_at c n j l3" "insn_executed l3 = j + 1" using l2 a x by (simp_all add: run_at_def l3_def)
      have "iteration l s = after_exec l2 (fl, k)" using Insn nt x by (simp add: iteration_def Let_def)
      then show ?thesis
        using counted_exits [OF l3 j] l3
        by (cases fl) (simp_all add: after_exec_def jump_locals_def Let_def counted_def [of _ _ _ I_Crash]
            run_at_def l3_def [symmetric])
    next
      case (FetchExc l2 s2)
      then have l2: "run_at c n j l2" "insn_executed l2 = j + 1" using f l1 by (simp_all add: run_at_def)
      then show ?thesis using FetchExc nt counted_exits(2) [OF l2 j] by (simp add: iteration_def Let_def)
    next
      case (Interrupted s2)
      then show ?thesis using nt counted_exits(4) [OF l1 j] by (simp add: iteration_def Let_def)
    qed (simp_all add: iteration_def Let_def nt counted_def)
  qed
qed

lemma counted_loop:
  "run_at c n (j - 1) l \<Longrightarrow> insn_executed l = j \<Longrightarrow> 0 \<le> j \<Longrightarrow> j \<le> n
    \<Longrightarrow> hooks_csr_write (machine s) = None \<Longrightarrow> counted c 0 n (interp_loop l s)"
proof (induction l s arbitrary: j rule: interp_loop.induct)
  case (1 l0 s0)
  let ?s = "s0\<lparr>pc := GET_PC l0\<rparr>" and ?l = "dec_cycles l0"
  have l: "run_at c n j ?l" "insn_executed ?l = j" using 1(2,3) by (simp_all add: run_at_def dec_cycles_def)
  then have nc: "n_cycles (cnt ?l) = n - j" by (simp add: run_at_def)
  have h: "hooks_csr_write (machine ?s) = None" using 1(6) by simp
  show ?case
  proof (cases "j = n")
    case True
    have "counted c 0 n (the_end ?l ?s)"
      by (rule counted_the_end [where a = n and k = n]) (use l 1(4,5) True in \<open>auto simp: run_at_def\<close>)
    then show ?thesis using True nc by (subst interp_loop.simps) (simp add: Let_def)
  next
    case False
    then have jn: "j < n" using 1(5) by simp
    note it = counted_iteration [OF l 1(4) jn h]
    show ?thesis
    proof (cases "iteration ?l ?s")
      case (Leave r)
      then have "counted c 0 n r" using it 1(4) by (auto simp: counted_def split: outcome.splits)
      then show ?thesis using Leave nc jn by (subst interp_loop.simps) (simp add: Let_def)
    next
      case (Continue l' s')
      have "hooks_csr_write (machine s') = None"
        using reaches_iteration [OF h, of ?l] reaches_hooks [of ?s s'] Continue h by simp
      moreover have "run_at c n (j + 1 - 1) l'" "insn_executed l' = j + 1" using it Continue by simp_all
      ultimately have "counted c 0 n (interp_loop l' s')"
        using 1(1) [OF refl refl _ _ Continue, of "j + 1"] nc jn 1(4) by simp
      then show ?thesis using Continue nc jn by (subst interp_loop.simps) (simp add: Let_def)
    qed
  qed
qed



section \<open>User mode\<close>

text \<open>The state that only supervisor and machine mode, and trap entry, may change.\<close>

definition privileged_state where
  "privileged_state s = ((priv s, mstatus s, satp s, medeleg s, mideleg s, mie s, csr_pmpcfg s, csr_pmpaddr s),
     (mtvec s, mepc s, mcause s, mtval s, mscratch s, mcounteren s),
     (stvec s, sepc s, scause s, stval s, sscratch s, scounteren s))"

lemma privileged_cpu_of: "privileged_state (cpu_of s) = privileged_state s"
  by (simp add: privileged_state_def cpu_of_def RISCVCPUState.defs)

lemma privileged_dev: "dev_hart s s' \<Longrightarrow> privileged_state s' = privileged_state s"
proof -
  assume d: "dev_hart s s'"
  have "privileged_state c' = privileged_state c" if "same_core c c'" for c c'
  proof -
    let ?c = "c'\<lparr>mip := mip c, power_down_flag := power_down_flag c, mcycle := mcycle c,
        timecmp := timecmp c, plic_enable_irq := plic_enable_irq c\<rparr>"
    have "?c = c" using that by (simp add: same_core_def)
    then have "privileged_state c = privileged_state ?c" by simp
    then show ?thesis by (simp add: privileged_state_def)
  qed
  from this [OF dev_hart_core [OF d]] show ?thesis by (simp add: privileged_cpu_of)
qed

lemma privileged_mark_dirty: "privileged_state (mark_dirty pa s) = privileged_state s"
  by (simp add: mark_dirty_def Let_def privileged_state_def split: option.splits)

lemmas privileged_simps = privileged_state_def fill_tlb_read_def fill_tlb_write_def set_host_mem_def pend_def
  write_reg_def write_fp_reg_def

lemma privileged_read: "mres_all (\<lambda>s'. privileged_state s' = privileged_state s) (target_read k s a)"
proof -
  have "mres_all (\<lambda>s'. privileged_state s' = privileged_state s) (riscv_cpu_read_memory s a k)"
  proof (cases rule: read_memory_cases [of s a k])
    case (ram pa pr)
    then show ?thesis by (simp add: read_memory_ram) (simp add: privileged_simps)
  next
    case (dev pr off v s')
    then show ?thesis using with_machine_dev device_load_frame privileged_dev by fastforce
  qed (simp_all add: privileged_simps)
  then show ?thesis
    by (auto simp: target_read_def Let_def mres_all_bind pend_def privileged_state_def split: mres.splits)
qed

lemma privileged_write: "mres_all (\<lambda>s'. privileged_state s' = privileged_state s) (target_write k s a v)"
proof -
  have "mres_all (\<lambda>s'. privileged_state s' = privileged_state s) (riscv_cpu_write_memory s a w k)" for w
  proof (cases rule: write_memory_cases [of s a w k])
    case (ram pa pr)
    then show ?thesis using privileged_mark_dirty [of pa s]
      by (simp add: write_memory_ram) (simp add: privileged_simps)
  next
    case (dev pr off s')
    then show ?thesis using with_machine_dev device_store_frame privileged_dev by fastforce
  qed (simp_all add: privileged_simps)
  then show ?thesis by (auto simp: target_write_def Let_def) (simp_all add: privileged_simps)
qed

definition same_privileged :: "hart \<Rightarrow> hart \<Rightarrow> bool" where
  "same_privileged s s' \<longleftrightarrow> privileged_state s' = privileged_state s"

interpretation user: body_relation same_privileged
  by (unfold_locales; unfold same_privileged_def; (rule privileged_read privileged_write | simp add: privileged_simps))

lemma privileged_fp:
  "privileged_state (s\<lparr>frm := v\<rparr>) = privileged_state s" "privileged_state (s\<lparr>fflags := w\<rparr>) = privileged_state s"
  "privileged_state (s\<lparr>fs := u\<rparr>) = privileged_state s"
  by (simp_all add: privileged_state_def)

lemma privileged_if:
  "privileged_state (snd a) = x \<Longrightarrow> privileged_state (snd b) = x \<Longrightarrow> privileged_state (snd (if c then a else b)) = x"
  by simp

lemma user_csr:
  assumes h: "hooks_csr_write (machine s) = None" and u: "drop_bit 8 csr AND 3 = 0"
  shows "privileged_state (snd (csr_write s csr v)) = privileged_state s"
proof -
  have ne: "csr \<noteq> 0x100" "csr \<noteq> 0x104" "csr \<noteq> 0x105" "csr \<noteq> 0x106" "csr \<noteq> 0x140" "csr \<noteq> 0x141" "csr \<noteq> 0x142" "csr \<noteq> 0x143"
    "csr \<noteq> 0x144" "csr \<noteq> 0x180" "csr \<noteq> 0x300" "csr \<noteq> 0x301" "csr \<noteq> 0x302" "csr \<noteq> 0x303" "csr \<noteq> 0x304" "csr \<noteq> 0x305"
    "csr \<noteq> 0x306" "csr \<noteq> 0x320" "csr \<noteq> 0x340" "csr \<noteq> 0x341" "csr \<noteq> 0x342" "csr \<noteq> 0x343" "csr \<noteq> 0x344" "csr \<noteq> 0x7a0"
    "csr \<noteq> 0x7a1" "csr \<noteq> 0x7a2" "csr \<noteq> 0x7a3" "csr \<noteq> 0x7b0" "csr \<noteq> 0x7b1" "csr \<noteq> 0x7b2" "csr \<noteq> 0xb00" "csr \<noteq> 0xb02"
    "csr \<noteq> CSR_PMPCFG 0" "csr \<noteq> CSR_PMPCFG 2"
    using u by auto
  have d: "unat csr div 256 mod 4 = 0"
  proof -
    have "drop_bit 8 csr AND 3 = take_bit 2 (drop_bit 8 csr)"
      by (simp add: take_bit_eq_mask mask_eq_exp_minus_1)
    also have "unat \<dots> = unat csr div 256 mod 4"
      unfolding unsigned_take_bit_eq unsigned_drop_bit_eq using unsigned_less [of csr, where ?'a = nat]
      by (simp add: take_bit_eq_mod drop_bit_eq_div)
    finally show ?thesis using u by simp
  qed
  have r: "\<not> (0x323 \<le> csr \<and> csr \<le> 0x33f)" "\<not> (CSR_PMPADDR 0 \<le> csr \<and> csr \<le> CSR_PMPADDR 15)"
  proof -
    have "unat csr div 256 = 3" if "768 \<le> unat csr" "unat csr < 1024" using that by (intro div_nat_eqI) simp_all
    then have "\<not> (768 \<le> unat csr \<and> unat csr < 1024)" using d by auto
    then show "\<not> (0x323 \<le> csr \<and> csr \<le> 0x33f)" "\<not> (CSR_PMPADDR 0 \<le> csr \<and> csr \<le> CSR_PMPADDR 15)"
      unfolding word_le_nat_alt by auto
  qed
  show ?thesis
    unfolding csr_write_def if_not_P [OF ne(1)]
    by (simp only: ne r csr_write_hook_def h option.case simp_thms if_False)
      (intro privileged_if; simp only: snd_conv privileged_fp set_frm_def)
qed


lemma user_sync: "sync_counters k s = Some s' \<Longrightarrow> privileged_state s' = privileged_state s"
  by (auto simp: sync_counters_def Let_def privileged_state_def split: if_splits)

lemma user_finish: "same_privileged s s' \<Longrightarrow> flow_all (same_privileged s) (csr_finish s' i v e)"
  by (simp add: csr_finish_def Let_def)

lemma user_system:
  assumes u: "priv s = PRV_U" and h: "hooks_csr_write (machine s) = None"
  shows "flow_all (same_privileged s) (fst (exec_system k s i))"
proof -
  have w: "flow_all (same_privileged s) (csr_finish (snd (csr_write t csr x)) i y e)"
    if "sync_counters k s = Some t" and "csr_read t csr b = Some z" for t csr x y e b z
  proof -
    have p: "privileged_state t = privileged_state s" by (rule user_sync [OF that(1)])
    then have "priv t = PRV_U" using u by (simp add: privileged_state_def)
    then have "drop_bit 8 csr AND 3 = 0"
      using that(2) by (simp add: csr_read_def csr_perm_ok_def unsigned_eq_0_iff split: if_splits)
    moreover have "hooks_csr_write (machine t) = None" using reaches_hooks [OF reaches_sync [OF that(1)]] h by simp
    ultimately have "same_privileged s (snd (csr_write t csr x))" using user_csr p by (simp add: same_privileged_def)
    then show ?thesis by (rule user_finish)
  qed
  have "flow_all (same_privileged s) (fst (exec_csrrw k s i v))"
    "flow_all (same_privileged s) (fst (exec_csrrs k s i v b))" for v b
    using w user_sync [of k s]
    by (auto simp: exec_csrrw_def exec_csrrs_def Let_def case_prod_unfold user_finish same_privileged_def split: option.splits)
  moreover have "flow_all (same_privileged s) (exec_ecall s i)"
    "flow_all (same_privileged s) (exec_ebreak s i)"
    "exec_sret s i = F_ILLEGAL s" "exec_mret s i = F_ILLEGAL s" "exec_dret s i = F_ILLEGAL s"
    "exec_wfi s i = F_ILLEGAL s" "exec_sfence_vma s i = F_ILLEGAL s"
    using u by (simp_all add: exec_ecall_def exec_ebreak_def exec_sret_def exec_mret_def exec_dret_def exec_wfi_def
        exec_sfence_vma_def Let_def)
  ultimately show ?thesis by (simp add: exec_system_def Let_def)
qed

text \<open>
  C9. User mode is confined: no instruction executed in user mode, whatever its encoding and however
  it ends, changes the privilege level, the status word, the page-table base, the delegation and
  interrupt-enable registers, the protection registers or the trap registers of the two privileged
  modes. Only trap entry, which follows an exception, does.
\<close>

theorem user_confined:
  assumes "priv s = PRV_U" and "hooks_csr_write (machine s) = None"
  shows "flow_all (same_privileged s) (fst (exec_insn k s insn))"
  using user.unprivileged_body [of insn s k] user_system [OF assms, of k insn]
  by (cases "insn AND 0x7f = 0x73") (simp_all add: exec_insn_def Let_def)

theorem user_confined_witness:
  "flow_all (same_privileged (tlb_example\<lparr>priv := PRV_U\<rparr>))
     (fst (exec_insn \<lparr>insn_counter_addend = 1, n_cycles = 1, insn_counter_start = 0\<rparr> (tlb_example\<lparr>priv := PRV_U\<rparr>) 0x30200073))"
proof -
  have "hooks_csr_write (machine (tlb_example\<lparr>priv := PRV_U\<rparr>)) = None"
    by (simp add: tlb_example_def walk_example_def RISCVCPUState.defs zero_machine_def)
  then show ?thesis using user_confined [of "tlb_example\<lparr>priv := PRV_U\<rparr>" "\<lparr>insn_counter_addend = 1, n_cycles = 1, insn_counter_start = 0\<rparr>" "0x30200073"] by simp
qed

end
