(* ===== verification/Machine_Laws.thy ===== *)
theory Machine_Laws
  imports Machine Interp_Laws
begin

text \<open>
  Laws of the machine around the harts (theory \<open>Machine\<close>). The locale \<open>machine_invariant\<close> carries a
  property that each hart's steps keep through \<open>virt_machine_run\<close>, \<open>iterate_core\<close> and the driver
  loop; it is interpreted for the confinement of the whole run to guest RAM. The loop is shown to
  end for one hart, the machine that is constructed is shown to satisfy the invariant, and the
  loading of images to stay inside RAM.
\<close>

section \<open>One hart of a machine\<close>

lemma hart_of_fields [simp]:
  "machine (hart_of m i) = m" "reg (hart_of m i) = reg (cpu_state m i)" "mhartid (hart_of m i) = mhartid (cpu_state m i)"
  "tlb_read (hart_of m i) = tlb_read (cpu_state m i)" "tlb_write (hart_of m i) = tlb_write (cpu_state m i)"
  "tlb_code (hart_of m i) = tlb_code (cpu_state m i)" "pc (hart_of m i) = pc (cpu_state m i)"
  by (simp_all add: hart_of_def RISCVCPUState.defs)

text \<open>The machine after the hart in slot \<open>i\<close> has reached the state \<open>s\<close>.\<close>

definition put_hart :: "nat \<Rightarrow> hart \<Rightarrow> RISCVMachine" where
  "put_hart i s = set_cpu i (cpu_of s) (machine s)"

text \<open>A property of machines that is kept by the steps of each hart is kept by the driver.\<close>

locale machine_invariant =
  fixes inv :: "RISCVMachine \<Rightarrow> bool"
  assumes hooks: "inv m \<Longrightarrow> hooks_csr_write m = None"
    and step: "inv m \<Longrightarrow> i < ncpus m \<Longrightarrow> reaches (hart_of m i) s \<Longrightarrow> inv (put_hart i s)"
    and timer: "inv m \<Longrightarrow> i < ncpus m \<Longrightarrow> inv (set_cpu i (riscv_cpu_set_mip m (cpu_state m i) k) m)"
    and budget: "inv m \<Longrightarrow> inv (m\<lparr>maxinsns := b\<rparr>)"
    and tracing: "inv m \<Longrightarrow> inv (m\<lparr>trace := t\<rparr>)"
    and harts: "inv m \<Longrightarrow> inv m' \<Longrightarrow> ncpus m' = ncpus m"
begin

fun run_all :: "run_result \<Rightarrow> bool" where
  "run_all (R_Ret k m) = inv m"
| "run_all R_Crash = True"

lemma sleep: "inv m \<Longrightarrow> i < ncpus m \<Longrightarrow> inv (snd (virt_machine_get_sleep_duration m i d))"
  by (simp add: virt_machine_get_sleep_duration_def Let_def timer)

lemma run: "inv m \<Longrightarrow> i < ncpus m \<Longrightarrow> run_all (virt_machine_run m i)"
proof -
  assume m: "inv m" "i < ncpus m"
  define m1 where "m1 = snd (virt_machine_get_sleep_duration m i 10)"
  have i1: "inv m1" unfolding m1_def by (rule sleep [OF m])
  have i2: "i < ncpus m1" unfolding harts [OF m(1) i1] by (rule m(2))
  have r: "outcome_all (reaches (hart_of m1 i)) (riscv_cpu_interp64 (hart_of m1 i) 1)"
    using reaches_interp [of "hart_of m1 i" 1] hooks [OF i1] by (simp add: riscv_cpu_interp_def)
  show ?thesis
  proof (cases "riscv_cpu_interp64 (hart_of m1 i) 1")
    case (I_Ret k s)
    then have "inv (put_hart i s)" using step [OF i1 i2] r by simp
    then show ?thesis
      using I_Ret by (simp add: virt_machine_run_def Let_def m1_def [symmetric] put_hart_def split: option.splits)
  qed (simp add: virt_machine_run_def Let_def m1_def [symmetric])
qed

lemma iterate: "inv m \<Longrightarrow> i < ncpus m \<Longrightarrow> run_all (iterate_core m i)"
proof -
  assume m: "inv m" "i < ncpus m"
  let ?m = "m\<lparr>maxinsns := maxinsns m - 1\<rparr>"
  have m1: "inv ?m" "i < ncpus ?m" using m by (simp_all add: budget)
  have r: "run_all (iterate_run p m' i)" if "inv m'" for p m'
  proof -
    have "i < ncpus m'" unfolding harts [OF m(1) that] by (rule m(2))
    from run [OF that this] show ?thesis
      by (cases "virt_machine_run m' i") (simp_all add: iterate_run_def Let_def tracing)
  qed
  have restore: "reaches (hart_of ?m i) (s\<lparr>pending_exception := a, pending_tval := b\<rparr>)"
    if "reaches (hart_of ?m i) s" for s a b using that by simp
  have "mres_all (\<lambda>s. inv (put_hart i s)) (riscv_read_insn (hart_of ?m i) p)" for p
    using reaches_insn_slow [of "hart_of ?m i" 32 p] step [OF m1] restore
    by (auto simp: riscv_read_insn_def Let_def split: mres.splits)
  from this [of "pc (cpu_state m i)"] show ?thesis
    using m1(1) by (auto simp: iterate_core_def Let_def put_hart_def intro!: r split: mres.splits)
qed

lemma rounds: "inv m \<Longrightarrow> \<forall>i \<in> set is. i < ncpus m \<Longrightarrow> run_all (round_robin is k m)"
proof (induction "is" arbitrary: k m)
  case (Cons i "is")
  show ?case
  proof (cases "iterate_core m i")
    case (R_Ret k' m')
    then have m': "inv m'" using iterate [of m i] Cons.prems by simp
    have "\<forall>i \<in> set is. i < ncpus m'" unfolding harts [OF Cons.prems(1) m'] using Cons.prems(2) by simp
    from Cons.IH [OF m' this] show ?thesis using R_Ret by simp
  qed simp
qed simp

lemma loop:
  assumes "main_loop m = Some r" and "inv m"
  shows "run_all r"
proof -
  have "inv m \<longrightarrow> run_all r"
  proof (rule main_loop.raw_induct [OF _ assms(1), where P = "\<lambda>m r. inv m \<longrightarrow> run_all r"], intro impI)
    fix f and m :: RISCVMachine and r
    assume IH: "\<And>m r. f m = Some r \<Longrightarrow> inv m \<longrightarrow> run_all r" and m: "inv m"
      and b: "(case round_robin [0..<ncpus m] False m of R_Ret k m' \<Rightarrow> if k then f m' else Some (R_Ret False m')
        | R_Crash \<Rightarrow> Some R_Crash) = Some r"
    have a: "run_all (round_robin [0..<ncpus m] False m)" using rounds [OF m] by simp
    show "run_all r"
    proof (cases "round_robin [0..<ncpus m] False m")
      case (R_Ret k m')
      have "inv m'" using a by (simp add: R_Ret)
      moreover have "r = R_Ret False m'" if "\<not> k" using b that by (simp add: R_Ret)
      moreover have "f m' = Some r" if k using b that by (simp add: R_Ret)
      ultimately show ?thesis using IH [of m' r] by (cases k) simp_all
    qed (use b in auto)
  qed
  then show ?thesis using assms(2) by simp
qed

end

section \<open>The run of a machine\<close>

text \<open>
  A machine whose harts are numbered by their slots, have x0 = 0 and have TLBs that map into guest
  RAM; \<open>mm\<close> and \<open>h\<close> are the memory map and the host memory at the start.
\<close>

definition machine_ok :: "PhysMemoryMap \<Rightarrow> hostmem \<Rightarrow> nat \<Rightarrow> RISCVMachine \<Rightarrow> bool" where
  "machine_ok mm h n m \<longleftrightarrow> ram_paged mm \<and> same_ranges mm (mem_map m) \<and> ncpus m = n \<and> hooks_csr_write m = None
     \<and> (\<forall>p. \<not> ram_byte mm p \<longrightarrow> host_mem m p = h p)
     \<and> (\<forall>i < n. unat (mhartid (cpu_state m i)) = i \<and> reg (cpu_state m i) 0 = 0 \<and> tlbs_in_ram mm (cpu_state m i))"

lemma tlbs_in_ram_eq:
  "tlb_read s' = tlb_read s \<Longrightarrow> tlb_write s' = tlb_write s \<Longrightarrow> tlb_code s' = tlb_code s
    \<Longrightarrow> tlbs_in_ram mm s' = tlbs_in_ram mm s"
  by (simp add: tlbs_in_ram_def)

lemma machine_ok_step:
  assumes m: "machine_ok mm h n m" and i: "i < ncpus m" and r: "reaches (hart_of m i) s"
  shows "machine_ok mm h n (put_hart i s)"
proof -
  have c: "confined mm h (hart_of m i)" and id: "unat (mhartid (cpu_state m i)) = i" and n: "ncpus m = n"
    using m i by (auto simp: machine_ok_def confined_def tlbs_in_ram_def)
  have cs: "confined mm h s" by (rule mem.reaches [OF r c])
  have x: "reg s 0 = 0" using x0.reaches [OF r, of 0] m i by (auto simp: machine_ok_def)
  have "others_kept (mhartid (hart_of m i)) (cpu_state m) (hart_of m i)"
    by (simp add: others_kept_def same_core_def)
  from iso.reaches [OF r this] have o: "same_core (cpu_state m j) (cpu_state (machine s) j)" if "j \<noteq> i" for j
    using that id by (auto simp: others_kept_def)
  note cfg = reaches_config [OF r]
  have "unat (mhartid (cpu_state (put_hart i s) j)) = j \<and> reg (cpu_state (put_hart i s) j) 0 = 0
      \<and> tlbs_in_ram mm (cpu_state (put_hart i s) j)" if j: "j < n" for j
  proof (cases "j = i")
    case True
    then show ?thesis using cs x cfg id
      by (simp add: put_hart_def confined_def tlbs_in_ram_eq [of "cpu_of s" s])
  next
    case False
    note e = same_core_eq [OF o [OF False]]
    show ?thesis using m j False by (simp add: put_hart_def machine_ok_def e tlbs_in_ram_eq [OF e(4-6)])
  qed
  then show ?thesis using cs cfg m n by (simp add: machine_ok_def confined_def put_hart_def set_cpu_def)
qed

lemma set_mip_fields [simp]:
  "mhartid (riscv_cpu_set_mip m c k) = mhartid c" "reg (riscv_cpu_set_mip m c k) = reg c"
  "tlb_read (riscv_cpu_set_mip m c k) = tlb_read c" "tlb_write (riscv_cpu_set_mip m c k) = tlb_write c"
  "tlb_code (riscv_cpu_set_mip m c k) = tlb_code c"
  by (simp_all add: riscv_cpu_set_mip_def Let_def)

interpretation run: machine_invariant "machine_ok mm h n" for mm h n
proof
  fix m i k assume "machine_ok mm h n m" and "i < ncpus m"
  then show "machine_ok mm h n (set_cpu i (riscv_cpu_set_mip m (cpu_state m i) k) m)"
    by (simp add: machine_ok_def set_cpu_def tlbs_in_ram_eq [of "riscv_cpu_set_mip m (cpu_state m i) k" "cpu_state m i"])
qed (auto simp: machine_ok_step, auto simp: machine_ok_def)

text \<open>
  C14. A complete run of the simulator is confined: whenever the driver loop returns, host memory
  outside the blocks of guest RAM is what it was at the start, the memory ranges are the same, and
  every hart still has x0 = 0 and TLBs that map into guest RAM.
\<close>

theorem run_confined:
  assumes "machine_ok mm h n m" and "main_loop m = Some (R_Ret k m')"
  shows "machine_ok mm h n m'"
  using run.loop [OF assms(2,1)] by simp

definition run_example :: RISCVMachine where
  "run_example = (put_hart 0 exec_example)\<lparr>ncpus := 1\<rparr>"

lemma exec_example_hartid: "mhartid exec_example = 0"
  by (simp add: exec_example_def walk_example_def RISCVCPUState.defs zero_cpu_def tlb_flush_all_def tlb_init_def)

lemma run_example_ok: "machine_ok (mem_map run_example) (host_mem run_example) 1 run_example"
  using example_paged exec_example_in_ram [of "mem_map (machine walk_example)"]
  by (simp add: machine_ok_def run_example_def put_hart_def set_cpu_def exec_example_fields exec_example_hartid
      tlbs_in_ram_eq [of "cpu_of exec_example" exec_example])

theorem run_confined_witness:
  "\<exists>m'. main_loop run_example = Some (R_Ret False m') \<and> machine_ok (mem_map run_example) (host_mem run_example) 1 m'"
proof -
  have z: "maxinsns run_example = 0" "ncpus run_example = 1"
    by (simp_all add: run_example_def put_hart_def set_cpu_def exec_example_def walk_example_def zero_machine_def
        RISCVCPUState.defs tlb_flush_all_def tlb_init_def)
  then have "main_loop run_example = Some (R_Ret False (run_example\<lparr>maxinsns := - 1\<rparr>))"
    by (subst main_loop.simps) (simp add: iterate_core_def Let_def upt_conv_Cons)
  then show ?thesis using run_confined [OF run_example_ok] by blast
qed

section \<open>The driver loop ends\<close>

lemma run_budget:
  assumes "hooks_csr_write m = None" and "virt_machine_run m i = R_Ret k m'"
  shows "maxinsns m' = maxinsns m \<and> ncpus m' = ncpus m \<and> hooks_csr_write m' = None"
proof -
  define m1 where "m1 = snd (virt_machine_get_sleep_duration m i 10)"
  have m1: "maxinsns m1 = maxinsns m" "ncpus m1 = ncpus m" "hooks_csr_write m1 = None"
    using assms(1) by (simp_all add: m1_def virt_machine_get_sleep_duration_def Let_def set_cpu_def)
  have r: "outcome_all (reaches (hart_of m1 i)) (riscv_cpu_interp64 (hart_of m1 i) 1)"
    using reaches_interp [of "hart_of m1 i" 1] m1 by (simp add: riscv_cpu_interp_def)
  show ?thesis
  proof (cases "riscv_cpu_interp64 (hart_of m1 i) 1")
    case (I_Ret c s)
    then have "m' = put_hart i s" using assms(2)
      by (auto simp: virt_machine_run_def Let_def m1_def [symmetric] put_hart_def split: option.splits if_splits)
    then show ?thesis using reaches_config [of "hart_of m1 i" s] r I_Ret m1 by (simp add: put_hart_def set_cpu_def)
  qed (use assms(2) in \<open>simp add: virt_machine_run_def Let_def m1_def [symmetric]\<close>)
qed

lemma iterate_budget:
  assumes h: "hooks_csr_write m = None" and r: "iterate_core m i = R_Ret k m'" and b: "maxinsns m \<noteq> 0"
  shows "maxinsns m' = maxinsns m - 1 \<and> ncpus m' = ncpus m \<and> hooks_csr_write m' = None"
proof -
  let ?m = "m\<lparr>maxinsns := maxinsns m - 1\<rparr>"
  have go: "maxinsns m' = maxinsns (machine s) \<and> ncpus m' = ncpus (machine s) \<and> hooks_csr_write m' = None"
    if it: "iterate_run p (put_hart i s) i = R_Ret k m'" and hk: "hooks_csr_write (machine s) = None" for s p
  proof -
    obtain k1 m1 where v: "virt_machine_run (put_hart i s) i = R_Ret k1 m1"
      and "m' = m1 \<or> m' = m1\<lparr>trace := trace m1 - 1\<rparr>"
      using it by (cases "virt_machine_run (put_hart i s) i") (auto simp: iterate_run_def Let_def split: if_splits)
    moreover have "hooks_csr_write (put_hart i s) = None" using hk by (simp add: put_hart_def set_cpu_def)
    note run_budget [OF this v]
    ultimately show ?thesis by (auto simp: put_hart_def set_cpu_def)
  qed
  have s: "maxinsns (machine s) = maxinsns m - 1 \<and> ncpus (machine s) = ncpus m \<and> hooks_csr_write (machine s) = None"
    if "reaches (hart_of ?m i) s" for s
    using reaches_config [OF that] h by simp
  have "mres_all (reaches (hart_of ?m i)) (riscv_read_insn (hart_of ?m i) (pc (cpu_state m i)))"
    using reaches_insn_slow [of "hart_of ?m i" 32 "pc (cpu_state m i)"]
    by (auto simp: riscv_read_insn_def Let_def split: mres.splits)
  then show ?thesis
    using r b go [folded put_hart_def] s
    by (auto simp: iterate_core_def Let_def put_hart_def [symmetric] split: mres.splits)
qed

text \<open>
  C21. The simulator of a machine with one hart stops: the driver loop returns after at most
  \<open>maxinsns\<close> rounds, whatever the program does.
\<close>

theorem driver_terminates:
  assumes "ncpus m = 1" and "hooks_csr_write m = None"
  shows "\<exists>r. main_loop m = Some r"
  using assms
proof (induction "unat (maxinsns m)" arbitrary: m rule: less_induct)
  case less
  show ?case
  proof (cases "iterate_core m 0")
    case R_Crash
    then show ?thesis using less.prems by (subst main_loop.simps) (simp add: upt_conv_Cons)
  next
    case (R_Ret k m')
    show ?thesis
    proof (cases "maxinsns m = 0")
      case True
      then show ?thesis using less.prems by (subst main_loop.simps) (simp add: iterate_core_def Let_def upt_conv_Cons)
    next
      case False
      note b = iterate_budget [OF less.prems(2) R_Ret False]
      have "unat (maxinsns m') < unat (maxinsns m)"
        using b False by (simp add: unat_minus_one unat_gt_0)
      from less.hyps [OF this] b less.prems R_Ret show ?thesis
        by (subst main_loop.simps) (auto simp: upt_conv_Cons)
    qed
  qed
qed

theorem driver_terminates_witness: "\<exists>r. main_loop (run_example\<lparr>maxinsns := 1000\<rparr>) = Some r"
proof (rule driver_terminates)
  show "ncpus (run_example\<lparr>maxinsns := 1000\<rparr>) = 1" by (simp add: run_example_def)
  show "hooks_csr_write (run_example\<lparr>maxinsns := 1000\<rparr>) = None"
    using run_example_ok by (simp add: machine_ok_def)
qed

section \<open>The machine at the start\<close>

definition page_aligned :: "u64 \<Rightarrow> u64 \<Rightarrow> bool" where
  "page_aligned a sz \<longleftrightarrow> page_base a = a \<and> page_base (a + sz) = a + sz"

text \<open>RAM is paged and no RAM is visible in page \<open>u\<close>.\<close>

definition paged_but :: "u64 \<Rightarrow> PhysMemoryMap \<Rightarrow> bool" where
  "paged_but u mm \<longleftrightarrow> ram_paged mm
     \<and> (\<forall>y i. get_phys_mem_range mm y = Some i \<and> is_ram (phys_mem_range mm i) \<longrightarrow> page_base y \<noteq> u)"

lemma aligned_range_page:
  assumes "page_aligned (pr_addr pr) (pr_size pr)" and "page_base b = page_base a"
  shows "in_range pr b = in_range pr a"
  using page_le [OF conjunct1 [OF assms(1) [unfolded page_aligned_def]] assms(2)]
    page_le [OF conjunct2 [OF assms(1) [unfolded page_aligned_def]] assms(2)]
  unfolding in_range_def not_le [symmetric] by simp

lemma paged_append:
  assumes mm: "paged_but u mm" and mm': "mm' = (set_range mm (n_phys_mem_range mm) pr)\<lparr>n_phys_mem_range := n_phys_mem_range mm + 1\<rparr>"
    and pr: "page_aligned (pr_addr pr) (pr_size pr) \<or> \<not> is_ram pr \<and> (\<forall>x. in_range pr x \<longrightarrow> page_base x = u)"
    and ram: "is_ram pr \<Longrightarrow> (\<forall>x. in_range pr x \<longrightarrow> page_base x \<noteq> u)"
  shows "paged_but u mm'"
proof -
  have get: "get_phys_mem_range mm' x = (if in_range pr x then Some (n_phys_mem_range mm) else get_phys_mem_range mm x)" for x
    by (rule range_append [OF mm'])
  have old: "phys_mem_range mm' i = phys_mem_range mm i" if "get_phys_mem_range mm x = Some i" for i x
    using that by (simp add: mm' set_range_def get_phys_mem_range_def find_range_Some)
  have new: "phys_mem_range mm' (n_phys_mem_range mm) = pr" by (simp add: mm' set_range_def)
  have "page_base (pr_addr (phys_mem_range mm' i)) = pr_addr (phys_mem_range mm' i)
       \<and> (\<forall>b. page_base b = page_base a \<longrightarrow> get_phys_mem_range mm' b = Some i)"
    if g: "get_phys_mem_range mm' a = Some i" and r: "is_ram (phys_mem_range mm' i)" for a i
  proof (cases "in_range pr a")
    case True
    then have i: "i = n_phys_mem_range mm" using g by (simp add: get)
    then have al: "page_aligned (pr_addr pr) (pr_size pr)" using pr r by (simp add: new)
    have "get_phys_mem_range mm' b = Some i" if "page_base b = page_base a" for b
      unfolding get aligned_range_page [OF al that] using True i by simp
    then show ?thesis using al i by (simp add: new page_aligned_def)
  next
    case False
    then have g': "get_phys_mem_range mm a = Some i" using g by (simp add: get)
    then have r': "is_ram (phys_mem_range mm i)" using r old by simp
    have "\<not> in_range pr b" if b: "page_base b = page_base a" for b
    proof -
      have "page_base a \<noteq> u" using mm g' r' by (auto simp: paged_but_def)
      then show ?thesis using pr False b aligned_range_page [of pr b a] by metis
    qed
    then have e: "get_phys_mem_range mm' b = get_phys_mem_range mm b" if "page_base b = page_base a" for b
      using that unfolding get by simp
    have "page_base (pr_addr (phys_mem_range mm i)) = pr_addr (phys_mem_range mm i)
       \<and> (\<forall>b. page_base b = page_base a \<longrightarrow> get_phys_mem_range mm b = Some i)"
      using mm g' r' unfolding paged_but_def ram_paged_def by blast
    then show ?thesis unfolding old [OF g'] using e by metis
  qed
  moreover have "page_base y \<noteq> u" if "get_phys_mem_range mm' y = Some i" "is_ram (phys_mem_range mm' i)" for y i
  proof (cases "in_range pr y")
    case True
    then have "i = n_phys_mem_range mm" using that(1) by (simp add: get)
    then show ?thesis using that(2) ram True by (simp add: new)
  next
    case False
    then have "get_phys_mem_range mm y = Some i" using that(1) by (simp add: get)
    then show ?thesis using that(2) mm old unfolding paged_but_def by metis
  qed
  ultimately show ?thesis unfolding paged_but_def ram_paged_def by blast
qed

lemma paged_init: "paged_but u phys_mem_map_init"
  by (simp add: paged_but_def ram_paged_def get_phys_mem_range_def phys_mem_map_init_def)

lemma paged_ram:
  assumes "paged_but u mm" and "default_register_ram p mm h a sz 0 = Some (i, mm', h')"
    and "page_base a = a" and "\<And>x. a \<le> x \<Longrightarrow> x < a + sz \<Longrightarrow> page_base x \<noteq> u"
  shows "paged_but u mm'"
proof -
  let ?pr = "(phys_mem_range mm (n_phys_mem_range mm))\<lparr>is_ram := True, devram_flags := 0, pr_addr := a, pr_org_size := sz,
      pr_size := sz, dirty_bits := None, phys_mem := p\<rparr>"
  have mm': "mm' = (set_range mm (n_phys_mem_range mm) ?pr)\<lparr>n_phys_mem_range := n_phys_mem_range mm + 1\<rparr>"
    and sz: "sz AND (DEVRAM_PAGE_SIZE - 1) = 0"
    using assms(2) by (auto simp: default_register_ram_def register_ram_entry_def set_range_def Let_def split: if_splits)
  have "page_base (a + sz) = a + sz"
  proof -
    have "page_base sz = sz" using sz by (simp add: page_base_take_bit take_bit_eq_mask mask_eq_exp_minus_1)
    then show ?thesis using page_base_sub [OF assms(3), of "a + sz"] by (simp add: algebra_simps)
  qed
  then show ?thesis using assms(3,4)
    by (intro paged_append [OF assms(1) mm']) (simp_all add: page_aligned_def in_range_def)
qed

fun device_paged :: "u64 \<Rightarrow> u64 \<times> u64 \<times> device \<times> u32 \<Rightarrow> bool" where
  "device_paged u (a, sz, d, fl) = (page_aligned a sz \<or> (\<forall>x. a \<le> x \<and> x < a + sz \<longrightarrow> page_base x = u))"

lemma paged_devices:
  assumes "paged_but u mm" and "register_devices ds mm = Some mm'" and "\<forall>d \<in> set ds. device_paged u d"
  shows "paged_but u mm'"
  using assms
proof (induction ds arbitrary: mm)
  case (Cons x ds)
  obtain a sz d fl where x: "x = (a, sz, d, fl)" by (cases x)
  obtain i mm1 where r: "cpu_register_device mm a sz d fl = Some (i, mm1)" and rest: "register_devices ds mm1 = Some mm'"
    using Cons.prems(2) by (auto simp: x split: option.splits)
  let ?pr = "(phys_mem_range mm (n_phys_mem_range mm))\<lparr>pr_addr := a, pr_org_size := sz,
      pr_size := (if fl AND DEVIO_DISABLED \<noteq> 0 then 0 else sz), is_ram := False, pr_device := d, devio_flags := fl\<rparr>"
  have mm1: "mm1 = (set_range mm (n_phys_mem_range mm) ?pr)\<lparr>n_phys_mem_range := n_phys_mem_range mm + 1\<rparr>"
    using r by (auto simp: cpu_register_device_def Let_def split: if_splits)
  have "page_aligned a sz \<or> (\<forall>x. a \<le> x \<and> x < a + sz \<longrightarrow> page_base x = u)"
    using Cons.prems(3) by (simp add: x)
  then have "paged_but u mm1"
    by (intro paged_append [OF Cons.prems(1) mm1]) (auto simp: in_range_def page_aligned_def)
  then show ?case using Cons.IH [OF _ rest] Cons.prems(3) by simp
qed simp


lemma page_of_range: "page_base a = a \<Longrightarrow> a \<le> x \<Longrightarrow> a \<le> page_base x"
  unfolding word_le_nat_alt unat_page_base
  using unat_page_base [of a] by (metis div_le_mono mult_le_mono1)

lemma page_base_le: "page_base x \<le> x"
  unfolding word_le_nat_alt unat_page_base by (rule div_times_less_eq_dividend)

text \<open>
  What the parameters of a machine have to satisfy: page-aligned RAM above the page of the UART, and
  page-aligned device ranges.
\<close>

definition params_ok :: "VirtMachineParams \<Rightarrow> bool" where
  "params_ok p \<longleftrightarrow> page_base (p_ram_base_addr p) = p_ram_base_addr p \<and> 0x54001000 \<le> p_ram_base_addr p
     \<and> page_aligned (p_clint_base_addr p) (p_clint_size p) \<and> page_aligned (p_plic_base_addr p) (p_plic_size p)
     \<and> page_aligned (p_mmio_start p) (p_mmio_end p - p_mmio_start p)
     \<and> (\<forall>(a, sz) \<in> set (p_mmio_addrset p). page_aligned a sz)"

lemma device_ranges_paged: "params_ok p \<Longrightarrow> \<forall>d \<in> set (device_ranges p). device_paged 0x54000000 d"
proof -
  assume p: "params_ok p"
  have "page_base x = 0x54000000" if "0x54000000 \<le> x" "x < 0x54000020" for x
  proof -
    have "unat x div 4096 = 0x54000"
      using that unfolding word_le_nat_alt word_less_nat_alt by (intro div_nat_eqI) simp_all
    then have "unat (page_base x) = unat (0x54000000 :: u64)" unfolding unat_page_base by simp
    then show ?thesis by (simp only: word_unat_eq_iff)
  qed
  then show ?thesis
    using p by (auto simp: device_ranges_def params_ok_def page_aligned_def page_base_def)
qed

lemma cpu_init_fields:
  "mhartid (riscv_cpu_init m i) = of_nat i" "reg (riscv_cpu_init m i) = (\<lambda>_. 0)" "tlbs_in_ram mm (riscv_cpu_init m i)"
  "pc (riscv_cpu_init m i) = reset_vector m" "priv (riscv_cpu_init m i) = PRV_M"
  using page_base_not_minus
  by (simp_all add: riscv_cpu_init_def tlb_init_def zero_cpu_def tlbs_in_ram_def entry_in_ram_def tlb_invalidate_def)

lemma init_harts_fields:
  assumes "init_harts p = Some m"
  shows "mem_map m = phys_mem_map_init" "ncpus m = p_ncpus p" "hooks_csr_write m = None" "p_ncpus p \<le> MAX_CPUS"
    "\<And>i. i < p_ncpus p \<Longrightarrow> \<exists>m'. cpu_state m i = riscv_cpu_init m' i \<and> reset_vector m' = p_reset_vector p"
proof -
  define z where "z = zero_machine
        \<lparr>ram_size := p_ram_size p, ram_base_addr := p_ram_base_addr p, maxinsns := p_maxinsns p,
         ncpus := p_ncpus p, reset_vector := p_reset_vector p, missing_csrs := p_missing_csrs p,
         skip_commit := p_skip_commit p, compact_bootrom := p_compact_bootrom p,
         custom_extension := p_custom_extension p, plic_base_addr := p_plic_base_addr p,
         plic_size := p_plic_size p, clint_base_addr := p_clint_base_addr p,
         clint_size := p_clint_size p\<rparr>"
  define f where "f = (\<lambda>i m. set_cpu i (riscv_cpu_init m i) m)"
  have z: "mem_map z = phys_mem_map_init" "ncpus z = p_ncpus p" "hooks_csr_write z = None" "reset_vector z = p_reset_vector p"
    by (simp_all add: z_def zero_machine_def)
  have step: "mem_map (fold f xs m) = mem_map m \<and> ncpus (fold f xs m) = ncpus m
      \<and> hooks_csr_write (fold f xs m) = hooks_csr_write m \<and> reset_vector (fold f xs m) = reset_vector m" for xs m
    by (induction xs arbitrary: m) (simp_all add: f_def set_cpu_def)
  have cpu: "\<exists>m'. cpu_state (fold f [0..<n] z) i = riscv_cpu_init m' i \<and> reset_vector m' = p_reset_vector p" if "i < n" for i n
    using that
  proof (induction n)
    case (Suc n)
    let ?m = "fold f [0..<n] z"
    have "reset_vector ?m = p_reset_vector p" using step [of "[0..<n]" z] z by simp
    then show ?case using Suc by (cases "i = n") (auto simp: f_def set_cpu_def)
  qed simp
  have m: "m = fold f [0..<p_ncpus p] z" "p_ncpus p \<le> MAX_CPUS"
    using assms by (auto simp: init_harts_def Let_def f_def z_def split: if_splits)
  show "mem_map m = phys_mem_map_init" "ncpus m = p_ncpus p" "hooks_csr_write m = None" "p_ncpus p \<le> MAX_CPUS"
    "\<And>i. i < p_ncpus p \<Longrightarrow> \<exists>m'. cpu_state m i = riscv_cpu_init m' i \<and> reset_vector m' = p_reset_vector p"
    using step [of "[0..<p_ncpus p]" z] z m cpu by simp_all
qed


definition params_example :: VirtMachineParams where
  "params_example = virt_machine_set_defaults\<lparr>p_ram_size := 0x4000000, p_ncpus := 2\<rparr>"

lemma register_ram_succeeds:
  assumes "n_phys_mem_range mm < PHYS_MEM_RANGE_MAX" and "sz AND (DEVRAM_PAGE_SIZE - 1) = 0" and "sz \<noteq> 0" and "p \<noteq> 0"
  shows "\<exists>mm' h'. default_register_ram p mm h a sz 0 = Some (n_phys_mem_range mm, mm', h')
    \<and> n_phys_mem_range mm' = n_phys_mem_range mm + 1"
  using assms by (simp add: default_register_ram_def register_ram_entry_def set_range_def Let_def)

lemma register_devices_succeeds:
  "n_phys_mem_range mm + length ds \<le> PHYS_MEM_RANGE_MAX \<Longrightarrow> \<forall>(a, sz, d, fl) \<in> set ds. sz \<le> 0xffffffff
    \<Longrightarrow> \<exists>mm'. register_devices ds mm = Some mm'"
proof (induction ds arbitrary: mm)
  case (Cons x ds)
  obtain a sz d fl where x: "x = (a, sz, d, fl)" by (cases x)
  obtain mm1 where "cpu_register_device mm a sz d fl = Some (n_phys_mem_range mm, mm1)"
    and "n_phys_mem_range mm1 = n_phys_mem_range mm + 1"
    using Cons.prems by (auto simp: x cpu_register_device_def Let_def)
  then show ?case using Cons.IH [of mm1] Cons.prems by (auto simp: x)
qed simp


section \<open>Images\<close>

lemma memcpy_at:
  "length bs \<le> 2 ^ 63 \<Longrightarrow> memcpy bs q h p = (if unat (p - q) < length bs then bs ! unat (p - q) else h p)"
proof (induction bs arbitrary: q h)
  case (Cons b bs)
  have IH: "memcpy bs (q + 1) (h(q := b)) p
      = (if unat (p - (q + 1)) < length bs then bs ! unat (p - (q + 1)) else (h(q := b)) p)"
    using Cons by simp
  show ?case
  proof (cases "p = q")
    case True
    have "unat (- 1 :: u64) = 2 ^ 64 - 1" by (simp add: unsigned_minus_1_eq_mask mask_eq_exp_minus_1)
    then have "\<not> unat (q - (q + 1)) < length bs" using Cons.prems by simp
    then show ?thesis using True IH by simp
  next
    case False
    then have "p - q \<noteq> 0" by simp
    then have "unat (p - q - 1) = unat (p - q) - 1" "0 < unat (p - q)" by (simp_all add: unat_minus_one unat_gt_0)
    then have "unat (p - (q + 1)) = unat (p - q) - 1" "0 < unat (p - q)" by (simp_all add: diff_diff_eq)
    then show ?thesis using False IH by (auto simp: nth_Cons')
  qed
qed simp

text \<open>The machine has \<open>ram_size\<close> bytes of RAM at \<open>ram_base_addr\<close>, backed by the block at \<open>ptr\<close>.\<close>

definition ram_block :: "RISCVMachine \<Rightarrow> u64 \<Rightarrow> bool" where
  "ram_block m ptr \<longleftrightarrow> unat (ram_base_addr m) + unat (ram_size m) < 2 ^ 64 \<and> unat (ram_size m) \<le> 2 ^ 63
     \<and> page_base (ram_base_addr m) = ram_base_addr m
     \<and> (\<forall>a. a - ram_base_addr m < ram_size m \<longrightarrow> get_ram_ptr m a = Some (ptr + (a - ram_base_addr m)))"

lemma copy_image_at:
  assumes "ram_block m ptr" and "copy_image buf a m = Some m'" and "unat (a - ram_base_addr m) + length buf \<le> unat (ram_size m)"
    and "buf \<noteq> []"
  shows "m' = m\<lparr>host_mem := memcpy buf (ptr + (a - ram_base_addr m)) (host_mem m)\<rparr>"
    and "\<not> q - ptr < ram_size m \<Longrightarrow> host_mem m' q = host_mem m q"
    and "j < length buf \<Longrightarrow> host_mem m' (ptr + (a - ram_base_addr m) + of_nat j) = buf ! j"
proof -
  let ?q = "ptr + (a - ram_base_addr m)"
  have len: "length buf \<le> 2 ^ 63" "length buf \<le> unat (ram_size m)" using assms(1,3) by (simp_all add: ram_block_def)
  have "a - ram_base_addr m < ram_size m" 
  proof -
    have "0 < length buf" using assms(4) by simp
    then show ?thesis using assms(3) unfolding word_less_nat_alt by linarith
  qed
  then have "get_ram_ptr m a = Some ?q" using assms(1) by (simp add: ram_block_def)
  then show m': "m' = m\<lparr>host_mem := memcpy buf ?q (host_mem m)\<rparr>" using assms(2) by (simp add: copy_image_def)
  show "host_mem m' q = host_mem m q" if "\<not> q - ptr < ram_size m"
  proof -
    have l: "unat (ram_size m) \<le> unat (q - ptr)" using that by (simp add: word_less_nat_alt)
    then have "a - ram_base_addr m \<le> q - ptr" using assms(3) unfolding word_le_nat_alt by linarith
    then have "unat (q - ptr - (a - ram_base_addr m)) = unat (q - ptr) - unat (a - ram_base_addr m)" by (rule unat_sub)
    then have "\<not> unat (q - ?q) < length buf" using l assms(3) by (simp add: diff_diff_eq)
    then show ?thesis by (simp add: m' memcpy_at [OF len(1)])
  qed
  show "host_mem m' (?q + of_nat j) = buf ! j" if "j < length buf"
  proof -
    have "unat (of_nat j :: u64) = j" using that len by (simp add: unat_of_nat)
    then show ?thesis using that by (simp add: m' memcpy_at [OF len(1)])
  qed
qed


text \<open>What a copy leaves alone, also when the image is empty.\<close>

lemma get_ram_ptr_host [simp]: "get_ram_ptr (m\<lparr>host_mem := h\<rparr>) = get_ram_ptr m"
  by (rule ext) (simp add: get_ram_ptr_def Let_def cong: option.case_cong)

lemma copy_image_frame:
  assumes "ram_block m ptr" and "copy_image buf a m = Some m'" and "unat (a - ram_base_addr m) + length buf \<le> unat (ram_size m)"
  shows "ram_block m' ptr" "ram_size m' = ram_size m" "ram_base_addr m' = ram_base_addr m"
    "\<not> q - ptr < ram_size m \<Longrightarrow> host_mem m' q = host_mem m q"
proof -
  obtain h where m': "m' = m\<lparr>host_mem := h\<rparr>" using assms(2) by (auto simp: copy_image_def)
  then show "ram_block m' ptr" "ram_size m' = ram_size m" "ram_base_addr m' = ram_base_addr m"
    using assms(1) by (simp_all add: ram_block_def)
  show "host_mem m' q = host_mem m q" if "\<not> q - ptr < ram_size m"
  proof (cases "buf = []")
    case True
    then show ?thesis using assms(2) by (auto simp: copy_image_def)
  qed (use copy_image_at(2) [OF assms] that in blast)
qed

lemma initrd_place:
  fixes b sz :: u64 and n :: nat
  assumes "unat b + unat sz < 2 ^ 64" and "page_base b = b" and "n \<le> unat sz"
  defines "s \<equiv> push_bit 12 (drop_bit 12 (b + sz - of_nat n))"
  shows "page_base s = s" "b \<le> s" "unat (s - b) + n \<le> unat sz"
proof -
  have s: "s = page_base (b + sz - of_nat n)"
    unfolding s_def by (rule bit_word_eqI) (auto simp: page_base_def PG_MASK_eq bit_simps)
  show "page_base s = s" unfolding s by (simp add: page_base_eq_iff bit_page_base)
  have "unat (of_nat n :: u64) = n" using assms(1,3) by (simp add: unat_of_nat)
  moreover have "unat (b + sz) = unat b + unat sz" using assms(1) by (simp add: unat_word_ariths)
  ultimately have e: "unat (b + sz - of_nat n) = unat b + unat sz - n"
    using assms(3) by (simp add: unat_sub word_le_nat_alt)
  then have "b \<le> b + sz - of_nat n" using assms(3) by (simp add: word_le_nat_alt)
  then show bs: "b \<le> s" unfolding s by (rule page_of_range [OF assms(2)])
  have "unat s \<le> unat b + unat sz - n" using page_base_le [of "b + sz - of_nat n"] e by (simp add: s word_le_nat_alt)
  then show "unat (s - b) + n \<le> unat sz" using bs assms(3) by (simp add: unat_sub word_le_nat_alt)
qed

lemma offset_in_range:
  fixes a b sz :: u64
  assumes "a - b < sz" and "unat b + unat sz < 2 ^ 64"
  shows "b \<le> a" "a < b + sz"
proof -
  have d: "unat (a - b) < unat sz" using assms(1) by (simp add: word_less_nat_alt)
  have "unat (b + (a - b)) = unat b + unat (a - b)"
    using d assms(2) by (subst unat_add_lem [THEN iffD1]) simp_all
  then have a: "unat a = unat b + unat (a - b)" by simp
  have "unat (b + sz) = unat b + unat sz" using assms(2) by (subst unat_add_lem [THEN iffD1]) simp_all
  then show "b \<le> a" "a < b + sz" using a d by (simp_all add: word_le_nat_alt word_less_nat_alt)
qed

end
