(* ===== verification/Cosim_Laws.thy ===== *)
theory Cosim_Laws
  imports Cosim Machine_Laws
begin

text \<open>
  Laws of the co-simulation: what the model has done, and how it compares with the device under
  test, when a step reports success.
\<close>

section \<open>What a successful step shows\<close>

text \<open>Iterations that enter a trap or an interrupt without completing an instruction.\<close>

inductive cosim_entries :: "u64 \<Rightarrow> u32 \<Rightarrow> u64 \<Rightarrow> u32 \<Rightarrow> hart \<Rightarrow> u32 \<Rightarrow> hart \<Rightarrow> bool"
  for dut_pc dut_insn dut_wdata where
  none: "cosim_entries dut_pc dut_insn dut_wdata i s i s"
| entry: "cosim_iter dut_pc dut_insn dut_wdata i s = Again i' s' \<Longrightarrow>
    cosim_entries dut_pc dut_insn dut_wdata i' s' i'' s'' \<Longrightarrow> cosim_entries dut_pc dut_insn dut_wdata i s i'' s''"

lemma cosim_loop_stepped:
  assumes "cosim_loop p j d i s = Some r"
  shows "\<exists>i' s'. cosim_entries p j d i s i' s' \<and> cosim_iter p j d i' s' = r \<and> (\<forall>i'' s''. r \<noteq> Again i'' s'')"
proof (rule cosim_loop.raw_induct [OF _ assms])
  fix loop p j d i s r
  assume 1: "\<And>p j d i s r. loop p j d i s = Some r \<Longrightarrow>
      \<exists>i' s'. cosim_entries p j d i s i' s' \<and> cosim_iter p j d i' s' = r \<and> (\<forall>i'' s''. r \<noteq> Again i'' s'')"
    "(case cosim_iter p j d i s of Again i' s' \<Rightarrow> loop p j d i' s' | r \<Rightarrow> Some r) = Some r"
  show "\<exists>i' s'. cosim_entries p j d i s i' s' \<and> cosim_iter p j d i' s' = r \<and> (\<forall>i'' s''. r \<noteq> Again i'' s'')"
  proof (cases "\<exists>i' s'. cosim_iter p j d i s = Again i' s'")
    case True
    then obtain i' s' where a: "cosim_iter p j d i s = Again i' s'" by blast
    with 1(2) have "loop p j d i' s' = Some r" by simp
    from 1(1) [OF this] a show ?thesis by (blast intro: cosim_entries.entry)
  next
    case False
    then have "cosim_iter p j d i s = r" using 1(2) by (cases "cosim_iter p j d i s") auto
    with False show ?thesis by (blast intro: cosim_entries.none)
  qed
qed

lemma insn_slow_pc: "mres_all (\<lambda>t. pc t = pc s) (target_read_insn_slow s n a)"
  by (simp add: target_read_insn_slow_def fetch_fault_def fill_tlb_code_def pend_def Let_def
      split: xlate.split option.split)

lemma cosim_iter_pc:
  assumes "cosim_iter p j d i s = Stepped st t"
  shows "emu_pc st = pc s"
proof -
  obtain insn s1 where r: "read_emu_insn s i = Some (insn, s1)"
    using assms by (auto simp: cosim_iter_def split: option.splits)
  have "mres_all (\<lambda>t. pc t = pc s) (riscv_read_insn s (pc s))"
    using insn_slow_pc [of s 32 "pc s"] by (auto simp: riscv_read_insn_def Let_def split: mres.splits)
  then have "pc s1 = pc s" using r by (auto simp: read_emu_insn_def Let_def split: mres.splits)
  then show ?thesis
    using assms r
    by (auto simp: cosim_iter_def follow_failed_sc_def Let_def split: if_splits option.splits sum.splits outcome.splits)
qed

lemma overrides_frame:
  assumes "handle_dut_overrides s insn d = Some u"
  shows "fp_reg u = fp_reg s" "pc u = pc s" "machine u = machine s"
    "override_csr insn \<or> override_load insn \<noteq> None \<or> reg u = reg s"
proof -
  have r: "fp_reg u = fp_reg s \<and> pc u = pc s \<and> machine u = machine s" if "riscv_set_reg s n v = Some u" for s u :: hart and n v
    using that by (auto simp: riscv_set_reg_def split: if_splits)
  obtain s1 where 1: "(if override_csr insn then riscv_set_reg s (uint (drop_bit 7 insn AND 0x1f)) d else Some s) = Some s1"
    and 2: "(case override_load insn of None \<Rightarrow> Some s1 | Some (rn, offset, rd) \<Rightarrow>
            (case is_mmio_load s1 rn offset of
               None \<Rightarrow> None | Some b \<Rightarrow> if b then riscv_set_reg s1 (int rd) d else Some s1)) = Some u"
    using assms by (auto simp: handle_dut_overrides_def bind_eq_Some_conv)
  show "fp_reg u = fp_reg s" "pc u = pc s" "machine u = machine s"
    "override_csr insn \<or> override_load insn \<noteq> None \<or> reg u = reg s"
    using 1 2 r [of s _ d s1] r [of s1 _ d u] by (auto split: if_splits option.splits prod.splits)
qed


text \<open>\<open>sc.w x5, x6, (x7)\<close> at address 0x100, which the device reports as failed.\<close>

definition cosim_example :: hart where
  "cosim_example = exec_example
     \<lparr>machine := (machine exec_example)\<lparr>host_mem := store_le 4 (\<lambda>_. 0) 0x7100 0x1863a2af, maxinsns := 1, htif_tohost_addr := 0x10000\<rparr>\<rparr>"

lemma cosim_example_step:
  "\<exists>u. dromajo_cosim_step 0x100 0x1863a2af 1 True 0 cosim_example = Some (C_Ret 0 u)"
proof -
  let ?pr = "phys_mem_range (mem_map (machine walk_example)) 0"
  define s where "s = cosim_example\<lparr>machine := (machine cosim_example)\<lparr>maxinsns := maxinsns (machine cosim_example) - 1\<rparr>\<rparr>"
  have s: "s = exec_example\<lparr>machine := (machine exec_example)\<lparr>host_mem := store_le 4 (\<lambda>_. 0) 0x7100 0x1863a2af, maxinsns := 0, htif_tohost_addr := 0x10000\<rparr>\<rparr>"
    by (simp add: s_def cosim_example_def)
  have h: "host_ptr ?pr 0x100 = 0x7100"
    by (simp add: walk_example_def RISCVCPUState.defs zero_machine_def register_ram_entry_def
        phys_mem_map_init_def set_range_def Let_def host_ptr_def)
  have i: "load_le 4 (store_le 4 (\<lambda>_. 0) 0x7100 0x1863a2af) 0x7100 = (0x1863a2af :: u64)"
    using le.load_store [of 4 "\<lambda>_. 0" "0x7100" "0x1863a2af"] by simp
  have f: "target_read_insn_slow s 32 0x100 = Val 0x1863a2af (fill_tlb_code 0x100 0x100 0x7100 s)"
    unfolding target_read_insn_slow_def
    by (simp add: s riscv_cpu_get_phys_addr_def effective_priv_def exec_range_def
       get_phys_mem_range_pmp_def riscv_cpu_pmp_access_ok_def exec_example_fields get_phys_mem_range_def
       in_range_def example_range h i fill_tlb_code_def tlb_index_def cong: if_cong)
  define v where "v = (fill_tlb_code 0x100 0x100 0x7100 s)\<lparr>pending_exception := pending_exception s, pending_tval := pending_tval s\<rparr>"
  have p: "pc s = 0x100" by (simp add: s exec_example_fields)
  have v: "pc v = 0x100" "fp_reg v = fp_reg s" by (simp_all add: v_def p fill_tlb_code_def)
  have "read_emu_insn s 0 = Some (0x1863a2af, v)"
    by (simp add: read_emu_insn_def riscv_read_insn_def p f Let_def v_def)
  moreover have "dut_failed_sc v 0x1863a2af 0x100 0x1863a2af 1" by (simp add: dut_failed_sc_def is_store_conditional_def v)
  moreover have "uint (drop_bit 7 (0x1863a2af :: u32) AND 0x1f) = 5" by simp
  ultimately have "cosim_iter 0x100 0x1863a2af 1 0 s =
      Stepped \<lparr>iregno = 5, fregno = - 1, emu_pc = 0x100, emu_insn = 0x1863a2af\<rparr>
        (riscv_set_pc (v\<lparr>reg := (reg v)(5 := 1)\<rparr>) 0x104)"
    by (simp add: cosim_iter_def follow_failed_sc_def riscv_set_reg_def v Let_def)
  then have l: "cosim_loop 0x100 0x1863a2af 1 0 s =
      Some (Stepped \<lparr>iregno = 5, fregno = - 1, emu_pc = 0x100, emu_insn = 0x1863a2af\<rparr>
        (riscv_set_pc (v\<lparr>reg := (reg v)(5 := 1)\<rparr>) 0x104))"
    by (subst cosim_loop.simps) simp
  have "tohost_done cosim_example = Some False"
    by (simp add: tohost_done_def riscv_phys_read_def get_phys_mem_range_pmp_def riscv_cpu_pmp_access_ok_def
        get_phys_mem_range_def in_range_def example_range cosim_example_def exec_example_fields cong: if_cong)
  moreover have "maxinsns (machine cosim_example) \<noteq> 0" "\<not> terminate_simulation s"
    by (simp_all add: cosim_example_def s exec_example_def walk_example_def RISCVCPUState.defs zero_cpu_def
        tlb_flush_all_def tlb_init_def)
  moreover have "skip_commit (machine v) = []"
    by (simp add: v_def fill_tlb_code_def s exec_example_def walk_example_def RISCVCPUState.defs zero_machine_def
        tlb_flush_all_def tlb_init_def)
  ultimately show ?thesis
    using l unfolding dromajo_cosim_step_def Let_def s_def [symmetric]
    by (simp add: finish_step_def handle_dut_overrides_def override_csr_def override_load_def is_amo_def
        emu_wdata_def riscv_get_reg_def differs_def riscv_set_pc_def Let_def)
qed


end
