(* ===== verification/Insn_Formats.thy ===== *)
theory Insn_Formats
  imports Exec_Frames
begin

text \<open>
  Instruction formats: the immediates of the 32-bit and compressed instructions as lists of
  instruction bits, as the instruction set manual tabulates them, and encoders for the six
  formats of the base instruction set. The lemmas show that the decoders of the interpreter
  agree with the tables and that they invert the encoders.
\<close>

named_theorems imm_bits \<open>the bits of the instruction that make up an immediate\<close>

section \<open>Immediates\<close>

lemma bit_sext:
  assumes "0 < k" "k \<le> 32"
  shows "bit (sext v k) n \<longleftrightarrow> n < 32 \<and> bit v (if n < k then n else k - 1)"
  using assms by (auto simp: sext_def bit_signed_drop_bit_iff bit_push_bit_iff min_def)

lemma bit_get_field1:
  assumes "lo \<le> hi" "hi < 32"
  shows "bit (get_field1 v src lo hi) n \<longleftrightarrow> lo \<le> n \<and> n \<le> hi \<and> bit v (src + n - lo)"
proof -
  have m: "push_bit lo (push_bit (hi - lo + 1) 1 - 1 :: u32) = push_bit lo (mask (hi - lo + 1))"
    by (simp add: mask_eq_exp_minus_1)
  have "bit (push_bit lo (mask (hi - lo + 1) :: u32)) n \<longleftrightarrow> lo \<le> n \<and> n \<le> hi"
    using assms by (auto simp: bit_push_bit_iff bit_mask_iff)
  then show ?thesis
    using assms unfolding get_field1_def Let_def m
    by (auto simp: bit_and_iff bit_push_bit_iff bit_drop_bit_eq add.commute)
qed

text \<open>
  An immediate as the instruction set manual describes it: for each bit, from the lowest, the bit
  of the instruction it is taken from, \<^const>\<open>None\<close> for a bit that is always zero.
\<close>

fun gather :: "nat option list \<Rightarrow> u32 \<Rightarrow> u32" where
  "gather [] insn = 0"
| "gather (p # ps) insn = of_bool (case p of None \<Rightarrow> False | Some k \<Rightarrow> bit insn k) OR push_bit 1 (gather ps insn)"

lemma bit_gather:
  "bit (gather ps insn) n \<longleftrightarrow> n < 32 \<and> n < length ps \<and> (case ps ! n of None \<Rightarrow> False | Some k \<Rightarrow> bit insn k)"
proof (induction ps arbitrary: n)
  case (Cons p ps)
  show ?case
    unfolding gather.simps bit_or_iff bit_push_bit_iff bit_of_bool_iff Cons.IH by (cases n) auto
qed simp

declare gather.simps [simp del]

abbreviation zeros :: "nat \<Rightarrow> nat option list" where "zeros n \<equiv> map (\<lambda>_. None) [0..<n]"

lemma gatherI:
  assumes "map (bit v) [0..<length ps] = map (\<lambda>p. case p of None \<Rightarrow> False | Some k \<Rightarrow> bit insn k) ps"
    and "\<And>n. length ps \<le> n \<Longrightarrow> \<not> bit v n"
  shows "v = gather ps insn"
proof (rule bit_word_eqI)
  fix n assume n: "n < LENGTH(32)"
  show "bit v n = bit (gather ps insn) n"
  proof (cases "n < length ps")
    case True
    from arg_cong [OF assms(1), of "\<lambda>xs. xs ! n"] show ?thesis using True n by (simp add: bit_gather)
  next
    case False
    then show ?thesis using assms(2) [of n] by (simp add: bit_gather)
  qed
qed


text \<open>The immediates of the compressed instructions.\<close>

lemma bit_field_masks:
  "bit (0x1f :: int) n \<longleftrightarrow> n < 5"
  "bit (0x1c :: int) n \<longleftrightarrow> 2 \<le> n \<and> n < 5"
  "bit (0x18 :: int) n \<longleftrightarrow> 3 \<le> n \<and> n < 5"
proof -
  have e: "(0x1f :: int) = mask 5" "(0x1c :: int) = push_bit 2 (mask 3)" "(0x18 :: int) = push_bit 3 (mask 2)"
    by (simp_all add: mask_eq_exp_minus_1)
  show "bit (0x1f :: int) n \<longleftrightarrow> n < 5" "bit (0x1c :: int) n \<longleftrightarrow> 2 \<le> n \<and> n < 5"
    "bit (0x18 :: int) n \<longleftrightarrow> 3 \<le> n \<and> n < 5"
    unfolding e by (auto simp: bit_push_bit_iff bit_mask_iff)
qed

lemmas field_bits = bit_get_field1 bit_or_iff bit_and_iff bit_drop_bit_eq bit_field_masks upt_conv_Cons

definition ci_bits :: "nat option list" where
  [imm_bits]: "ci_bits = map Some [2, 3, 4, 5, 6, 12]"
definition cl_w_bits :: "nat option list" where
  [imm_bits]: "cl_w_bits = zeros 2 @ map Some [6, 10, 11, 12, 5]"
definition cl_d_bits :: "nat option list" where
  [imm_bits]: "cl_d_bits = zeros 3 @ map Some [10, 11, 12, 5, 6]"
definition cj_bits :: "nat option list" where
  [imm_bits]: "cj_bits = zeros 1 @ map Some [3, 4, 5, 11, 2, 7, 6, 9, 10, 8, 12]"
definition cb_bits :: "nat option list" where
  [imm_bits]: "cb_bits = zeros 1 @ map Some [3, 4, 10, 11, 2, 5, 6, 12]"
definition addi4spn_bits :: "nat option list" where
  [imm_bits]: "addi4spn_bits = zeros 2 @ map Some [6, 5, 11, 12, 7, 8, 9, 10]"
definition addi16sp_bits :: "nat option list" where
  [imm_bits]: "addi16sp_bits = zeros 4 @ map Some [6, 2, 5, 3, 4, 12]"
definition clui_bits :: "nat option list" where
  [imm_bits]: "clui_bits = zeros 12 @ map Some [2, 3, 4, 5, 6, 12]"
definition lwsp_bits :: "nat option list" where
  [imm_bits]: "lwsp_bits = zeros 2 @ map Some [4, 5, 6, 12, 2, 3]"
definition ldsp_bits :: "nat option list" where
  [imm_bits]: "ldsp_bits = zeros 3 @ map Some [5, 6, 12, 2, 3, 4]"
definition swsp_bits :: "nat option list" where
  [imm_bits]: "swsp_bits = zeros 2 @ map Some [9, 10, 11, 12, 7, 8]"
definition sdsp_bits :: "nat option list" where
  [imm_bits]: "sdsp_bits = zeros 3 @ map Some [10, 11, 12, 7, 8, 9]"

lemma compressed_shamt: "get_field1 insn 12 5 5 OR get_field1 insn 2 0 4 = gather ci_bits insn"
  by (rule gatherI) (simp_all add: field_bits imm_bits)

lemma compressed_shamt_sp: "get_field1 insn 12 5 5 OR (drop_bit 2 insn AND 0x1f) = gather ci_bits insn"
  by (rule gatherI) (simp_all add: field_bits imm_bits)

lemma compressed_immediates:
  "imm_ci insn = sext (gather ci_bits insn) 6"
  "imm_cl_w insn = gather cl_w_bits insn"
  "imm_cl_d insn = gather cl_d_bits insn"
  "imm_cj insn = sext (gather cj_bits insn) 12"
  "imm_cb insn = sext (gather cb_bits insn) 9"
  "imm_addi4spn insn = gather addi4spn_bits insn"
  "imm_addi16sp insn = sext (gather addi16sp_bits insn) 10"
  "imm_clui insn = sext (gather clui_bits insn) 18"
  "imm_swsp insn = gather swsp_bits insn"
  "imm_sdsp insn = gather sdsp_bits insn"
  unfolding imm_ci_def imm_cl_w_def imm_cl_d_def imm_cj_def imm_cb_def imm_addi4spn_def imm_addi16sp_def
    imm_clui_def imm_swsp_def imm_sdsp_def
  by ((rule arg_cong2 [where f = sext, OF _ refl])?, rule gatherI, simp add: field_bits imm_bits, simp add: field_bits imm_bits)+

lemma compressed_stack_immediates:
  "imm_lwsp insn = gather lwsp_bits insn"
  "imm_ldsp insn = gather ldsp_bits insn"
  unfolding imm_lwsp_def imm_ldsp_def
  by (rule gatherI, simp add: field_bits imm_bits, simp add: field_bits imm_bits)+

section \<open>Instruction formats\<close>

text \<open>
  The six fields of a 32-bit instruction and the formats of the base instruction set built from
  them. An immediate is a 32-bit word of which the format keeps the bits it can encode.
\<close>

definition enc_fields :: "u32 \<Rightarrow> u32 \<Rightarrow> u32 \<Rightarrow> u32 \<Rightarrow> u32 \<Rightarrow> u32 \<Rightarrow> u32" where
  "enc_fields funct7 rs2 rs1 funct3 rd opcode =
     push_bit 25 funct7 OR push_bit 20 (take_bit 5 rs2) OR push_bit 15 (take_bit 5 rs1)
     OR push_bit 12 (take_bit 3 funct3) OR push_bit 7 (take_bit 5 rd) OR take_bit 7 opcode"

definition enc_i :: "u32 \<Rightarrow> u32 \<Rightarrow> u32 \<Rightarrow> u32 \<Rightarrow> u32 \<Rightarrow> u32" where
  "enc_i imm rs1 funct3 rd opcode = enc_fields (drop_bit 5 imm) imm rs1 funct3 rd opcode"

definition enc_s :: "u32 \<Rightarrow> u32 \<Rightarrow> u32 \<Rightarrow> u32 \<Rightarrow> u32 \<Rightarrow> u32" where
  "enc_s imm rs2 rs1 funct3 opcode = enc_fields (drop_bit 5 imm) rs2 rs1 funct3 imm opcode"

definition enc_b :: "u32 \<Rightarrow> u32 \<Rightarrow> u32 \<Rightarrow> u32 \<Rightarrow> u32 \<Rightarrow> u32" where
  "enc_b imm rs2 rs1 funct3 opcode =
     enc_fields (take_bit 6 (drop_bit 5 imm) OR push_bit 6 (drop_bit 12 imm)) rs2 rs1 funct3
       ((imm AND 0x1e) OR (drop_bit 11 imm AND 1)) opcode"

definition enc_u :: "u32 \<Rightarrow> u32 \<Rightarrow> u32 \<Rightarrow> u32" where
  "enc_u imm rd opcode =
     enc_fields (drop_bit 25 imm) (drop_bit 20 imm) (drop_bit 15 imm) (drop_bit 12 imm) rd opcode"

definition enc_j :: "u32 \<Rightarrow> u32 \<Rightarrow> u32 \<Rightarrow> u32" where
  "enc_j imm rd opcode =
     enc_fields (take_bit 6 (drop_bit 5 imm) OR push_bit 6 (drop_bit 20 imm))
       ((imm AND 0x1e) OR (drop_bit 11 imm AND 1))
       (drop_bit 15 imm) (drop_bit 12 imm) rd opcode"

lemmas enc_formats = enc_i_def enc_s_def enc_b_def enc_u_def enc_j_def

lemma bit_enc_fields:
  "bit (enc_fields f7 rs2 rs1 f3 rd opcode) n \<longleftrightarrow> n < 32 \<and>
     (if n < 7 then bit opcode n else if n < 12 then bit rd (n - 7) else if n < 15 then bit f3 (n - 12)
      else if n < 20 then bit rs1 (n - 15) else if n < 25 then bit rs2 (n - 20) else bit f7 (n - 25))"
  unfolding enc_fields_def bit_or_iff bit_push_bit_iff bit_take_bit_iff by (auto simp: not_less)

lemma enc_fields_fields:
  "insn_rd (enc_fields f7 rs2 rs1 f3 rd opcode) = unat (take_bit 5 rd)"
  "insn_rs1 (enc_fields f7 rs2 rs1 f3 rd opcode) = unat (take_bit 5 rs1)"
  "insn_rs2 (enc_fields f7 rs2 rs1 f3 rd opcode) = unat (take_bit 5 rs2)"
  "insn_funct3 (enc_fields f7 rs2 rs1 f3 rd opcode) = take_bit 3 f3"
  "drop_bit 25 (enc_fields f7 rs2 rs1 f3 rd opcode) = take_bit 7 f7"
  "enc_fields f7 rs2 rs1 f3 rd opcode AND 0x7f = take_bit 7 opcode"
proof -
  have m: "(0x1f :: u32) = mask 5" "(7 :: u32) = mask 3" "(0x7f :: u32) = mask 7"
    by (simp_all add: mask_eq_exp_minus_1)
  show "insn_rd (enc_fields f7 rs2 rs1 f3 rd opcode) = unat (take_bit 5 rd)"
    "insn_rs1 (enc_fields f7 rs2 rs1 f3 rd opcode) = unat (take_bit 5 rs1)"
    "insn_rs2 (enc_fields f7 rs2 rs1 f3 rd opcode) = unat (take_bit 5 rs2)"
    "insn_funct3 (enc_fields f7 rs2 rs1 f3 rd opcode) = take_bit 3 f3"
    "drop_bit 25 (enc_fields f7 rs2 rs1 f3 rd opcode) = take_bit 7 f7"
    "enc_fields f7 rs2 rs1 f3 rd opcode AND 0x7f = take_bit 7 opcode"
    unfolding insn_fields m
    by (rule arg_cong [where f = unat] bit_word_eqI, (rule bit_word_eqI)?,
        auto simp: bit_and_iff bit_mask_iff bit_drop_bit_eq bit_take_bit_iff bit_enc_fields)+
qed

text \<open>The immediates of the base formats, as the interpreter decodes them.\<close>

lemma imm_i_enc: "imm_i (enc_i imm rs1 f3 rd opcode) = sext imm 12"
proof (rule bit_word_eqI)
  fix n show "bit (imm_i (enc_i imm rs1 f3 rd opcode)) n = bit (sext imm 12) n" if "n < LENGTH(32)"
    using that unfolding imm_i_def enc_i_def
    by (auto simp: bit_sext bit_signed_drop_bit_iff bit_enc_fields bit_drop_bit_eq)
qed

lemma bit_immediate_masks:
  "bit (0xfe0 :: int) n \<longleftrightarrow> 5 \<le> n \<and> n < 12"
  "bit (0x7e0 :: int) n \<longleftrightarrow> 5 \<le> n \<and> n < 11"
  "bit (0x1e :: int) n \<longleftrightarrow> 1 \<le> n \<and> n < 5"
  "bit (0x7fe :: int) n \<longleftrightarrow> 1 \<le> n \<and> n < 11"
  "bit (0x1ffe :: int) n \<longleftrightarrow> 1 \<le> n \<and> n < 13"
  "bit (0x1ffffe :: int) n \<longleftrightarrow> 1 \<le> n \<and> n < 21"
  "bit (0xff000 :: int) n \<longleftrightarrow> 12 \<le> n \<and> n < 20"
  "bit (0xfffff000 :: int) n \<longleftrightarrow> 12 \<le> n \<and> n < 32"
  "bit (0x800 :: int) n \<longleftrightarrow> n = 11"
  "bit (0x1000 :: int) n \<longleftrightarrow> n = 12"
  "bit (0x100000 :: int) n \<longleftrightarrow> n = 20"
proof -
  have m: "bit (push_bit a (mask b) :: int) n \<longleftrightarrow> a \<le> n \<and> n < a + b" for a b
    by (auto simp: bit_push_bit_iff bit_mask_iff)
  have e: "(0xfe0 :: int) = push_bit 5 (mask 7)" "(0x7e0 :: int) = push_bit 5 (mask 6)"
    "(0x1e :: int) = push_bit 1 (mask 4)" "(0x7fe :: int) = push_bit 1 (mask 10)"
    "(0x1ffe :: int) = push_bit 1 (mask 12)" "(0x1ffffe :: int) = push_bit 1 (mask 20)"
    "(0xff000 :: int) = push_bit 12 (mask 8)" "(0xfffff000 :: int) = push_bit 12 (mask 20)"
    "(0x800 :: int) = push_bit 11 (mask 1)" "(0x1000 :: int) = push_bit 12 (mask 1)"
    "(0x100000 :: int) = push_bit 20 (mask 1)"
    by (simp_all add: mask_eq_exp_minus_1)
  show "bit (0xfe0 :: int) n \<longleftrightarrow> 5 \<le> n \<and> n < 12" "bit (0x7e0 :: int) n \<longleftrightarrow> 5 \<le> n \<and> n < 11"
    "bit (0x1e :: int) n \<longleftrightarrow> 1 \<le> n \<and> n < 5" "bit (0x7fe :: int) n \<longleftrightarrow> 1 \<le> n \<and> n < 11"
    "bit (0x1ffe :: int) n \<longleftrightarrow> 1 \<le> n \<and> n < 13" "bit (0x1ffffe :: int) n \<longleftrightarrow> 1 \<le> n \<and> n < 21"
    "bit (0xff000 :: int) n \<longleftrightarrow> 12 \<le> n \<and> n < 20" "bit (0xfffff000 :: int) n \<longleftrightarrow> 12 \<le> n \<and> n < 32"
    "bit (0x800 :: int) n \<longleftrightarrow> n = 11" "bit (0x1000 :: int) n \<longleftrightarrow> n = 12"
    "bit (0x100000 :: int) n \<longleftrightarrow> n = 20"
    unfolding e m by auto
qed

lemmas base_field_bits = bit_or_iff bit_and_iff bit_drop_bit_eq bit_push_bit_iff bit_field_masks bit_immediate_masks
  upt_conv_Cons numeral_2_eq_2 [symmetric]

definition i_bits :: "nat option list" where
  [imm_bits]: "i_bits = map Some [20..<32]"
definition s_bits :: "nat option list" where
  [imm_bits]: "s_bits = map Some ([7..<12] @ [25..<32])"
definition b_bits :: "nat option list" where
  [imm_bits]: "b_bits = None # map Some ([8..<12] @ [25..<31] @ [7, 31])"
definition j_bits :: "nat option list" where
  [imm_bits]: "j_bits = None # map Some ([21..<31] @ [20] @ [12..<20] @ [31])"

lemma base_immediates:
  "imm_i insn = sext (gather i_bits insn) 12"
  "imm_s insn = sext (gather s_bits insn) 12"
  "imm_b insn = sext (gather b_bits insn) 13"
  "imm_jal insn = sext (gather j_bits insn) 21"
proof -
  have i: "drop_bit 20 insn = gather i_bits insn"
    by (rule gatherI) (auto simp: base_field_bits imm_bits dest: bit_imp_le_length)
  have "imm_i insn = sext (drop_bit 20 insn) 12"
    by (rule bit_word_eqI) (auto simp: imm_i_def bit_sext bit_signed_drop_bit_iff bit_drop_bit_eq)
  then show "imm_i insn = sext (gather i_bits insn) 12" unfolding i .
  have "(drop_bit 7 insn AND 0x1f) OR (drop_bit 20 insn AND 0xfe0) = gather s_bits insn"
    by (rule gatherI) (simp_all add: base_field_bits imm_bits)
  then show "imm_s insn = sext (gather s_bits insn) 12" by (simp add: imm_s_def sext_def)
  have "(drop_bit 19 insn AND push_bit 12 1) OR (drop_bit 20 insn AND 0x7e0)
      OR (drop_bit 7 insn AND 0x1e) OR (push_bit 4 insn AND push_bit 11 1) = gather b_bits insn"
    by (rule gatherI) (simp_all add: base_field_bits imm_bits)
  then show "imm_b insn = sext (gather b_bits insn) 13" by (simp add: imm_b_def sext_def)
  have "(drop_bit 11 insn AND push_bit 20 1) OR (drop_bit 20 insn AND 0x7fe)
      OR (drop_bit 9 insn AND push_bit 11 1) OR (insn AND 0xff000) = gather j_bits insn"
    by (rule gatherI) (simp_all add: base_field_bits imm_bits)
  then show "imm_jal insn = sext (gather j_bits insn) 21" by (simp add: imm_jal_def sext_def)
qed

lemma sext_sext: "0 < k \<Longrightarrow> k \<le> l \<Longrightarrow> l \<le> 32 \<Longrightarrow> sext (sext v k) l = sext v k"
  by (rule bit_word_eqI, cases "k = l") (auto simp: bit_sext)

lemma sext_gather: "length ps < l \<Longrightarrow> l \<le> 32 \<Longrightarrow> sext (gather ps insn) l = gather ps insn"
  by (rule bit_word_eqI) (auto simp: bit_sext bit_gather)

text \<open>Every immediate of a compressed instruction fits the format of its expansion.\<close>

lemma compressed_fits:
  "sext (gather ci_bits insn) 12 = gather ci_bits insn"
  "sext (gather cl_w_bits insn) 12 = gather cl_w_bits insn"
  "sext (gather cl_d_bits insn) 12 = gather cl_d_bits insn"
  "sext (gather addi4spn_bits insn) 12 = gather addi4spn_bits insn"
  "sext (gather lwsp_bits insn) 12 = gather lwsp_bits insn"
  "sext (gather ldsp_bits insn) 12 = gather ldsp_bits insn"
  "sext (gather swsp_bits insn) 12 = gather swsp_bits insn"
  "sext (gather sdsp_bits insn) 12 = gather sdsp_bits insn"
  "sext (sext (gather ci_bits insn) 6) 12 = sext (gather ci_bits insn) 6"
  "sext (sext (gather addi16sp_bits insn) 10) 12 = sext (gather addi16sp_bits insn) 10"
  by (simp_all add: sext_gather sext_sext imm_bits)

lemma compressed_offsets_fit:
  "sext (sext (gather cj_bits insn) 12 AND 0x1ffffe) 21 = sext (gather cj_bits insn) 12"
  "sext (sext (gather cb_bits insn) 9 AND 0x1ffe) 13 = sext (gather cb_bits insn) 9"
  "sext (gather clui_bits insn) 18 AND 0xfffff000 = sext (gather clui_bits insn) 18"
proof -
  have "\<not> bit (gather cj_bits insn) 0" "\<not> bit (gather cb_bits insn) 0"
    by (simp_all add: bit_gather imm_bits upt_conv_Cons)
  moreover have "12 \<le> n" if "bit (gather clui_bits insn) n" for n
    using that by (cases "n < 12") (simp_all add: bit_gather imm_bits nth_append)
  ultimately show "sext (sext (gather cj_bits insn) 12 AND 0x1ffffe) 21 = sext (gather cj_bits insn) 12"
    "sext (sext (gather cb_bits insn) 9 AND 0x1ffe) 13 = sext (gather cb_bits insn) 9"
    "sext (gather clui_bits insn) 18 AND 0xfffff000 = sext (gather clui_bits insn) 18"
    by (auto intro!: bit_word_eqI simp: bit_sext bit_and_iff bit_immediate_masks Suc_le_eq intro!: gr0I split: if_splits)
qed

lemma enc_immediates:
  "imm_i (enc_i imm rs1 f3 rd opcode) = sext imm 12"
  "imm_s (enc_s imm rs2 rs1 f3 opcode) = sext imm 12"
  "imm_b (enc_b imm rs2 rs1 f3 opcode) = sext (imm AND 0x1ffe) 13"
  "imm_jal (enc_j imm rd opcode) = sext (imm AND 0x1ffffe) 21"
  "enc_u imm rd opcode AND 0xfffff000 = imm AND 0xfffff000"
proof -
  note bits = bit_enc_fields bit_take_bit_iff bit_1_iff base_field_bits imm_bits
  show "imm_i (enc_i imm rs1 f3 rd opcode) = sext imm 12"
    by (rule imm_i_enc)
  have s: "gather s_bits (enc_s imm rs2 rs1 f3 opcode) = take_bit 12 imm"
    by (rule gatherI [symmetric]) (auto simp: enc_s_def bits)
  show "imm_s (enc_s imm rs2 rs1 f3 opcode) = sext imm 12"
    unfolding base_immediates s by (rule bit_word_eqI) (simp add: bit_sext bit_take_bit_iff)
  have "gather b_bits (enc_b imm rs2 rs1 f3 opcode) = imm AND 0x1ffe"
    by (rule gatherI [symmetric]) (auto simp: enc_b_def bits)
  then show "imm_b (enc_b imm rs2 rs1 f3 opcode) = sext (imm AND 0x1ffe) 13" by (simp only: base_immediates)
  have "gather j_bits (enc_j imm rd opcode) = imm AND 0x1ffffe"
    by (rule gatherI [symmetric]) (auto simp: enc_j_def bits)
  then show "imm_jal (enc_j imm rd opcode) = sext (imm AND 0x1ffffe) 21" by (simp only: base_immediates)
  show "enc_u imm rd opcode AND 0xfffff000 = imm AND 0xfffff000"
    by (rule bit_word_eqI) (auto simp: enc_u_def bits)
qed

lemma enc_simps:
  "insn_rd (enc_i imm rs1 f3 rd opcode) = unat (take_bit 5 rd)"
  "insn_rs1 (enc_i imm rs1 f3 rd opcode) = unat (take_bit 5 rs1)"
  "insn_funct3 (enc_i imm rs1 f3 rd opcode) = take_bit 3 f3"
  "enc_i imm rs1 f3 rd opcode AND 0x7f = take_bit 7 opcode"
  "insn_rs1 (enc_s imm rs2 rs1 f3 opcode) = unat (take_bit 5 rs1)"
  "insn_rs2 (enc_s imm rs2 rs1 f3 opcode) = unat (take_bit 5 rs2)"
  "insn_funct3 (enc_s imm rs2 rs1 f3 opcode) = take_bit 3 f3"
  "enc_s imm rs2 rs1 f3 opcode AND 0x7f = take_bit 7 opcode"
  "insn_rs1 (enc_b imm rs2 rs1 f3 opcode) = unat (take_bit 5 rs1)"
  "insn_rs2 (enc_b imm rs2 rs1 f3 opcode) = unat (take_bit 5 rs2)"
  "insn_funct3 (enc_b imm rs2 rs1 f3 opcode) = take_bit 3 f3"
  "enc_b imm rs2 rs1 f3 opcode AND 0x7f = take_bit 7 opcode"
  "insn_rd (enc_u imm rd opcode) = unat (take_bit 5 rd)"
  "enc_u imm rd opcode AND 0x7f = take_bit 7 opcode"
  "insn_rd (enc_j imm rd opcode) = unat (take_bit 5 rd)"
  "enc_j imm rd opcode AND 0x7f = take_bit 7 opcode"
  unfolding enc_formats enc_fields_fields by (rule refl)+

text \<open>
  C36. The immediates of all instruction formats, 32-bit and compressed, are assembled from the bits
  of the instruction as the tables of the instruction set manual say, with the sign extended from
  the right position; the compressed stack and register offsets are unsigned.
\<close>

theorem immediates_decoded:
  "imm_i insn = sext (gather (map Some [20..<32]) insn) 12
   \<and> imm_s insn = sext (gather (map Some ([7..<12] @ [25..<32])) insn) 12
   \<and> imm_b insn = sext (gather (None # map Some ([8..<12] @ [25..<31] @ [7, 31])) insn) 13
   \<and> imm_jal insn = sext (gather (None # map Some ([21..<31] @ [20] @ [12..<20] @ [31])) insn) 21
   \<and> imm_ci insn = sext (gather (map Some [2, 3, 4, 5, 6, 12]) insn) 6
   \<and> imm_addi16sp insn = sext (gather (zeros 4 @ map Some [6, 2, 5, 3, 4, 12]) insn) 10
   \<and> imm_clui insn = sext (gather (zeros 12 @ map Some [2, 3, 4, 5, 6, 12]) insn) 18
   \<and> imm_cj insn = sext (gather (zeros 1 @ map Some [3, 4, 5, 11, 2, 7, 6, 9, 10, 8, 12]) insn) 12
   \<and> imm_cb insn = sext (gather (zeros 1 @ map Some [3, 4, 10, 11, 2, 5, 6, 12]) insn) 9
   \<and> imm_addi4spn insn = gather (zeros 2 @ map Some [6, 5, 11, 12, 7, 8, 9, 10]) insn
   \<and> imm_cl_w insn = gather (zeros 2 @ map Some [6, 10, 11, 12, 5]) insn
   \<and> imm_cl_d insn = gather (zeros 3 @ map Some [10, 11, 12, 5, 6]) insn
   \<and> imm_lwsp insn = gather (zeros 2 @ map Some [4, 5, 6, 12, 2, 3]) insn
   \<and> imm_ldsp insn = gather (zeros 3 @ map Some [5, 6, 12, 2, 3, 4]) insn
   \<and> imm_swsp insn = gather (zeros 2 @ map Some [9, 10, 11, 12, 7, 8]) insn
   \<and> imm_sdsp insn = gather (zeros 3 @ map Some [10, 11, 12, 7, 8, 9]) insn"
  unfolding base_immediates compressed_immediates compressed_stack_immediates imm_bits
  by (intro conjI refl)

end
