(* ===== verification/Compressed_Laws.thy ===== *)
theory Compressed_Laws
  imports Insn_Formats
begin

text \<open>
  Compressed instructions: the expansion of every 16-bit instruction of RV64GC into a 32-bit
  instruction, and the proof that the separate bodies the interpreter has for them
  (\<open>Exec_C\<close>) behave as the bodies of their expansions.
\<close>

section \<open>Expansion of compressed instructions\<close>

text \<open>
  The expansion of each compressed instruction of RV64GC as the instruction set manual gives it;
  \<^const>\<open>None\<close> for the reserved encodings. The full register fields and the three-bit fields that
  name x8 to x15 are \<open>c_reg\<close> and \<open>c_reg3\<close>.
\<close>

definition c_reg :: "nat \<Rightarrow> u32 \<Rightarrow> u32" where "c_reg p insn = take_bit 5 (drop_bit p insn)"
definition c_reg3 :: "nat \<Rightarrow> u32 \<Rightarrow> u32" where "c_reg3 p insn = 8 OR take_bit 3 (drop_bit p insn)"
definition c_funct3 :: "u32 \<Rightarrow> u32" where "c_funct3 insn = take_bit 3 (drop_bit 13 insn)"

definition expand_c0 :: "u32 \<Rightarrow> u32 option" where
  "expand_c0 insn =
     (let f = c_funct3 insn; r = c_reg3 2 insn; b = c_reg3 7 insn;
          imm = gather addi4spn_bits insn; w = gather cl_w_bits insn; d = gather cl_d_bits insn
      in if f = 0 then (if imm = 0 then None else Some (enc_i imm 2 0 r 0x13))
         else if f = 1 then Some (enc_i d b 3 r 0x07)
         else if f = 2 then Some (enc_i w b 2 r 0x03)
         else if f = 3 then Some (enc_i d b 3 r 0x03)
         else if f = 5 then Some (enc_s d r b 3 0x27)
         else if f = 6 then Some (enc_s w r b 2 0x23)
         else if f = 7 then Some (enc_s d r b 3 0x23)
         else None)"

definition expand_c1_alu :: "u32 \<Rightarrow> u32 option" where
  "expand_c1_alu insn =
     (let f = take_bit 2 (drop_bit 10 insn); r = c_reg3 7 insn; r2 = c_reg3 2 insn;
          shamt = gather ci_bits insn; imm = sext shamt 6;
          w = bit insn 12; op = take_bit 2 (drop_bit 5 insn)
      in if f = 0 then Some (enc_i shamt r 5 r 0x13)
         else if f = 1 then Some (enc_i (0x400 OR shamt) r 5 r 0x13)
         else if f = 2 then Some (enc_i imm r 7 r 0x13)
         else if \<not> w then
           Some (if op = 0 then enc_fields 0x20 r2 r 0 r 0x33
                 else if op = 1 then enc_fields 0 r2 r 4 r 0x33
                 else if op = 2 then enc_fields 0 r2 r 6 r 0x33
                 else enc_fields 0 r2 r 7 r 0x33)
         else if op = 0 then Some (enc_fields 0x20 r2 r 0 r 0x3b)
         else if op = 1 then Some (enc_fields 0 r2 r 0 r 0x3b)
         else None)"

definition expand_c1 :: "u32 \<Rightarrow> u32 option" where
  "expand_c1 insn =
     (let f = c_funct3 insn; r = c_reg 7 insn; r' = c_reg3 7 insn;
          imm = sext (gather ci_bits insn) 6;
          sp = sext (gather addi16sp_bits insn) 10;
          up = sext (gather clui_bits insn) 18;
          jump = sext (gather cj_bits insn) 12;
          branch = sext (gather cb_bits insn) 9
      in if f = 0 then Some (enc_i imm r 0 r 0x13)
         else if f = 1 then (if r = 0 then None else Some (enc_i imm r 0 r 0x1b))
         else if f = 2 then Some (enc_i imm 0 0 r 0x13)
         else if f = 3 then
           (if r = 2 then if sp = 0 then None else Some (enc_i sp 2 0 2 0x13)
            else if up = 0 \<and> r \<noteq> 0 then None else Some (enc_u up r 0x37))
         else if f = 4 then expand_c1_alu insn
         else if f = 5 then Some (enc_j jump 0 0x6f)
         else if f = 6 then Some (enc_b branch 0 r' 0 0x63)
         else Some (enc_b branch 0 r' 1 0x63))"

definition expand_c2 :: "u32 \<Rightarrow> u32 option" where
  "expand_c2 insn =
     (let f = c_funct3 insn; r = c_reg 7 insn; r2 = c_reg 2 insn;
          shamt = gather ci_bits insn;
          lw = gather lwsp_bits insn; ld = gather ldsp_bits insn;
          sw = gather swsp_bits insn; sd = gather sdsp_bits insn
      in if f = 0 then Some (enc_i shamt r 1 r 0x13)
         else if f = 1 then Some (enc_i ld 2 3 r 0x07)
         else if f = 2 then (if r = 0 then None else Some (enc_i lw 2 2 r 0x03))
         else if f = 3 then (if r = 0 then None else Some (enc_i ld 2 3 r 0x03))
         else if f = 4 then
           (if \<not> bit insn 12
            then if r2 \<noteq> 0 then Some (enc_fields 0 r2 0 0 r 0x33)
                 else if r = 0 then None else Some (enc_i 0 r 0 0 0x67)
            else if r2 \<noteq> 0 then Some (enc_fields 0 r2 r 0 r 0x33)
            else if r = 0 then Some 0x00100073 else Some (enc_i 0 r 0 1 0x67))
         else if f = 5 then Some (enc_s sd r2 2 3 0x27)
         else if f = 6 then Some (enc_s sw r2 2 2 0x23)
         else Some (enc_s sd r2 2 3 0x23))"

definition expand :: "u32 \<Rightarrow> u32 option" where
  "expand insn =
     (if take_bit 2 insn = 0 then expand_c0 insn
      else if take_bit 2 insn = 1 then expand_c1 insn
      else expand_c2 insn)"

text \<open>
  A compressed instruction differs from its expansion \<open>e\<close> in its length: it advances by two
  bytes, and \<open>c.jalr\<close>, the only one that writes a link register, links to \<open>pc + 2\<close>.
\<close>

definition half_length :: "u32 \<Rightarrow> u64 \<Rightarrow> flow \<Rightarrow> flow" where
  "half_length e p f =
     (case f of
        F_NEXT n t \<Rightarrow> F_NEXT (n - 2) t
      | F_JUMP i t \<Rightarrow> F_JUMP i (if take_bit 12 e = 0x0e7 then t\<lparr>reg := (reg t)(1 := p + 2)\<rparr> else t)
      | _ \<Rightarrow> f)"

definition expanded :: "counters \<Rightarrow> hart \<Rightarrow> u32 \<Rightarrow> flow" where
  "expanded k s e = half_length e (pc s) (fst (exec_insn k s e))"

lemma take_bit_eqI: "map (bit a) [0..<k] = map (bit b) [0..<k] \<Longrightarrow> take_bit k a = take_bit k b" for a b :: u32
  by (rule bit_word_eqI) (auto simp: bit_take_bit_iff map_eq_conv)

lemma half_length_simps [simp]:
  "half_length e p (F_NEXT n t) = F_NEXT (n - 2) t"
  "half_length e p (F_ILLEGAL t) = F_ILLEGAL t"
  "half_length e p (F_EXCEPTION t) = F_EXCEPTION t"
  "half_length e p (raise_pending c t) = raise_pending c t"
  "half_length e p (load_then sz t a f) = load_then sz t a (\<lambda>v t. half_length e p (f v t))"
  "half_length e p (store_then sz t a v g) = store_then sz t a v (\<lambda>t. half_length e p (g t))"
  "half_length e p (if b then x else y) = (if b then half_length e p x else half_length e p y)"
  by (auto simp: half_length_def raise_pending_def load_then_def store_then_def split: mres.splits)

lemma half_length_op [simp]:
  "half_length e p (finish_op s e r) =
     (case r of None \<Rightarrow> F_ILLEGAL s | Some v \<Rightarrow> F_NEXT 2 (write_rd (insn_rd e) v s))"
  by (auto simp: finish_op_def half_length_def split: option.splits)

abbreviation r5 :: "u32 \<Rightarrow> nat" where "r5 r \<equiv> unat (take_bit 5 r)"

lemma expanded_op_imm:
  "expanded k s (enc_i imm b f r 0x13) =
     (case op_imm (take_bit 3 f) (sext imm 12) (reg s (r5 b)) of
        None \<Rightarrow> F_ILLEGAL s | Some v \<Rightarrow> F_NEXT 2 (write_rd (r5 r) v s))"
  "expanded k s (enc_i imm b f r 0x1b) =
     (case op_imm_32 (take_bit 3 f) (sext imm 12) (reg s (r5 b)) of
        None \<Rightarrow> F_ILLEGAL s | Some v \<Rightarrow> F_NEXT 2 (write_rd (r5 r) v s))"
  by (simp_all add: expanded_def exec_insn_def enc_simps enc_immediates exec_op_imm_def exec_op_imm_32_def
      cong: option.case_cong)

lemma expanded_load:
  "expanded k s (enc_i imm b 3 r 0x03) =
     load_then 3 s (reg s (r5 b) + sx (sext imm 12)) (\<lambda>v s. F_NEXT 2 (write_rd (r5 r) v s))"
  "expanded k s (enc_i imm b 2 r 0x03) =
     load_then 2 s (reg s (r5 b) + sx (sext imm 12)) (\<lambda>v s. F_NEXT 2 (write_rd (r5 r) (sext32 v) s))"
  "expanded k s (enc_i imm b 3 r 0x07) =
     (if fs s = 0 then F_ILLEGAL s
      else load_then 3 s (reg s (r5 b) + sx (sext imm 12))
        (\<lambda>v s. F_NEXT 2 (write_fp_reg (r5 r) (v OR F64_HIGH) s)))"
  by (simp_all add: expanded_def exec_insn_def enc_simps enc_immediates exec_load_def exec_fp_load_def
      sext_load_def sext32_def)

lemma expanded_store:
  "expanded k s (enc_s imm r b 3 0x23) = store_then 3 s (reg s (r5 b) + sx (sext imm 12)) (reg s (r5 r)) (F_NEXT 2)"
  "expanded k s (enc_s imm r b 2 0x23) = store_then 2 s (reg s (r5 b) + sx (sext imm 12)) (reg s (r5 r)) (F_NEXT 2)"
  "expanded k s (enc_s imm r b 3 0x27) =
     (if fs s = 0 then F_ILLEGAL s
      else store_then 3 s (reg s (r5 b) + sx (sext imm 12)) (fp_reg s (r5 r)) (F_NEXT 2))"
  by (simp_all add: expanded_def exec_insn_def enc_simps enc_immediates exec_store_def exec_fp_store_def)

lemma expanded_lui:
  "expanded k s (enc_u imm r 0x37) = F_NEXT 2 (write_rd (r5 r) (sx (imm AND 0xfffff000)) s)"
  by (simp add: expanded_def exec_insn_def enc_simps enc_immediates exec_lui_def)

lemma expanded_op:
  "expanded k s (enc_fields f7 r2 b f r 0x33) =
     (case op_value (enc_fields f7 r2 b f r 0x33) (reg s (r5 b)) (reg s (r5 r2)) of
        None \<Rightarrow> F_ILLEGAL s | Some v \<Rightarrow> F_NEXT 2 (write_rd (r5 r) v s))"
  "expanded k s (enc_fields f7 r2 b f r 0x3b) =
     (case op_value_32 (enc_fields f7 r2 b f r 0x3b) (reg s (r5 b)) (reg s (r5 r2)) of
        None \<Rightarrow> F_ILLEGAL s | Some v \<Rightarrow> F_NEXT 2 (write_rd (r5 r) v s))"
  by (simp_all add: expanded_def exec_insn_def enc_fields_fields exec_op_def exec_op_32_def
      cong: option.case_cong)

lemma expanded_jump:
  assumes c: "misa s AND MCPUID_C \<noteq> 0"
  shows "expanded k s (enc_j imm 0 0x6f) = F_JUMP ctf_taken_jump (s\<lparr>pc := pc s + sx (sext (imm AND 0x1ffffe) 21)\<rparr>)"
    and "expanded k s (enc_b imm 0 b 0 0x63) =
      (if reg s (r5 b) = reg s 0 then F_JUMP ctf_taken_branch (s\<lparr>pc := pc s + sx (sext (imm AND 0x1ffe) 13)\<rparr>)
       else F_NEXT 2 s)"
    and "expanded k s (enc_b imm 0 b 1 0x63) =
      (if reg s (r5 b) \<noteq> reg s 0 then F_JUMP ctf_taken_branch (s\<lparr>pc := pc s + sx (sext (imm AND 0x1ffe) 13)\<rparr>)
       else F_NEXT 2 s)"
proof -
  have j: "take_bit 12 (enc_j imm 0 0x6f) \<noteq> 0x0e7"
  proof
    assume "take_bit 12 (enc_j imm 0 0x6f) = 0x0e7"
    from arg_cong [OF this, of "\<lambda>w. bit w 3"] show False
      by (simp add: bit_take_bit_iff enc_j_def bit_enc_fields)
  qed
  have b: "take_bit 12 (enc_b imm 0 b f 0x63) \<noteq> 0x0e7" for f
  proof
    assume "take_bit 12 (enc_b imm 0 b f 0x63) = 0x0e7"
    from arg_cong [OF this, of "\<lambda>w. bit w 2"] show False
      by (simp add: bit_take_bit_iff enc_b_def bit_enc_fields)
  qed
  show "expanded k s (enc_j imm 0 0x6f) = F_JUMP ctf_taken_jump (s\<lparr>pc := pc s + sx (sext (imm AND 0x1ffffe) 21)\<rparr>)"
    using c j by (simp add: expanded_def exec_insn_def enc_simps enc_immediates exec_jal_def Let_def
        misaligned_target_def half_length_def write_rd_def)
  show "expanded k s (enc_b imm 0 b 0 0x63) =
      (if reg s (r5 b) = reg s 0 then F_JUMP ctf_taken_branch (s\<lparr>pc := pc s + sx (sext (imm AND 0x1ffe) 13)\<rparr>)
       else F_NEXT 2 s)"
    and "expanded k s (enc_b imm 0 b 1 0x63) =
      (if reg s (r5 b) \<noteq> reg s 0 then F_JUMP ctf_taken_branch (s\<lparr>pc := pc s + sx (sext (imm AND 0x1ffe) 13)\<rparr>)
       else F_NEXT 2 s)"
    using c b by (simp_all add: expanded_def exec_insn_def enc_simps enc_immediates exec_branch_def Let_def
        misaligned_target_def half_length_def branch_cond_def)
qed

lemma expanded_jalr:
  assumes c: "misa s AND MCPUID_C \<noteq> 0"
  shows "expanded k s (enc_i 0 b 0 0 0x67) = F_JUMP (ctf_compute_hint 0 (r5 b)) (s\<lparr>pc := reg s (r5 b) AND NOT 1\<rparr>)"
    and "expanded k s (enc_i 0 b 0 1 0x67) =
      F_JUMP (ctf_compute_hint 1 (r5 b)) (write_reg 1 (pc s + 2) (s\<lparr>pc := reg s (r5 b) AND NOT 1\<rparr>))"
proof -
  have z: "sext 0 12 = 0" "sx 0 = 0" by (simp_all add: sext_def sx_def)
  have n: "take_bit 12 (enc_i 0 b 0 0 0x67) \<noteq> 0x0e7"
  proof
    assume "take_bit 12 (enc_i 0 b 0 0 0x67) = 0x0e7"
    from arg_cong [OF this, of "\<lambda>w. bit w 7"] show False
      by (simp add: bit_take_bit_iff enc_i_def bit_enc_fields)
  qed
  have l: "take_bit 12 (enc_i 0 b 0 1 0x67) = 0x0e7"
    using take_bit_eqI [of "enc_i 0 b 0 1 0x67" 12 "0xe7"]
    by (simp add: enc_i_def bit_enc_fields upt_conv_Cons)
  show "expanded k s (enc_i 0 b 0 0 0x67) = F_JUMP (ctf_compute_hint 0 (r5 b)) (s\<lparr>pc := reg s (r5 b) AND NOT 1\<rparr>)"
    using c n by (simp add: expanded_def exec_insn_def enc_simps enc_immediates exec_jalr_def Let_def
        misaligned_target_def half_length_def write_rd_def z)
  show "expanded k s (enc_i 0 b 0 1 0x67) =
      F_JUMP (ctf_compute_hint 1 (r5 b)) (write_reg 1 (pc s + 2) (s\<lparr>pc := reg s (r5 b) AND NOT 1\<rparr>))"
    using c l by (simp add: expanded_def exec_insn_def enc_simps enc_immediates exec_jalr_def Let_def
        misaligned_target_def half_length_def write_rd_def write_reg_def z)
qed

lemma expanded_ebreak: "expanded k s 0x00100073 = raise_pending CAUSE_BREAKPOINT s"
  by (simp add: expanded_def exec_insn_def exec_system_def exec_ebreak_def insn_funct3_def Let_def)

lemma creg_fields:
  "r5 (c_reg p insn) = unat (c_reg p insn)" "(unat (c_reg p insn) = 2) = (c_reg p insn = 2)"
  "r5 (c_reg3 2 insn) = creg_lo insn" "r5 (c_reg3 7 insn) = creg_hi insn"
  "drop_bit 13 insn AND 7 = c_funct3 insn" "drop_bit 10 insn AND 3 = take_bit 2 (drop_bit 10 insn)"
  "insn_rd insn = unat (c_reg 7 insn)" "unat (drop_bit 2 insn AND 0x1f) = unat (c_reg 2 insn)"
proof -
  have m: "(0x1f :: u32) = mask 5" "(7 :: u32) = mask 3" "(3 :: u32) = mask 2"
    by (simp_all add: mask_eq_exp_minus_1)
  have o: "take_bit 5 (8 OR take_bit 3 x) = take_bit 3 x OR 8" for x :: u32
    by (simp add: take_bit_or or.commute)
  show "r5 (c_reg p insn) = unat (c_reg p insn)" "(unat (c_reg p insn) = 2) = (c_reg p insn = 2)"
    "r5 (c_reg3 2 insn) = creg_lo insn" "r5 (c_reg3 7 insn) = creg_hi insn"
    "drop_bit 13 insn AND 7 = c_funct3 insn" "drop_bit 10 insn AND 3 = take_bit 2 (drop_bit 10 insn)"
    "insn_rd insn = unat (c_reg 7 insn)" "unat (drop_bit 2 insn AND 0x1f) = unat (c_reg 2 insn)"
    unfolding c_reg_def c_reg3_def c_funct3_def creg_lo_def creg_hi_def insn_rd_def o m take_bit_eq_mask [symmetric]
    by (simp_all add: word_unat_eq_iff)
qed

lemma expand_c0_correct:
  "exec_c0 s insn = (case expand_c0 insn of None \<Rightarrow> F_ILLEGAL s | Some e \<Rightarrow> expanded k s e)"
  unfolding exec_c0_def expand_c0_def Let_def creg_fields
  by (auto simp: expanded_op_imm expanded_load expanded_store creg_fields compressed_immediates
      compressed_fits op_imm_def write_rd_def)

lemma c1_alu_op:
  "(drop_bit 5 insn AND 3) OR (drop_bit 10 insn AND 4) =
     take_bit 2 (drop_bit 5 insn) OR (if bit insn 12 then 4 else 0)" for insn :: u32
proof -
  have b: "bit (3 :: int) n \<longleftrightarrow> n < 2" "bit (4 :: int) n \<longleftrightarrow> n = 2" for n
    using bit_mask_iff [of 2 n, where 'a = int] bit_push_bit_iff [of 2 "1 :: int" n]
    by (auto simp: mask_eq_exp_minus_1 bit_1_iff)
  show ?thesis by (rule bit_word_eqI) (auto simp: bit_and_iff bit_or_iff bit_drop_bit_eq bit_take_bit_iff b)
qed

lemma two_bits: "take_bit 2 w \<in> {0, 1, 2, 3}" for w :: u32
proof -
  have "unat (take_bit 2 w) < 4" using take_bit_nat_less_exp [of 2 "unat w"] by (simp only: unsigned_take_bit_eq) simp
  then have "unat (take_bit 2 w) \<in> {0, 1, 2, 3}" by auto
  then show ?thesis by (auto simp: word_unat_eq_iff)
qed

lemma shift_immediate:
  "sext (0x400 OR gather ci_bits insn) 12 = 0x400 OR gather ci_bits insn"
  "gather ci_bits insn AND 63 = gather ci_bits insn"
  "(0x400 OR gather ci_bits insn) AND 63 = gather ci_bits insn"
  "gather ci_bits insn AND 0x400 = 0"
  "(0x400 OR gather ci_bits insn) AND 0x400 = 0x400"
  "gather ci_bits insn AND - 64 = 0"
  "gather ci_bits insn AND - 0x440 = 0"
  "(0x400 OR gather ci_bits insn) AND - 0x440 = 0"
proof -
  have b: "bit (63 :: int) n \<longleftrightarrow> n < 6" "bit (0x400 :: int) n \<longleftrightarrow> n = 10" for n
    using bit_mask_iff [of 6 n, where 'a = int] bit_push_bit_iff [of 10 "1 :: int" n]
    by (auto simp: mask_eq_exp_minus_1 bit_1_iff)
  have c: "bit (- 64 :: int) n \<longleftrightarrow> 6 \<le> n" "bit (- 1088 :: int) n \<longleftrightarrow> 6 \<le> n \<and> n \<noteq> 10" for n
    using bit_not_iff [of "63 :: int" n] bit_not_iff [of "1087 :: int" n] bit_or_iff [of 63 "0x400 :: int" n]
    by (auto simp: b)
  show "sext (0x400 OR gather ci_bits insn) 12 = 0x400 OR gather ci_bits insn"
    "gather ci_bits insn AND 63 = gather ci_bits insn"
    "(0x400 OR gather ci_bits insn) AND 63 = gather ci_bits insn"
    "gather ci_bits insn AND 0x400 = 0"
    "(0x400 OR gather ci_bits insn) AND 0x400 = 0x400"
    "gather ci_bits insn AND - 64 = 0"
    "gather ci_bits insn AND - 0x440 = 0"
    "(0x400 OR gather ci_bits insn) AND - 0x440 = 0"
    by (rule bit_word_eqI, (auto simp: bit_sext bit_gather bit_and_iff bit_or_iff b c imm_bits)[1])+
qed

lemma op_funct_enc: "op_funct (enc_fields f7 r2 b f r opcode) = take_bit 3 f OR (if bit f7 5 then 8 else 0)"
proof -
  have b: "bit (7 :: int) n \<longleftrightarrow> n < 3" "bit (8 :: int) n \<longleftrightarrow> n = 3" for n
    using bit_mask_iff [of 3 n, where 'a = int] bit_push_bit_iff [of 3 "1 :: int" n]
    by (auto simp: mask_eq_exp_minus_1 bit_1_iff)
  show ?thesis unfolding op_funct_def
    by (rule bit_word_eqI) (auto simp: bit_and_iff bit_or_iff bit_drop_bit_eq bit_take_bit_iff bit_enc_fields b)
qed

lemma expand_c1_alu_correct:
  "exec_c1_alu s insn = (case expand_c1_alu insn of None \<Rightarrow> F_ILLEGAL s | Some e \<Rightarrow> expanded k s e)"
proof -
  note defs = exec_c1_alu_def expand_c1_alu_def Let_def creg_fields compressed_shamt c1_alu_op
  note imms = expanded_op_imm op_imm_def write_rd_def creg_fields compressed_immediates compressed_fits shift_immediate
  note ops = expanded_op op_value_def op_value_32_def op_alu_def op_alu_32_def op_funct_enc
    enc_fields_fields write_rd_def creg_fields
  consider "take_bit 2 (drop_bit 10 insn) \<in> {0, 1, 2}" | "take_bit 2 (drop_bit 10 insn) = 3"
    using two_bits [of "drop_bit 10 insn"] by auto
  then show ?thesis
  proof cases
    case 1
    then show ?thesis unfolding defs by (elim insertE emptyE) (simp_all add: imms)
  next
    case 2
    with two_bits [of "drop_bit 5 insn"] show ?thesis
      unfolding defs by (cases "bit insn 12"; elim insertE emptyE) (simp_all add: ops)
  qed
qed

lemma expand_c1_correct:
  assumes "reg s 0 = 0" and "misa s AND MCPUID_C \<noteq> 0"
  shows "exec_c1 s insn = (case expand_c1 insn of None \<Rightarrow> F_ILLEGAL s | Some e \<Rightarrow> expanded k s e)"
  unfolding exec_c1_def expand_c1_def Let_def creg_fields expand_c1_alu_correct [of s insn k]
  using assms(1)
  by (auto simp: expanded_op_imm expanded_jump [OF assms(2)] expanded_lui compressed_immediates creg_fields
      compressed_fits compressed_offsets_fit op_imm_def op_imm_32_def write_rd_def unat_eq_0)

lemma bit_12_test: "drop_bit 12 insn AND 1 = 0 \<longleftrightarrow> \<not> bit insn 12" for insn :: u32
  by (simp add: and_one_eq bit_iff_odd_drop_bit even_iff_mod_2_eq_zero)

lemma expand_c2_correct:
  assumes "reg s 0 = 0" and "misa s AND MCPUID_C \<noteq> 0"
  shows "exec_c2 s insn = (case expand_c2 insn of None \<Rightarrow> F_ILLEGAL s | Some e \<Rightarrow> expanded k s e)"
  unfolding exec_c2_def expand_c2_def exec_c2_cr_def Let_def creg_fields compressed_shamt_sp bit_12_test
  using assms(1)
  by (auto simp: expanded_op_imm expanded_load expanded_store expanded_op expanded_jalr [OF assms(2)] expanded_ebreak 
      compressed_immediates compressed_stack_immediates creg_fields compressed_fits shift_immediate
      op_imm_def op_value_def op_alu_def op_funct_enc enc_fields_fields write_rd_def unat_eq_0)



end
