(* ===== verification/Fault_Laws.thy ===== *)
theory Fault_Laws
  imports Interp_Laws
begin

text \<open>
  Exceptions of instructions: which state an instruction body leaves when it raises an exception,
  and the trap entry of the interpreter that follows it.
\<close>

section \<open>Faulting instructions\<close>

text \<open>The states in which an instruction body raises an exception; other than for an illegal instruction, its cause is set.\<close>

fun fault_all :: "(hart \<Rightarrow> bool) \<Rightarrow> flow \<Rightarrow> bool" where
  "fault_all P (F_ILLEGAL s) = P s"
| "fault_all P (F_MMU_EXCEPTION s) = (P s \<and> 0 \<le> pending_exception s)"
| "fault_all P (F_EXCEPTION s) = (P s \<and> 0 \<le> pending_exception s)"
| "fault_all P _ = True"

text \<open>What a program can observe of its own execution: registers, pc, privileged state, memory.\<close>

definition arch_state where
  "arch_state s = (reg s, fp_reg s, pc s, privileged_state s, host_mem (machine s))"

definition same_arch :: "hart \<Rightarrow> hart \<Rightarrow> bool" where
  "same_arch s t \<longleftrightarrow> arch_state t = arch_state s"

lemma same_arch_simps [simp]:
  "same_arch s s" "same_arch s (s\<lparr>pending_exception := c, pending_tval := v\<rparr>)"
  "same_arch s (t\<lparr>pending_exception := c\<rparr>) = same_arch s t" "same_arch s (pend t c v) = same_arch s t"
  "same_arch s (s\<lparr>pending_exception := c, pending_tval := v, terminate_simulation := b\<rparr>)"
  by (simp_all add: same_arch_def arch_state_def privileged_state_def pend_def)

lemma same_arch_dev: "dev_hart s t \<Longrightarrow> same_arch s t"
proof -
  assume d: "dev_hart s t"
  have "(reg c', fp_reg c', pc c') = (reg c, fp_reg c, pc c)" if "same_core c c'" for c c'
  proof -
    let ?c = "c'\<lparr>mip := mip c, power_down_flag := power_down_flag c, mcycle := mcycle c,
        timecmp := timecmp c, plic_enable_irq := plic_enable_irq c\<rparr>"
    have "?c = c" using that by (simp add: same_core_def)
    then have "(reg c, fp_reg c, pc c) = (reg ?c, fp_reg ?c, pc ?c)" by simp
    then show ?thesis by simp
  qed
  from this [OF dev_hart_core [OF d]] have "reg t = reg s" "fp_reg t = fp_reg s" "pc t = pc s"
    by (simp_all add: cpu_of_def RISCVCPUState.defs)
  moreover have "host_mem (machine t) = host_mem (machine s)"
    using d dev_step_fields_eq(2) [of "machine_of s" "machine t"] by (simp add: dev_hart_def)
  ultimately show ?thesis using privileged_dev [OF d] by (simp add: same_arch_def arch_state_def)
qed

lemma pend_cause: "pending_exception (pend t c v) = c"
  by (simp add: pend_def)

lemma target_read_faults:
  "case target_read k s a of
     Exc t \<Rightarrow> same_arch s t \<and> 0 \<le> pending_exception t | Val v t \<Rightarrow> same_arch s t | Abort \<Rightarrow> True"
proof -
  have c: "riscv_cpu_read_memory s a k = Exc t \<Longrightarrow> 0 \<le> pending_exception t" for t
    by (auto simp: riscv_cpu_read_memory_def pend_def Let_def split: if_splits xlate.splits option.splits prod.splits)
  have "case riscv_cpu_read_memory s a k of Exc t \<Rightarrow> same_arch s t | Val v t \<Rightarrow> same_arch s t | Abort \<Rightarrow> True"
  proof (cases rule: read_memory_cases [of s a k])
    case (ram pa pr)
    then show ?thesis
      by (simp add: read_memory_ram same_arch_def arch_state_def privileged_state_def fill_tlb_read_def)
  next
    case (dev pr off v t)
    then show ?thesis using with_machine_dev device_load_frame same_arch_dev by fastforce
  qed simp_all
  then show ?thesis by (auto simp: target_read_def Let_def mbind_def pend_cause c split: mres.splits)
qed

lemma target_write_faults:
  "case target_write k s a v of Exc t \<Rightarrow> same_arch s t \<and> 0 \<le> pending_exception t | _ \<Rightarrow> True"
proof -
  have c: "riscv_cpu_write_memory s a w k = Exc t \<Longrightarrow> 0 \<le> pending_exception t" for t w
    by (auto simp: riscv_cpu_write_memory_def pend_def Let_def split: if_splits xlate.splits option.splits prod.splits)
  have "same_arch s t" if "riscv_cpu_write_memory s a w k = Exc t" for w t
    using that by (cases rule: write_memory_cases [of s a w k]) (auto simp: write_memory_ram)
  then show ?thesis by (auto simp: target_write_def Let_def pend_cause c split: mres.splits)
qed

lemma fault_load [simp]:
  assumes "\<And>v t. fault_all (same_arch s) (f v t)"
  shows "fault_all (same_arch s) (load_then k s a f)"
  using assms target_read_faults [where k = k and s = s and a = a] by (simp add: load_then_def split: mres.splits)

lemma fault_store:
  assumes "same_arch s s'" and "\<And>t. fault_all (same_arch s) (f t)"
  shows "fault_all (same_arch s) (store_then k s' a v f)"
  using assms target_write_faults [where k = k and s = s' and a = a and v = v] by (simp add: store_then_def same_arch_def split: mres.splits)

lemma fault_store_next [simp]: "fault_all (same_arch s) (store_then k s a v (F_NEXT n))"
  by (rule fault_store) simp_all

lemma fault_raise [simp]: "0 \<le> c \<Longrightarrow> fault_all (same_arch s) (raise_pending c s)"
  by (simp add: raise_pending_def)

lemma fault_finish [simp]: "fault_all (same_arch s) (finish_op s insn r)"
  by (simp add: finish_op_def split: option.splits)

lemma fault_fp_finish [simp]: "fault_all P (fp_done s i r)" "fault_all P (fp_finish s i q)" "fault_all P (int_finish s i v fl)"
  by (simp_all add: fp_done_def fp_finish_def int_finish_def split: option.splits)

lemma fault_c:
  "fault_all (same_arch s) (exec_c0 s i)" "fault_all (same_arch s) (exec_c1 s i)" "fault_all (same_arch s) (exec_c2 s i)"
  by (simp_all add: exec_c0_def exec_c1_def exec_c1_alu_def exec_c2_def exec_c2_cr_def Let_def)

lemma fault_int:
  "fault_all (same_arch s) (exec_lui s i)" "fault_all (same_arch s) (exec_auipc s i)"
  "fault_all (same_arch s) (exec_jal s i)" "fault_all (same_arch s) (exec_jalr s i)"
  "fault_all (same_arch s) (exec_branch s i)" "fault_all (same_arch s) (exec_load s i)"
  "fault_all (same_arch s) (exec_store s i)" "fault_all (same_arch s) (exec_op_imm s i)"
  "fault_all (same_arch s) (exec_op_imm_32 s i)" "fault_all (same_arch s) (exec_op s i)"
  "fault_all (same_arch s) (exec_op_32 s i)"
  by (simp_all add: exec_lui_def exec_auipc_def exec_jal_def exec_jalr_def exec_branch_def exec_load_def
      exec_store_def exec_op_imm_def exec_op_imm_32_def exec_op_def exec_op_32_def Let_def split: option.splits)

lemma fault_amo: "fault_all (same_arch s) (exec_amo s i)"
proof -
  have "fault_all (same_arch s) (exec_amo_rmw n s i)" for n
    unfolding exec_amo_rmw_def Let_def using target_read_faults [where k = n and s = s and a = "reg s (insn_rs1 i)"]
    by (auto split: mres.splits option.splits intro: fault_store)
  then have "fault_all (same_arch s) (exec_op_a n s i)" for n
    by (auto simp: exec_op_a_def exec_lr_def exec_sc_def Let_def pend_cause intro: fault_store)
  then show ?thesis by (simp add: exec_amo_def Let_def)
qed

lemma fault_misc:
  "fault_all (same_arch s) (exec_misc_mem s i)" "fault_all (same_arch s) (exec_fp_load s i)"
  "fault_all (same_arch s) (exec_fp_store s i)"
  by (simp_all add: exec_misc_mem_def exec_fp_load_def exec_fp_store_def Let_def)

lemma fault_fma:
  "fault_all (same_arch s) (exec_fmadd s i)" "fault_all (same_arch s) (exec_fmsub s i)"
  "fault_all (same_arch s) (exec_fnmsub s i)" "fault_all (same_arch s) (exec_fnmadd s i)"
proof -
  have "fault_all (same_arch s) (exec_fma a b s i)" for a b
    unfolding exec_fma_def Let_def by (auto split: option.splits)
  then show "fault_all (same_arch s) (exec_fmadd s i)" "fault_all (same_arch s) (exec_fmsub s i)"
    "fault_all (same_arch s) (exec_fnmsub s i)" "fault_all (same_arch s) (exec_fnmadd s i)"
    by (simp_all add: exec_fmadd_def exec_fmsub_def exec_fnmsub_def exec_fnmadd_def)
qed

lemma fault_fp_parts:
  "fault_all (same_arch s) (exec_fp_arith t s i op)" "fault_all (same_arch s) (exec_fp_sgnj t s i)"
  "fault_all (same_arch s) (exec_fp_minmax t s i)" "fault_all (same_arch s) (exec_fp_cmp t s i)"
  "fault_all (same_arch s) (exec_fp_of_int t s i)" "fault_all (same_arch s) (exec_fp_cvt t s i)"
  "fault_all (same_arch s) (exec_fp_mv_x t s i)" "fault_all (same_arch s) (exec_fp_mv_w t s i)"
  by (simp_all add: exec_fp_arith_def exec_fp_sgnj_def exec_fp_minmax_def exec_fp_cmp_def exec_fp_of_int_def
      exec_fp_cvt_def exec_fp_mv_x_def exec_fp_mv_w_def Let_def split: option.split)

lemma fault_fp_to_int: "fault_all (same_arch s) (exec_fp_to_int t s i)"
  by (simp add: exec_fp_to_int_def Let_def case_prod_unfold split: option.split)

lemma fault_fp_template [simp]: "fault_all (same_arch s) (exec_fp_template t s i op)"
  by (simp add: exec_fp_template_def fault_fp_parts fault_fp_to_int)

lemma fault_op_fp: "fault_all (same_arch s) (exec_op_fp s i)"
  by (simp add: exec_op_fp_def Let_def)

lemma refused_if:
  "(fst a < (0 :: int) \<Longrightarrow> a = r) \<Longrightarrow> (fst b < 0 \<Longrightarrow> b = r) \<Longrightarrow> fst (if c then a else b) < 0 \<Longrightarrow> (if c then a else b) = r"
  by (cases c) simp_all

lemma csr_write_refused:
  assumes "hooks_csr_write (machine s) = None" and "fst (csr_write s csr v) < 0"
  shows "csr_write s csr v = (- 1, s)"
proof -
  have "csr_write_hook s csr v = (- 1, s)" using assms(1) by (simp add: csr_write_hook_def)
  then show ?thesis
    using assms(2) unfolding csr_write_def Let_def by (elim refused_if [rotated 2]) simp_all
qed


lemma same_arch_sync: "sync_counters k s = Some t \<Longrightarrow> same_arch s t"
  by (auto simp: sync_counters_def Let_def same_arch_def arch_state_def privileged_state_def split: if_splits)

lemma fault_csr:
  assumes "hooks_csr_write (machine t) = None" and "same_arch s t"
  shows "fault_all (same_arch s) (csr_finish (snd (csr_write t csr x)) i y (fst (csr_write t csr x)))"
    and "fault_all (same_arch s) (csr_finish t i y 0)"
proof -
  show "fault_all (same_arch s) (csr_finish (snd (csr_write t csr x)) i y (fst (csr_write t csr x)))"
  proof (cases "fst (csr_write t csr x) < 0")
    case True
    from csr_write_refused [OF assms(1) this] assms(2) show ?thesis by (simp add: csr_finish_def)
  qed (auto simp: csr_finish_def Let_def)
  show "fault_all (same_arch s) (csr_finish t i y 0)" by (simp add: csr_finish_def Let_def)
qed

lemma fault_system:
  assumes h: "hooks_csr_write (machine s) = None"
  shows "fault_all (same_arch s) (fst (exec_system k s i))"
proof -
  have t: "hooks_csr_write (machine t) = None" "same_arch s t" if "sync_counters k s = Some t" for t
    using reaches_hooks [OF reaches_sync [OF that]] h same_arch_sync [OF that] by simp_all
  have "fault_all (same_arch s) (fst (exec_csrrw k s i v))"
    "fault_all (same_arch s) (fst (exec_csrrs k s i v b))" for v b
    using fault_csr [OF t]
    by (auto simp: exec_csrrw_def exec_csrrs_def Let_def case_prod_unfold t split: option.splits)
  moreover have "fault_all (same_arch s) (exec_ecall s i)" "fault_all (same_arch s) (exec_ebreak s i)"
    "fault_all (same_arch s) (exec_sret s i)" "fault_all (same_arch s) (exec_mret s i)"
    "fault_all (same_arch s) (exec_dret s i)" "fault_all (same_arch s) (exec_wfi s i)"
    "fault_all (same_arch s) (exec_sfence_vma s i)"
    by (simp_all add: exec_ecall_def exec_ebreak_def exec_sret_def exec_mret_def exec_dret_def exec_wfi_def
        exec_sfence_vma_def Let_def)
  ultimately show ?thesis by (simp add: exec_system_def Let_def)
qed

lemma faults_keep_state:
  assumes "hooks_csr_write (machine s) = None"
  shows "fault_all (same_arch s) (fst (exec_insn k s i))"
  unfolding exec_insn_def Let_def using fault_system [OF assms]
  by (simp add: fault_c fault_int fault_amo fault_misc fault_fma fault_op_fp)

section \<open>Precise exceptions\<close>

fun is_fault :: "flow \<Rightarrow> bool" where
  "is_fault (F_ILLEGAL s) = True"
| "is_fault (F_MMU_EXCEPTION s) = True"
| "is_fault (F_EXCEPTION s) = True"
| "is_fault _ = False"

text \<open>The trap handler was entered for the instruction at \<open>p\<close>, in supervisor or in machine mode.\<close>

definition trapped_at :: "u64 \<Rightarrow> hart \<Rightarrow> bool" where
  "trapped_at p u \<longleftrightarrow>
     priv u = PRV_S \<and> sepc u = CANONICAL_S49 p \<and> pc u = trap_target (stvec u) (scause u)
     \<or> priv u = PRV_M \<and> mepc u = CANONICAL_S49 p \<and> pc u = trap_target (mtvec u) (mcause u)"

lemma raise_trapped: "trapped_at (pc t) (raise_exception2 t c v)"
  by (simp add: trapped_at_def raise_exception2_def enter_s_def enter_m_def set_priv_def Let_def
      tlb_flush_all_def tlb_init_def)

lemma raise_keeps:
  "reg (raise_exception2 t c v) = reg t" "fp_reg (raise_exception2 t c v) = fp_reg t"
  "machine (raise_exception2 t c v) = machine t" for t :: hart
  by (simp_all add: raise_exception2_def enter_s_def enter_m_def set_priv_def Let_def tlb_flush_all_def tlb_init_def)

lemma the_end_keeps:
  assumes "the_end l t = I_Ret n u"
  shows "reg u = reg t" "fp_reg u = fp_reg t" "machine u = machine t" "trapped_at p u = trapped_at p t"
  using assms
  by (auto simp: the_end_def sync_counters_def Let_def trapped_at_def split: option.splits if_splits)

lemma exception_enters:
  assumes "exception l t = I_Ret n u" and "0 \<le> pending_exception t"
  shows "reg u = reg t" "fp_reg u = fp_reg t" "machine u = machine t" "trapped_at (GET_PC l) u"
proof -
  let ?t = "t\<lparr>pc := GET_PC l\<rparr>"
  obtain l' c v where e: "the_end l' (raise_exception2 ?t c v) = I_Ret n u"
    using assms by (auto simp: exception_def done_interp_def Let_def)
  show "reg u = reg t" "fp_reg u = fp_reg t" "machine u = machine t"
    using the_end_keeps(1-3) [OF e] by (simp_all add: raise_keeps)
  show "trapped_at (GET_PC l) u" using the_end_keeps(4) [OF e] raise_trapped [of ?t c v] by simp
qed

text \<open>
  C3. Exceptions are precise: an instruction that faults (an illegal instruction, a misaligned or
  failing memory access, a system call or a breakpoint) changes no register and no byte of memory,
  and the interpreter stops at the entry of the trap handler with the address of that instruction
  saved. This includes the read-modify-write of an atomic operation whose store fails.
\<close>

theorem precise_exceptions:
  assumes "hooks_csr_write (machine s) = None" and "GET_PC l = pc s"
    and "is_fault (fst (exec_insn (cnt l) s insn))"
  shows "case after_exec l (exec_insn (cnt l) s insn) of
      Continue l' u \<Rightarrow> False
    | Leave I_Crash \<Rightarrow> True
    | Leave (I_Ret n u) \<Rightarrow> reg u = reg s \<and> fp_reg u = fp_reg s
        \<and> host_mem (machine u) = host_mem (machine s) \<and> trapped_at (pc s) u"
proof -
  obtain f k where x: "exec_insn (cnt l) s insn = (f, k)" by (cases "exec_insn (cnt l) s insn")
  define l' where "l' = l\<lparr>cnt := (cnt l)\<lparr>insn_counter_addend := insn_counter_addend k\<rparr>\<rparr>"
  have pc: "GET_PC l' = pc s" using assms(2) by (simp add: GET_PC_def l'_def)
  obtain t where a: "after_exec l (f, k) = Leave (exception l' t)" and t: "same_arch s t" "0 \<le> pending_exception t"
  proof (cases f)
    case (F_ILLEGAL t)
    with x faults_keep_state [OF assms(1), of "cnt l" insn]
    have "same_arch s (t\<lparr>pending_exception := CAUSE_ILLEGAL_INSTRUCTION, pending_tval := 0\<rparr>)"
      by (simp add: same_arch_def arch_state_def privileged_state_def)
    then show ?thesis using that F_ILLEGAL by (simp add: after_exec_def l'_def illegal_insn_def Let_def)
  qed (use x assms(3) faults_keep_state [OF assms(1), of "cnt l" insn] that in
      \<open>simp_all add: after_exec_def l'_def Let_def\<close>)
  have "reg t = reg s" "fp_reg t = fp_reg s" "host_mem (machine t) = host_mem (machine s)"
    using t(1) by (simp_all add: same_arch_def arch_state_def)
  then show ?thesis
    unfolding x a using exception_enters [of l' t, OF _ t(2)] pc
    by (auto split: outcome.splits)
qed

theorem precise_exceptions_witness:
  "let l = \<lparr>cnt = \<lparr>insn_counter_addend = 1, n_cycles = 1, insn_counter_start = 0\<rparr>, code_ptr = 0, code_end = 0,
         code_to_pc_addend = 0x100, insn_executed = 1\<rparr>
   in case after_exec l (exec_insn (cnt l) exec_example 0) of
      Continue l' u \<Rightarrow> False
    | Leave I_Crash \<Rightarrow> True
    | Leave (I_Ret n u) \<Rightarrow> reg u = reg exec_example \<and> fp_reg u = fp_reg exec_example
        \<and> host_mem (machine u) = host_mem (machine exec_example) \<and> trapped_at (pc exec_example) u"
proof -
  let ?l = "\<lparr>cnt = \<lparr>insn_counter_addend = 1, n_cycles = 1, insn_counter_start = 0\<rparr>, code_ptr = 0, code_end = 0,
         code_to_pc_addend = 0x100, insn_executed = 1\<rparr>"
  have "GET_PC ?l = pc exec_example" by (simp add: GET_PC_def exec_example_fields)
  moreover have "is_fault (fst (exec_insn (cnt ?l) exec_example 0))"
    by (simp add: exec_insn_def exec_c0_def imm_addi4spn_def get_field1_def Let_def)
  ultimately show ?thesis
    unfolding Let_def by (rule precise_exceptions [OF exec_example_fields(5)])
qed

end
