(* ===== verification/Fdt.thy ===== *)
theory Fdt
  imports Machine
begin

text \<open>
  The flattened device tree that the machine leaves behind its boot ROM
  (\<^verbatim>\<open>riscv_machine.cpp\<close>): the writer with its structure block and its string table, the
  output of the blob, and the tree that describes the machine.

  The structure block is the list of its bytes; the capacities \<open>tab_size\<close> and
  \<open>string_table_size\<close> only steer \<open>realloc\<close> and are left out. C strings are byte lists
  without the terminating zero.
\<close>

section \<open>The writer\<close>

abbreviation FDT_MAGIC :: u32 where "FDT_MAGIC \<equiv> 0xd00dfeed"
abbreviation FDT_VERSION :: u32 where "FDT_VERSION \<equiv> 17"
abbreviation FDT_BEGIN_NODE :: u32 where "FDT_BEGIN_NODE \<equiv> 1"
abbreviation FDT_END_NODE :: u32 where "FDT_END_NODE \<equiv> 2"
abbreviation FDT_PROP :: u32 where "FDT_PROP \<equiv> 3"
abbreviation FDT_END :: u32 where "FDT_END \<equiv> 9"

type_synonym bytes = "u8 list"

text \<open>The bytes of a string literal.\<close>

definition cstring :: "string \<Rightarrow> bytes" where "cstring cs = map of_char cs"

text \<open>The bytes in memory of \<open>cpu_to_be32(v)\<close>.\<close>

definition be32 :: "u32 \<Rightarrow> bytes" where
  "be32 v = [ucast (drop_bit 24 v), ucast (drop_bit 16 v), ucast (drop_bit 8 v), ucast v]"

record FDTState =
  tab :: bytes
  open_node_count :: int
  string_table :: bytes

definition fdt_init :: FDTState where
  "fdt_init = \<lparr>tab = [], open_node_count = 0, string_table = []\<rparr>"

definition fdt_put32 :: "u32 \<Rightarrow> FDTState \<Rightarrow> FDTState" where
  "fdt_put32 v s = s\<lparr>tab := tab s @ be32 v\<rparr>"

text \<open>The data is padded with zeros: \<open>-len & 3\<close> of them.\<close>

definition fdt_put_data :: "bytes \<Rightarrow> FDTState \<Rightarrow> FDTState" where
  "fdt_put_data data s = s\<lparr>tab := tab s @ data @ replicate (nat ((- int (length data)) mod 4)) 0\<rparr>"

definition fdt_begin_node :: "bytes \<Rightarrow> FDTState \<Rightarrow> FDTState" where
  "fdt_begin_node name s =
     (let s = fdt_put_data (name @ [0]) (fdt_put32 FDT_BEGIN_NODE s)
      in s\<lparr>open_node_count := open_node_count s + 1\<rparr>)"

text \<open>\<open>%PRIx64\<close>: lower-case hexadecimal digits without leading zeros.\<close>

definition hex_digit :: "nat \<Rightarrow> u8" where
  "hex_digit d = (if d < 10 then of_nat (48 + d) else of_nat (87 + d))"

fun hex_digits :: "nat \<Rightarrow> bytes" where
  "hex_digits n = (if n < 16 then [hex_digit n] else hex_digits (n div 16) @ [hex_digit (n mod 16)])"

declare hex_digits.simps [simp del]

text \<open>\<open>snprintf\<close> keeps at most 255 characters of \<open>name@n\<close>.\<close>

definition fdt_begin_node_num :: "bytes \<Rightarrow> u64 \<Rightarrow> FDTState \<Rightarrow> FDTState" where
  "fdt_begin_node_num name n s = fdt_begin_node (take 255 (name @ [64] @ hex_digits (unat n))) s"

definition fdt_end_node :: "FDTState \<Rightarrow> FDTState" where
  "fdt_end_node s =
     (let s = fdt_put32 FDT_END_NODE s in s\<lparr>open_node_count := open_node_count s - 1\<rparr>)"

text \<open>The C string at an offset of a table.\<close>

definition cstr_at :: "bytes \<Rightarrow> nat \<Rightarrow> bytes" where
  "cstr_at t pos = takeWhile (\<lambda>b. b \<noteq> 0) (drop pos t)"

function find_string :: "bytes \<Rightarrow> bytes \<Rightarrow> nat \<Rightarrow> nat option" where
  "find_string t name pos =
     (if length t \<le> pos then None
      else if cstr_at t pos = name then Some pos
      else find_string t name (pos + length (cstr_at t pos) + 1))"
  by pat_completeness auto

termination by (relation "measure (\<lambda>(t, name, pos). length t - pos)") auto

declare find_string.simps [simp del]

definition fdt_get_string_offset :: "bytes \<Rightarrow> FDTState \<Rightarrow> nat \<times> FDTState" where
  "fdt_get_string_offset name s =
     (case find_string (string_table s) name 0 of
        Some pos \<Rightarrow> (pos, s)
      | None \<Rightarrow> (length (string_table s), s\<lparr>string_table := string_table s @ name @ [0]\<rparr>))"

text \<open>The name offset is looked up before it is written.\<close>

definition fdt_prop_head :: "bytes \<Rightarrow> nat \<Rightarrow> FDTState \<Rightarrow> FDTState" where
  "fdt_prop_head prop_name data_len s =
     (let s = fdt_put32 (of_nat data_len) (fdt_put32 FDT_PROP s);
          (pos, s) = fdt_get_string_offset prop_name s
      in fdt_put32 (of_nat pos) s)"

definition fdt_prop :: "bytes \<Rightarrow> bytes \<Rightarrow> FDTState \<Rightarrow> FDTState" where
  "fdt_prop prop_name data s = fdt_put_data data (fdt_prop_head prop_name (length data) s)"

definition fdt_prop_tab_u32 :: "bytes \<Rightarrow> u32 list \<Rightarrow> FDTState \<Rightarrow> FDTState" where
  "fdt_prop_tab_u32 prop_name vs s = fold fdt_put32 vs (fdt_prop_head prop_name (length vs * 4) s)"

definition fdt_prop_u32 :: "bytes \<Rightarrow> u32 \<Rightarrow> FDTState \<Rightarrow> FDTState" where
  "fdt_prop_u32 prop_name val = fdt_prop_tab_u32 prop_name [val]"

definition split64 :: "u64 \<Rightarrow> u32 list" where
  "split64 v = [ucast (drop_bit 32 v), ucast v]"

definition fdt_prop_u64 :: "bytes \<Rightarrow> u64 \<Rightarrow> FDTState \<Rightarrow> FDTState" where
  "fdt_prop_u64 prop_name val = fdt_prop_tab_u32 prop_name (split64 val)"

definition fdt_prop_tab_u64_2 :: "bytes \<Rightarrow> u64 \<Rightarrow> u64 \<Rightarrow> FDTState \<Rightarrow> FDTState" where
  "fdt_prop_tab_u64_2 prop_name v0 v1 = fdt_prop_tab_u32 prop_name (split64 v0 @ split64 v1)"

definition fdt_prop_str :: "bytes \<Rightarrow> bytes \<Rightarrow> FDTState \<Rightarrow> FDTState" where
  "fdt_prop_str prop_name str = fdt_prop prop_name (str @ [0])"

definition fdt_prop_tab_str :: "bytes \<Rightarrow> bytes list \<Rightarrow> FDTState \<Rightarrow> FDTState" where
  "fdt_prop_tab_str prop_name strs = fdt_prop prop_name (concat (map (\<lambda>str. str @ [0]) strs))"

section \<open>Output\<close>

text \<open>Zeros up to the next multiple of 8.\<close>

definition pad8 :: "nat \<Rightarrow> bytes" where
  "pad8 pos = replicate (nat ((- int pos) mod 8)) 0"

text \<open>The ten header words, in the order of the structure.\<close>

definition fdt_header :: "nat \<Rightarrow> nat \<Rightarrow> nat \<Rightarrow> nat \<Rightarrow> nat \<Rightarrow> nat \<Rightarrow> bytes" where
  "fdt_header totalsize off_dt_struct off_dt_strings off_mem_rsvmap size_dt_strings size_dt_struct =
     concat (map be32
       [FDT_MAGIC, of_nat totalsize, of_nat off_dt_struct, of_nat off_dt_strings,
        of_nat off_mem_rsvmap, FDT_VERSION, 16, 0, of_nat size_dt_strings, of_nat size_dt_struct])"

text \<open>The blob; \<^const>\<open>None\<close> is the failed assertion that every node is closed.\<close>

definition fdt_output :: "FDTState \<Rightarrow> bytes option" where
  "fdt_output s0 =
     (if open_node_count s0 \<noteq> 0 then None
      else let s = fdt_put32 FDT_END s0;
               dt_struct_size = length (tab s);
               dt_strings_size = length (string_table s);
               off_dt_struct = 40;
               body = tab s @ pad8 (off_dt_struct + dt_struct_size);
               off_mem_rsvmap = off_dt_struct + length body;
               off_dt_strings = off_mem_rsvmap + 16;
               strs = string_table s @ pad8 (off_dt_strings + dt_strings_size);
               totalsize = off_dt_strings + length strs
           in Some (fdt_header totalsize off_dt_struct off_dt_strings off_mem_rsvmap
                      dt_strings_size dt_struct_size
                    @ body @ replicate 16 0 @ strs))"

section \<open>The tree of the machine\<close>

text \<open>Steps one after the other.\<close>

definition steps :: "(FDTState \<Rightarrow> FDTState) list \<Rightarrow> FDTState \<Rightarrow> FDTState" where
  "steps ops s = fold (\<lambda>f. f) ops s"

definition isa_string :: "u32 \<Rightarrow> bytes" where
  "isa_string isa = cstring ''rv64'' @ map (\<lambda>i. of_nat (97 + i)) (filter (\<lambda>i. isa AND push_bit i 1 \<noteq> 0) [0..<26])"

text \<open>Hart \<open>i\<close> has the phandle \<open>i + 1\<close>: \<open>cur_phandle\<close> starts at 1.\<close>

definition fdt_cpu :: "RISCVMachine \<Rightarrow> nat \<Rightarrow> FDTState \<Rightarrow> FDTState" where
  "fdt_cpu m hartid = steps
     [fdt_begin_node_num (cstring ''cpu'') (of_nat hartid),
      fdt_prop_str (cstring ''device_type'') (cstring ''cpu''),
      fdt_prop_u32 (cstring ''reg'') (of_nat hartid),
      fdt_prop_str (cstring ''status'') (cstring ''okay''),
      fdt_prop_str (cstring ''compatible'') (cstring ''riscv''),
      fdt_prop_str (cstring ''riscv,isa'') (isa_string (misa (cpu_state m hartid))),
      fdt_prop_str (cstring ''mmu-type'') (cstring ''riscv,sv48''),
      fdt_prop_u32 (cstring ''clock-frequency'') 2000000000,
      fdt_begin_node (cstring ''interrupt-controller''),
      fdt_prop_u32 (cstring ''#interrupt-cells'') 1,
      fdt_prop (cstring ''interrupt-controller'') [],
      fdt_prop_str (cstring ''compatible'') (cstring ''riscv,cpu-intc''),
      fdt_prop_u32 (cstring ''phandle'') (of_nat (hartid + 1)),
      fdt_prop_u32 (cstring ''linux,phandle'') (of_nat (hartid + 1)),
      fdt_end_node,
      fdt_end_node]"

text \<open>Interrupt numbers \<open>a\<close> and \<open>b\<close> at the interrupt controller of each hart.\<close>

definition hart_interrupts :: "RISCVMachine \<Rightarrow> u32 \<Rightarrow> u32 \<Rightarrow> u32 list" where
  "hart_interrupts m a b = concat (map (\<lambda>i. [of_nat (i + 1), a, of_nat (i + 1), b]) [0..<ncpus m])"

definition fdt_clint :: "RISCVMachine \<Rightarrow> FDTState \<Rightarrow> FDTState" where
  "fdt_clint m = steps
     [fdt_begin_node_num (cstring ''clint'') (clint_base_addr m),
      fdt_prop_str (cstring ''compatible'') (cstring ''riscv,clint0''),
      fdt_prop_tab_u32 (cstring ''interrupts-extended'') (hart_interrupts m 3 7),
      fdt_prop_tab_u64_2 (cstring ''reg'') (clint_base_addr m) (clint_size m),
      fdt_end_node]"

definition fdt_plic :: "RISCVMachine \<Rightarrow> FDTState \<Rightarrow> FDTState" where
  "fdt_plic m = steps
     [fdt_begin_node_num (cstring ''plic'') (plic_base_addr m),
      fdt_prop_u32 (cstring ''#interrupt-cells'') 1,
      fdt_prop (cstring ''interrupt-controller'') [],
      fdt_prop_str (cstring ''compatible'') (cstring ''riscv,plic0''),
      fdt_prop_u32 (cstring ''riscv,ndev'') 31,
      fdt_prop_tab_u64_2 (cstring ''reg'') (plic_base_addr m) (plic_size m),
      fdt_prop_tab_u32 (cstring ''interrupts-extended'') (hart_interrupts m 9 11),
      fdt_prop_u32 (cstring ''phandle'') (of_nat (ncpus m + 1)),
      fdt_end_node]"

abbreviation VIRTIO_BASE_ADDR :: u64 where "VIRTIO_BASE_ADDR \<equiv> 0x40010000"
abbreviation VIRTIO_SIZE :: u64 where "VIRTIO_SIZE \<equiv> 0x1000"
abbreviation VIRTIO_IRQ :: u32 where "VIRTIO_IRQ \<equiv> 1"
abbreviation FRAMEBUFFER_BASE_ADDR :: u64 where "FRAMEBUFFER_BASE_ADDR \<equiv> 0x41000000"

definition fdt_virtio :: "RISCVMachine \<Rightarrow> nat \<Rightarrow> FDTState \<Rightarrow> FDTState" where
  "fdt_virtio m i =
     (let base = VIRTIO_BASE_ADDR + of_nat i * VIRTIO_SIZE in
      steps
        [fdt_begin_node_num (cstring ''virtio'') base,
         fdt_prop_str (cstring ''compatible'') (cstring ''virtio,mmio''),
         fdt_prop_tab_u64_2 (cstring ''reg'') base VIRTIO_SIZE,
         fdt_prop_tab_u32 (cstring ''interrupts-extended'') [of_nat (ncpus m + 1), VIRTIO_IRQ + of_nat i],
         fdt_end_node])"

definition fdt_uarts :: "FDTState \<Rightarrow> FDTState" where
  "fdt_uarts = steps
     [fdt_begin_node_num (cstring ''uart'') 0x54000000,
      fdt_prop_str (cstring ''compatible'') (cstring ''sifive,uart0''),
      fdt_prop_tab_u64_2 (cstring ''reg'') 0x54000000 32,
      fdt_end_node,
      fdt_begin_node_num (cstring ''uart'') 0x12002000,
      fdt_prop_str (cstring ''compatible'') (cstring ''ns16550''),
      fdt_prop_tab_u64_2 (cstring ''reg'') 0x12002000 0x1000,
      fdt_prop_u32 (cstring ''reg-shift'') 2,
      fdt_prop_u32 (cstring ''reg-io-width'') 4,
      fdt_end_node]"

text \<open>A frame buffer: size, width, height, stride.\<close>

record FBDevice =
  fb_size :: u64
  fb_width :: u32
  fb_height :: u32
  fb_stride :: u32

definition fdt_framebuffer :: "FBDevice \<Rightarrow> FDTState \<Rightarrow> FDTState" where
  "fdt_framebuffer fb = steps
     [fdt_begin_node_num (cstring ''framebuffer'') FRAMEBUFFER_BASE_ADDR,
      fdt_prop_str (cstring ''compatible'') (cstring ''simple-framebuffer''),
      fdt_prop_tab_u64_2 (cstring ''reg'') FRAMEBUFFER_BASE_ADDR (fb_size fb),
      fdt_prop_u32 (cstring ''width'') (fb_width fb),
      fdt_prop_u32 (cstring ''height'') (fb_height fb),
      fdt_prop_u32 (cstring ''stride'') (fb_stride fb),
      fdt_prop_str (cstring ''format'') (cstring ''a8r8g8b8''),
      fdt_end_node]"

definition fdt_chosen :: "bytes option \<Rightarrow> u64 \<Rightarrow> u64 \<Rightarrow> FDTState \<Rightarrow> FDTState" where
  "fdt_chosen cmd_line initrd_start initrd_end = steps
     ([fdt_begin_node (cstring ''chosen''),
       fdt_prop_str (cstring ''bootargs'') (case cmd_line of None \<Rightarrow> [] | Some c \<Rightarrow> c)]
      @ (if initrd_start \<noteq> 0 \<and> initrd_start < initrd_end
         then [fdt_prop_u64 (cstring ''linux,initrd-start'') initrd_start,
               fdt_prop_u64 (cstring ''linux,initrd-end'') initrd_end] else [])
      @ [fdt_end_node])"

text \<open>
  \<open>riscv_build_fdt\<close> without a prepared tree: \<open>virtio_count\<close> and the frame buffer are arguments,
  since the machine of \<open>Machine\<close> has no such devices.
\<close>

definition fdt_machine ::
    "RISCVMachine \<Rightarrow> nat \<Rightarrow> FBDevice option \<Rightarrow> bytes option \<Rightarrow> u64 \<Rightarrow> u64 \<Rightarrow> FDTState \<Rightarrow> FDTState" where
  "fdt_machine m virtio_count fb cmd_line initrd_start initrd_end = steps
     ([fdt_begin_node [],
       fdt_prop_u32 (cstring ''#address-cells'') 2,
       fdt_prop_u32 (cstring ''#size-cells'') 2,
       fdt_prop_str (cstring ''compatible'') (cstring ''ucbbar,dromajo-bar_dev''),
       fdt_prop_str (cstring ''model'') (cstring ''ucbbar,dromajo-bare''),
       fdt_begin_node (cstring ''cpus''),
       fdt_prop_u32 (cstring ''#address-cells'') 1,
       fdt_prop_u32 (cstring ''#size-cells'') 0,
       fdt_prop_u32 (cstring ''timebase-frequency'') 10000000]
      @ map (fdt_cpu m) [0..<ncpus m]
      @ [fdt_end_node,
       fdt_begin_node_num (cstring ''memory'') (ram_base_addr m),
       fdt_prop_str (cstring ''device_type'') (cstring ''memory''),
       fdt_prop_tab_u32 (cstring ''reg'') (split64 (ram_base_addr m) @ split64 (ram_size m)),
       fdt_end_node,
       fdt_begin_node (cstring ''soc''),
       fdt_prop_u32 (cstring ''#address-cells'') 2,
       fdt_prop_u32 (cstring ''#size-cells'') 2,
       fdt_prop_tab_str (cstring ''compatible'') [cstring ''ucbbar,dromajo-bar-soc'', cstring ''simple-bus''],
       fdt_prop (cstring ''ranges'') [],
       fdt_clint m,
       fdt_plic m]
      @ map (fdt_virtio m) [0..<virtio_count]
      @ [fdt_uarts]
      @ (case fb of None \<Rightarrow> [] | Some d \<Rightarrow> [fdt_framebuffer d])
      @ [fdt_end_node,
       fdt_chosen cmd_line initrd_start initrd_end,
       fdt_end_node])"

definition riscv_build_fdt ::
    "RISCVMachine \<Rightarrow> nat \<Rightarrow> FBDevice option \<Rightarrow> bytes option \<Rightarrow> u64 \<Rightarrow> u64 \<Rightarrow> bytes option" where
  "riscv_build_fdt m virtio_count fb cmd_line initrd_start initrd_end =
     fdt_output (fdt_machine m virtio_count fb cmd_line initrd_start initrd_end fdt_init)"

end
