(* ===== verification/Elf.thy ===== *)
theory Elf
  imports Fdt "HOL-Library.Monad_Syntax"
begin

text \<open>
  The ELF reader of \<^verbatim>\<open>elf64.cpp\<close>: recognition of an RV64 image, its entry point and the lookup
  of a global symbol.

  An image is a block of bytes at a host address. The code computes with pointers into it and
  reads without checking each of them: a read outside the block is \<^const>\<open>None\<close>, an address
  computation wraps at 64 bits. The structures are those of the system header \<^verbatim>\<open>elf.h\<close>.
\<close>

section \<open>Images\<close>

record elf_image =
  img_base :: u64
  img_bytes :: bytes

fun le_value :: "bytes \<Rightarrow> u64" where
  "le_value [] = 0"
| "le_value (b # bs) = ucast b OR push_bit 8 (le_value bs)"

definition img_block :: "elf_image \<Rightarrow> u64 \<Rightarrow> nat \<Rightarrow> bytes option" where
  "img_block im p k =
     (if unat (p - img_base im) + k \<le> length (img_bytes im)
      then Some (take k (drop (unat (p - img_base im)) (img_bytes im))) else None)"

definition img_read :: "elf_image \<Rightarrow> u64 \<Rightarrow> nat \<Rightarrow> u64 option" where
  "img_read im p k = map_option le_value (img_block im p k)"

definition img_size :: "elf_image \<Rightarrow> u64" where "img_size im = of_nat (length (img_bytes im))"

text \<open>A field of the file header, which the caller has checked to lie in the image.\<close>

definition ehdr_field :: "elf_image \<Rightarrow> nat \<Rightarrow> nat \<Rightarrow> u64" where
  "ehdr_field im off k = le_value (take k (drop off (img_bytes im)))"

abbreviation EHDR_SIZE :: nat where "EHDR_SIZE \<equiv> 64"
abbreviation PHDR_SIZE :: nat where "PHDR_SIZE \<equiv> 56"
abbreviation SHDR_SIZE :: nat where "SHDR_SIZE \<equiv> 64"
abbreviation SYM_SIZE :: nat where "SYM_SIZE \<equiv> 24"

definition elf64_is_riscv64 :: "elf_image \<Rightarrow> bool" where
  "elf64_is_riscv64 im =
     (if length (img_bytes im) < EHDR_SIZE then False
      else if take 4 (img_bytes im) \<noteq> [0x7f, 0x45, 0x4c, 0x46] then False
      else if ehdr_field im 4 1 \<noteq> 2 then False
      else if ehdr_field im 5 1 \<noteq> 1 then False
      else if ehdr_field im 18 2 \<noteq> 0xf3 then False
      else if ehdr_field im 52 2 \<noteq> of_nat EHDR_SIZE then False
      else if ehdr_field im 54 2 \<noteq> of_nat PHDR_SIZE then False
      else True)"

definition elf64_get_entrypoint :: "elf_image \<Rightarrow> u64" where
  "elf64_get_entrypoint im = ehdr_field im 24 8"

section \<open>Global symbols\<close>

text \<open>\<open>strcmp(key, p) == 0\<close>: the bytes are read up to the first difference.\<close>

fun strcmp_at :: "elf_image \<Rightarrow> bytes \<Rightarrow> u64 \<Rightarrow> bool option" where
  "strcmp_at im [] p = map_option (\<lambda>b. b = 0) (img_read im p 1)"
| "strcmp_at im (c # cs) p =
     do { b \<leftarrow> img_read im p 1; if b = ucast c then strcmp_at im cs (p + 1) else Some False }"

text \<open>The section scan: the last symbol table with its length (an \<open>int\<close>), and the last string table that is not the one of the section names.\<close>

record sections =
  symtab :: u64
  symtab_len :: u32
  strtab :: u64

definition scan_section :: "elf_image \<Rightarrow> u64 \<Rightarrow> u64 \<Rightarrow> nat \<Rightarrow> sections \<Rightarrow> sections option" where
  "scan_section im shdr shstrndx i r =
     (let sh = shdr + of_nat (i * SHDR_SIZE) in
      do {
        sh_type \<leftarrow> img_read im (sh + 4) 4;
        r \<leftarrow> (if sh_type = 3 \<and> of_nat i \<noteq> shstrndx
              then do { off \<leftarrow> img_read im (sh + 24) 8; Some (r\<lparr>strtab := img_base im + off\<rparr>) }
              else Some r);
        if sh_type = 2
        then do { off \<leftarrow> img_read im (sh + 24) 8; sz \<leftarrow> img_read im (sh + 32) 8;
                  Some (r\<lparr>symtab := img_base im + off, symtab_len := ucast (sz div of_nat SYM_SIZE)\<rparr>) }
        else Some r })"

fun scan_sections :: "elf_image \<Rightarrow> u64 \<Rightarrow> u64 \<Rightarrow> nat list \<Rightarrow> sections \<Rightarrow> sections option" where
  "scan_sections im shdr shstrndx [] r = Some r"
| "scan_sections im shdr shstrndx (i # is) r =
     do { r \<leftarrow> scan_section im shdr shstrndx i r; scan_sections im shdr shstrndx is r }"

text \<open>The symbol loop; the inner option is the boolean result with the value.\<close>

fun scan_symbols :: "elf_image \<Rightarrow> bytes \<Rightarrow> u64 \<Rightarrow> u64 \<Rightarrow> nat list \<Rightarrow> u64 option option" where
  "scan_symbols im key symtab_p strtab_p [] = Some None"
| "scan_symbols im key symtab_p strtab_p (i # is) =
     (let sym = symtab_p + of_nat (i * SYM_SIZE) in
      do {
        st_name \<leftarrow> img_read im sym 4;
        same \<leftarrow> strcmp_at im key (strtab_p + st_name);
        found \<leftarrow> (if same then do { st_info \<leftarrow> img_read im (sym + 4) 1; Some (drop_bit 4 st_info = 1) }
                  else Some False);
        if found then do { st_value \<leftarrow> img_read im (sym + 8) 8; Some (Some st_value) }
        else scan_symbols im key symtab_p strtab_p is })"

definition elf64_find_global :: "elf_image \<Rightarrow> bytes \<Rightarrow> u64 option option" where
  "elf64_find_global im key =
     (let image_end = img_base im + img_size im in
      do {
        e_shoff \<leftarrow> img_read im (img_base im + 40) 8;
        if e_shoff + of_nat SHDR_SIZE - 1 > img_size im then Some None
        else do {
          let shdr = img_base im + e_shoff;
          e_shstrndx \<leftarrow> img_read im (img_base im + 62) 2;
          if shdr + (e_shstrndx + 1) * of_nat SHDR_SIZE > image_end then Some None
          else do {
            e_shnum \<leftarrow> img_read im (img_base im + 60) 2;
            if shdr + e_shnum * of_nat SHDR_SIZE > image_end then Some None
            else do {
              r \<leftarrow> scan_sections im shdr e_shstrndx [0..<unat e_shnum] \<lparr>symtab = 0, symtab_len = 0, strtab = 0\<rparr>;
              if symtab r \<noteq> 0 \<and> strtab r \<noteq> 0
              then (if symtab r + scast (symtab_len r) * of_nat SYM_SIZE > image_end then Some None
                    else scan_symbols im key (symtab r) (strtab r) [0..<nat (sint (symtab_len r))])
              else Some None } } } })"

end
