(* ===== verification/Boot.thy ===== *)
theory Boot
  imports Elf
begin

text \<open>
  Bringing up the machine (\<^verbatim>\<open>riscv_machine.cpp\<close>): loading ELF or raw firmware, kernel and
  initrd, placing the boot ROM and the device tree behind it, and the construction of the machine
  as a whole.

  Host addresses that \<open>mallocz\<close> returns and the contents of host files are arguments.
\<close>

section \<open>ELF firmware\<close>

abbreviation RAM_BASE_ADDR :: u64 where "RAM_BASE_ADDR \<equiv> 0x80000000"

record segment =
  p_offset :: u64
  p_vaddr :: u64
  p_filesz :: u64
  p_memsz :: u64

text \<open>Program header \<open>i\<close>; only those of type \<open>PT_LOAD\<close> are looked at further.\<close>

definition read_phdr :: "elf_image \<Rightarrow> u64 \<Rightarrow> segment option option" where
  "read_phdr im ph =
     do {
       p_type \<leftarrow> img_read im ph 4;
       if p_type = 1
       then do { off \<leftarrow> img_read im (ph + 8) 8; vaddr \<leftarrow> img_read im (ph + 16) 8;
                 filesz \<leftarrow> img_read im (ph + 32) 8; memsz \<leftarrow> img_read im (ph + 40) 8;
                 Some (Some \<lparr>p_offset = off, p_vaddr = vaddr, p_filesz = filesz, p_memsz = memsz\<rparr>) }
       else Some None }"

text \<open>
  A segment. A range of the memory map that does not start at \<open>RAM_BASE_ADDR\<close> is shadowed by new
  RAM of the size of the segment, at the host address \<open>alloc\<close>; an address without a range is a
  null pointer.
\<close>

definition load_segment :: "elf_image \<Rightarrow> u64 \<Rightarrow> segment \<Rightarrow> RISCVMachine \<Rightarrow> RISCVMachine option" where
  "load_segment im alloc sg m =
     (let rounded_size = (p_memsz sg + DEVRAM_PAGE_SIZE - 1) AND NOT (DEVRAM_PAGE_SIZE - 1) in
      do {
        i \<leftarrow> get_phys_mem_range (mem_map m) (p_vaddr sg);
        m \<leftarrow> (if pr_addr (phys_mem_range (mem_map m) i) \<noteq> RAM_BASE_ADDR
              then map_option (\<lambda>(_, mm, h). m\<lparr>mem_map := mm, host_mem := h\<rparr>)
                     (default_register_ram alloc (mem_map m) (host_mem m) (p_vaddr sg) rounded_size 0)
              else Some m);
        buf \<leftarrow> img_block im (img_base im + p_offset sg) (unat (p_filesz sg));
        copy_image buf (p_vaddr sg) m })"

fun load_segments :: "elf_image \<Rightarrow> (nat \<Rightarrow> u64) \<Rightarrow> nat list \<Rightarrow> RISCVMachine \<Rightarrow> RISCVMachine option" where
  "load_segments im alloc [] m = Some m"
| "load_segments im alloc (i # is) m =
     do {
       s \<leftarrow> read_phdr im (img_base im + ehdr_field im 32 8 + of_nat (i * PHDR_SIZE));
       m \<leftarrow> (case s of None \<Rightarrow> Some m | Some sg \<Rightarrow> load_segment im (alloc i) sg m);
       load_segments im alloc is m }"

definition load_elf_image :: "elf_image \<Rightarrow> (nat \<Rightarrow> u64) \<Rightarrow> RISCVMachine \<Rightarrow> RISCVMachine option" where
  "load_elf_image im alloc m = load_segments im alloc [0..<unat (ehdr_field im 56 2)] m"

section \<open>Images\<close>

text \<open>
  The images of \<open>copy_kernel\<close>: sizes are checked, then each image is copied to its place. A
  failed check returns 1; a base address other than the three supported ones, a missing RAM range
  and a read outside the firmware image end the process.
\<close>

definition load_firmware :: "elf_image \<Rightarrow> (nat \<Rightarrow> u64) \<Rightarrow> RISCVMachine \<Rightarrow> load_result" where
  "load_firmware fw alloc m =
     (if unat (ram_size m) < length (img_bytes fw) then LoadError
      else if elf64_is_riscv64 fw then
        (if elf64_get_entrypoint fw \<noteq> ram_base_addr m then LoadError
         else case load_elf_image fw alloc m of
           None \<Rightarrow> LoadCrash
         | Some m1 \<Rightarrow> (case elf64_find_global fw (cstring ''tohost'') of
             None \<Rightarrow> LoadCrash
           | Some None \<Rightarrow> Loaded m1 0 0
           | Some (Some v) \<Rightarrow> Loaded (m1\<lparr>htif_tohost_addr := v\<rparr>) 0 0))
      else case copy_image (img_bytes fw) (ram_base_addr m) m of
        None \<Rightarrow> LoadCrash | Some m1 \<Rightarrow> Loaded m1 0 0)"

definition load_images :: "elf_image \<Rightarrow> (nat \<Rightarrow> u64) \<Rightarrow> bytes \<Rightarrow> bytes \<Rightarrow> RISCVMachine \<Rightarrow> load_result" where
  "load_images fw alloc kernel_buf initrd m =
     (case load_firmware fw alloc m of
        Loaded m1 _ _ \<Rightarrow>
          if ram_base_addr m1 \<notin> {0x80000000, 0x8000000000, 0xC000000000} then LoadCrash
          else (case load_kernel kernel_buf m1 of
                  Loaded m2 _ _ \<Rightarrow> load_initrd initrd m2
                | r \<Rightarrow> r)
      | r \<Rightarrow> r)"

section \<open>Boot ROM and device tree\<close>

text \<open>A host file: it cannot be opened, or reading its \<open>n\<close> bytes gives these.\<close>

datatype host_file = NoFile | HostFile bytes nat

text \<open>
  The boot ROM at \<open>q\<close>: the hard-coded one or a file. The result is \<open>bootromSzBytes\<close>, an unsigned
  number: the -1 of a short read is not noticed.
\<close>

definition load_bootrom :: "host_file option \<Rightarrow> u64 \<Rightarrow> RISCVMachine \<Rightarrow> (u32 \<times> RISCVMachine) option" where
  "load_bootrom f q m =
     (case f of
        None \<Rightarrow> Some (13 * 4, m\<lparr>host_mem := store_words (boot_words m) q (host_mem m)\<rparr>)
      | Some NoFile \<Rightarrow> None
      | Some (HostFile bs n) \<Rightarrow>
          Some (if length bs = n then of_nat n else - 1, m\<lparr>host_mem := memcpy bs q (host_mem m)\<rparr>))"

datatype boot_result = Booted RISCVMachine | BootError | BootCrash

text \<open>
  \<open>riscv_build_fdt\<close> at \<open>dst\<close>: the tree of the machine, or a prepared one from a file. A copy is
  written to the file \<^verbatim>\<open>dromajo.dtb\<close>; if that cannot be opened the result is -1.
\<close>

definition place_fdt ::
    "nat \<Rightarrow> FBDevice option \<Rightarrow> bool \<Rightarrow> host_file option \<Rightarrow> bytes option \<Rightarrow> u64 \<Rightarrow> u64 \<Rightarrow> u64
     \<Rightarrow> RISCVMachine \<Rightarrow> boot_result" where
  "place_fdt virtio_count fb can_dump dtb cmd_line initrd_start initrd_end dst m =
     (case dtb of
        None \<Rightarrow> (case riscv_build_fdt m virtio_count fb cmd_line initrd_start initrd_end of
            None \<Rightarrow> BootCrash
          | Some blob \<Rightarrow>
              if can_dump then Booted (m\<lparr>host_mem := memcpy blob dst (host_mem m)\<rparr>) else BootError)
      | Some NoFile \<Rightarrow> BootCrash
      | Some (HostFile bs n) \<Rightarrow>
          if length bs \<noteq> n \<or> \<not> can_dump then BootError else Booted (m\<lparr>host_mem := memcpy bs dst (host_mem m)\<rparr>))"

definition fdt_offset :: "RISCVMachine \<Rightarrow> u32 \<Rightarrow> u32" where
  "fdt_offset m bootromSzBytes =
     ucast (BOOT_BASE_ADDR - ROM_BASE_ADDR) + (if compact_bootrom m then bootromSzBytes else 256)"

record boot_files =
  bf_bios :: "elf_image option"
  bf_kernel :: bytes
  bf_initrd :: bytes
  bf_bootrom :: "host_file option"
  bf_dtb :: "host_file option"
  bf_cmdline :: "bytes option"
  bf_can_dump :: bool

definition copy_kernel ::
    "nat \<Rightarrow> FBDevice option \<Rightarrow> boot_files \<Rightarrow> elf_image \<Rightarrow> (nat \<Rightarrow> u64) \<Rightarrow> RISCVMachine \<Rightarrow> boot_result" where
  "copy_kernel virtio_count fb files fw alloc m =
     (case load_images fw alloc (bf_kernel files) (bf_initrd files) m of
        LoadError \<Rightarrow> BootError
      | LoadCrash \<Rightarrow> BootCrash
      | Loaded m1 initrd_start initrd_end \<Rightarrow>
         (case get_ram_ptr m1 ROM_BASE_ADDR of
            None \<Rightarrow> BootCrash
          | Some ram_ptr \<Rightarrow>
             (case load_bootrom (bf_bootrom files) (ram_ptr + (BOOT_BASE_ADDR - ROM_BASE_ADDR)) m1 of
                None \<Rightarrow> BootCrash
              | Some (bootromSzBytes, m2) \<Rightarrow>
                 (case place_fdt virtio_count fb (bf_can_dump files) (bf_dtb files) (bf_cmdline files) initrd_start initrd_end
                         (ram_ptr + ucast (fdt_offset m2 bootromSzBytes)) m2 of
                    Booted m3 \<Rightarrow> Booted (set_debug_all m3)
                  | r \<Rightarrow> r))))"

section \<open>The machine as a whole\<close>

text \<open>
  \<open>virt_machine_init\<close> without its virtio devices, whose number is an argument. \<open>BootError\<close> is the
  null result, \<open>BootCrash\<close> an exit or a crash.
\<close>

definition virt_machine_init ::
    "u64 \<Rightarrow> u64 \<Rightarrow> (nat \<Rightarrow> u64) \<Rightarrow> nat \<Rightarrow> FBDevice option \<Rightarrow> VirtMachineParams \<Rightarrow> boot_files \<Rightarrow> boot_result" where
  "virt_machine_init ram_p rom_p alloc virtio_count fb p files =
     (case init_harts p of
        None \<Rightarrow> BootCrash
      | Some m0 \<Rightarrow>
         (case register_memory ram_p rom_p p m0 of
            None \<Rightarrow> BootCrash
          | Some m1 \<Rightarrow>
             (case bf_bios files of
                None \<Rightarrow> BootError
              | Some fw \<Rightarrow>
                 (case copy_kernel virtio_count fb files fw alloc (m1\<lparr>htif_tohost_addr := p_htif_base_addr p\<rparr>) of
                    Booted m2 \<Rightarrow> Booted (m2
                      \<lparr>mmio_start := p_mmio_start p, mmio_end := p_mmio_end p, mmio_addrset := p_mmio_addrset p,
                       cosim := False, m_pending_exception := - 1, pending_interrupt := - 1,
                       plic_base_addr := p_plic_base_addr p, plic_size := p_plic_size p,
                       clint_base_addr := p_clint_base_addr p, clint_size := p_clint_size p\<rparr>)
                  | r \<Rightarrow> r))))"

end
