(* ===== verification/Elf_Laws.thy ===== *)
theory Elf_Laws
  imports Elf
begin

text \<open>
  Laws of the ELF reader: on an image whose tables lie inside it, every read of the symbol lookup
  is inside too and the result is the first global symbol of the name; without that the checks of
  the code do not keep it inside.
\<close>

section \<open>Reading\<close>

text \<open>An image below 2 GiB that does not touch the end of the host's address space.\<close>

definition img_ok :: "elf_image \<Rightarrow> bool" where
  "img_ok im \<longleftrightarrow> img_base im \<noteq> 0 \<and> EHDR_SIZE \<le> length (img_bytes im) \<and> length (img_bytes im) < 2 ^ 31
     \<and> unat (img_base im) + length (img_bytes im) < 2 ^ 64"

lemma img_read_at:
  assumes "unat x + k \<le> length (img_bytes im)"
  shows "img_read im (img_base im + x) k = Some (ehdr_field im (unat x) k)"
  using assms by (simp add: img_read_def img_block_def ehdr_field_def)

lemma img_read_nat:
  assumes "img_ok im" and "pos + k \<le> length (img_bytes im)"
  shows "img_read im (img_base im + of_nat pos) k = Some (ehdr_field im pos k)"
proof -
  have "unat (of_nat pos :: u64) = pos" using assms by (simp add: img_ok_def unsigned_of_nat take_bit_nat_eq_self)
  then show ?thesis using img_read_at [of "of_nat pos" k im] assms(2) by simp
qed

lemma img_order:
  assumes "img_ok im" and "x \<le> length (img_bytes im)"
  shows "\<not> img_base im + img_size im < img_base im + of_nat x" "img_base im + of_nat x \<noteq> 0"
proof -
  have b: "unat (img_base im) + length (img_bytes im) < 2 ^ 64" using assms(1) by (simp add: img_ok_def)
  then have "unat (img_base im + of_nat y) = unat (img_base im) + y" if "y \<le> length (img_bytes im)" for y
    using that by (simp add: unat_word_ariths unsigned_of_nat take_bit_nat_eq_self)
  note u = this [OF assms(2)] this [OF order_refl]
  show "\<not> img_base im + img_size im < img_base im + of_nat x"
    unfolding word_less_nat_alt img_size_def u using assms(2) by simp
  have "unat (img_base im) \<noteq> 0" using assms(1) by (simp add: img_ok_def unat_eq_0)
  then show "img_base im + of_nat x \<noteq> 0" using u(1) by (metis add_is_0 unsigned_0)
qed

lemma of_nat_field: "of_nat (unat (ehdr_field im pos k)) = ehdr_field im pos k" by simp

section \<open>Strings\<close>

lemma byte_value: "le_value [b] = ucast c \<longleftrightarrow> b = c"
proof
  assume "le_value [b] = ucast c"
  then have "bit (ucast b :: u64) n = bit (ucast c :: u64) n" for n by simp
  then have "n < 64 \<Longrightarrow> bit b n = bit c n" for n by (simp add: bit_ucast_iff) blast
  then show "b = c" by (intro bit_word_eqI) simp
qed simp

lemma strcmp_cstr:
  assumes "img_ok im" and "0 \<in> set (drop pos (img_bytes im))" and "0 \<notin> set key"
  shows "strcmp_at im key (img_base im + of_nat pos) = Some (cstr_at (img_bytes im) pos = key)"
  using assms(2,3)
proof (induction key arbitrary: pos)
  case Nil
  have pos: "pos < length (img_bytes im)" using Nil.prems(1) by (cases "pos < length (img_bytes im)") auto
  then have d: "drop pos (img_bytes im) = img_bytes im ! pos # drop (Suc pos) (img_bytes im)" by (simp add: Cons_nth_drop_Suc)
  then show ?case using pos using byte_value [of _ 0] by (simp add: img_read_nat [OF assms(1)] ehdr_field_def d cstr_at_def)
next
  case (Cons c key)
  have pos: "pos < length (img_bytes im)" using Cons.prems(1) by (cases "pos < length (img_bytes im)") auto
  then have d: "drop pos (img_bytes im) = img_bytes im ! pos # drop (Suc pos) (img_bytes im)" by (simp add: Cons_nth_drop_Suc)
  have IH: "strcmp_at im key (img_base im + of_nat (Suc pos)) = Some (cstr_at (img_bytes im) (Suc pos) = key)"
    if "img_bytes im ! pos = c" using Cons.IH [of "Suc pos"] Cons.prems that by (auto simp: d)
  show ?case
    using pos IH Cons.prems(2)
    by (auto simp: img_read_nat [OF assms(1)] ehdr_field_def d cstr_at_def byte_value [simplified] ac_simps)
qed

section \<open>The symbols of an image\<close>

definition e_shoff :: "elf_image \<Rightarrow> nat" where "e_shoff im = unat (ehdr_field im 40 8)"
definition e_shnum :: "elf_image \<Rightarrow> nat" where "e_shnum im = unat (ehdr_field im 60 2)"
definition e_shstrndx :: "elf_image \<Rightarrow> nat" where "e_shstrndx im = unat (ehdr_field im 62 2)"
definition sh_type :: "elf_image \<Rightarrow> nat \<Rightarrow> u64" where "sh_type im i = ehdr_field im (e_shoff im + i * SHDR_SIZE + 4) 4"
definition sh_offset :: "elf_image \<Rightarrow> nat \<Rightarrow> nat" where "sh_offset im i = unat (ehdr_field im (e_shoff im + i * SHDR_SIZE + 24) 8)"
definition sh_size :: "elf_image \<Rightarrow> nat \<Rightarrow> nat" where "sh_size im i = unat (ehdr_field im (e_shoff im + i * SHDR_SIZE + 32) 8)"

text \<open>The sections that count: the last symbol table, and the last string table apart from the section names.\<close>

definition symbol_section :: "elf_image \<Rightarrow> nat \<Rightarrow> nat option" where
  "symbol_section im n = find (\<lambda>i. sh_type im i = 2) (rev [0..<n])"

definition string_section :: "elf_image \<Rightarrow> nat \<Rightarrow> nat option" where
  "string_section im n = find (\<lambda>i. sh_type im i = 3 \<and> i \<noteq> e_shstrndx im) (rev [0..<n])"

text \<open>A symbol: name, binding, value.\<close>

definition elf_symbol :: "elf_image \<Rightarrow> nat \<Rightarrow> nat \<Rightarrow> nat \<Rightarrow> bytes \<times> u64 \<times> u64" where
  "elf_symbol im st str i =
     (let p = sh_offset im st + i * SYM_SIZE in
      (cstr_at (img_bytes im) (sh_offset im str + unat (ehdr_field im p 4)),
       drop_bit 4 (ehdr_field im (p + 4) 1), ehdr_field im (p + 8) 8))"

definition elf_symbols :: "elf_image \<Rightarrow> (bytes \<times> u64 \<times> u64) list" where
  "elf_symbols im =
     (case (symbol_section im (e_shnum im), string_section im (e_shnum im)) of
        (Some st, Some str) \<Rightarrow> map (elf_symbol im st str) [0..<sh_size im st div SYM_SIZE]
      | _ \<Rightarrow> [])"

text \<open>The tables lie in the image and every symbol name ends there.\<close>

definition tables_ok :: "elf_image \<Rightarrow> bool" where
  "tables_ok im \<longleftrightarrow> e_shoff im + (e_shstrndx im + 1) * SHDR_SIZE \<le> length (img_bytes im)
     \<and> e_shoff im + e_shnum im * SHDR_SIZE \<le> length (img_bytes im)
     \<and> (case symbol_section im (e_shnum im) of None \<Rightarrow> True | Some st \<Rightarrow>
          sh_offset im st + sh_size im st \<le> length (img_bytes im)
          \<and> (case string_section im (e_shnum im) of None \<Rightarrow> True | Some str \<Rightarrow>
               sh_offset im str \<le> length (img_bytes im)
               \<and> list_all (\<lambda>i. 0 \<in> set (drop (sh_offset im str + unat (ehdr_field im (sh_offset im st + i * SYM_SIZE) 4))
                    (img_bytes im))) [0..<sh_size im st div SYM_SIZE]))"

lemma scan_sections_append:
  "scan_sections im a b (xs @ ys) r = Option.bind (scan_sections im a b xs r) (scan_sections im a b ys)"
  by (induction xs arbitrary: r) (auto split: Option.bind_splits)

text \<open>What the scan has found after \<open>n\<close> sections.\<close>

definition found_sections :: "elf_image \<Rightarrow> nat \<Rightarrow> sections" where
  "found_sections im n =
     \<lparr>symtab = (case symbol_section im n of None \<Rightarrow> 0 | Some st \<Rightarrow> img_base im + of_nat (sh_offset im st)),
      symtab_len = (case symbol_section im n of None \<Rightarrow> 0 | Some st \<Rightarrow> ucast (of_nat (sh_size im st) div of_nat SYM_SIZE :: u64)),
      strtab = (case string_section im n of None \<Rightarrow> 0 | Some str \<Rightarrow> img_base im + of_nat (sh_offset im str))\<rparr>"

lemma scan_section_found:
  assumes "img_ok im" and "e_shoff im + Suc n * SHDR_SIZE \<le> length (img_bytes im)" and "n < 2 ^ 16" and "e_shstrndx im < 2 ^ 16"
  shows "scan_section im (img_base im + of_nat (e_shoff im)) (of_nat (e_shstrndx im)) n (found_sections im n)
    = Some (found_sections im (Suc n))"
proof -
  let ?sh = "img_base im + of_nat (e_shoff im) + of_nat (n * SHDR_SIZE) :: u64"
  have r: "img_read im (?sh + of_nat d) k = Some (ehdr_field im (e_shoff im + n * SHDR_SIZE + d) k)" if "d + k \<le> SHDR_SIZE" for d k
    using img_read_nat [OF assms(1), of "e_shoff im + n * SHDR_SIZE + d" k] assms(2) that by (simp add: ac_simps)
  note r = r [of 4 4] r [of 24 8] r [of 32 8]
  have "unat (of_nat n :: u64) = n" "unat (of_nat (e_shstrndx im) :: u64) = e_shstrndx im"
    using assms(3,4) by (simp_all add: unsigned_of_nat take_bit_nat_eq_self)
  then have ne: "(of_nat n :: u64) = of_nat (e_shstrndx im) \<longleftrightarrow> n = e_shstrndx im" by metis
  show ?thesis
    unfolding scan_section_def Let_def using r ne
    by (simp add: found_sections_def symbol_section_def string_section_def sh_type_def sh_offset_def sh_size_def)
qed

lemma scan_sections_found:
  assumes "img_ok im" and "e_shoff im + n * SHDR_SIZE \<le> length (img_bytes im)" and "n \<le> 2 ^ 16" and "e_shstrndx im < 2 ^ 16"
  shows "scan_sections im (img_base im + of_nat (e_shoff im)) (of_nat (e_shstrndx im)) [0..<n] \<lparr>symtab = 0, symtab_len = 0, strtab = 0\<rparr>
    = Some (found_sections im n)"
  using assms(2,3)
proof (induction n)
  case 0
  then show ?case by (simp add: found_sections_def symbol_section_def string_section_def)
next
  case (Suc n)
  then show ?case
    using scan_section_found [OF assms(1) Suc.prems(1) _ assms(4)] by (simp add: scan_sections_append del: of_nat_Suc)
qed

lemma scan_symbols_find:
  assumes "img_ok im" and "0 \<notin> set key"
    and "\<And>i. i \<in> set is \<Longrightarrow> sh_offset im st + Suc i * SYM_SIZE \<le> length (img_bytes im)
      \<and> 0 \<in> set (drop (sh_offset im str + unat (ehdr_field im (sh_offset im st + i * SYM_SIZE) 4)) (img_bytes im))"
  shows "scan_symbols im key (img_base im + of_nat (sh_offset im st)) (img_base im + of_nat (sh_offset im str)) is
    = Some (map_option (\<lambda>(n, b, v). v) (find (\<lambda>(n, b, v). n = key \<and> b = 1) (map (elf_symbol im st str) is)))"
  using assms(3)
proof (induction "is")
  case (Cons i "is")
  let ?p = "sh_offset im st + i * SYM_SIZE"
  let ?sym = "img_base im + of_nat (sh_offset im st) + of_nat (i * SYM_SIZE) :: u64"
  have r: "img_read im (?sym + of_nat d) k = Some (ehdr_field im (?p + d) k)" if "d + k \<le> SYM_SIZE" for d k
    using img_read_nat [OF assms(1), of "?p + d" k] Cons.prems [of i] that by (simp add: ac_simps)
  note r = r [of 0 4] r [of 4 1] r [of 8 8]
  have s: "strcmp_at im key (img_base im + of_nat (sh_offset im str) + ehdr_field im ?p 4)
      = Some (cstr_at (img_bytes im) (sh_offset im str + unat (ehdr_field im ?p 4)) = key)"
    using strcmp_cstr [OF assms(1) _ assms(2), of "sh_offset im str + unat (ehdr_field im ?p 4)"] Cons.prems [of i]
    by (simp add: add.assoc)
  show ?case
    using r s Cons.IH Cons.prems by (simp add: elf_symbol_def Let_def)
qed simp

lemma bit_le_value: "bit (le_value bs) n \<Longrightarrow> n < 8 * length bs"
proof (induction bs arbitrary: n)
  case (Cons b bs)
  then show ?case
    using bit_imp_le_length [of b n] by (fastforce simp: bit_or_iff bit_ucast_iff bit_push_bit_iff)
qed simp

lemma field_small: "unat (ehdr_field im pos 2) < 2 ^ 16"
proof -
  have "n < 16" if "bit (ehdr_field im pos 2) n" for n
    using bit_le_value [OF that [unfolded ehdr_field_def]] by simp
  then have "take_bit 16 (ehdr_field im pos 2) = ehdr_field im pos 2"
    by (intro bit_word_eqI) (auto simp: bit_take_bit_iff)
  then show ?thesis by (metis take_bit_nat_less_exp unsigned_take_bit_eq)
qed

text \<open>
  C15. Looking up a global symbol in a well-formed ELF image reads only inside the image and gives
  the value of the first symbol of that name with global binding, if there is one: the section
  scan picks the last symbol table and the last string table that does not hold the section names.
\<close>

theorem find_global_spec:
  assumes ok: "img_ok im" and tables: "tables_ok im" and key: "0 \<notin> set key"
  shows "elf64_find_global im key
    = Some (map_option (\<lambda>(n, b, v). v) (find (\<lambda>(n, b, v). n = key \<and> b = 1) (elf_symbols im)))"
proof -
  let ?r = "found_sections im (e_shnum im)"
  have len: "64 \<le> length (img_bytes im)" "length (img_bytes im) < 2 ^ 31" using ok by (simp_all add: img_ok_def)
  have t: "e_shoff im + (e_shstrndx im + 1) * SHDR_SIZE \<le> length (img_bytes im)"
    "e_shoff im + e_shnum im * SHDR_SIZE \<le> length (img_bytes im)" using tables by (simp_all add: tables_ok_def)
  have hdr: "img_read im (img_base im + 40) 8 = Some (of_nat (e_shoff im))"
    "img_read im (img_base im + 62) 2 = Some (of_nat (e_shstrndx im))"
    "img_read im (img_base im + 60) 2 = Some (of_nat (e_shnum im))"
    using img_read_nat [OF ok, of 40 8] img_read_nat [OF ok, of 62 2] img_read_nat [OF ok, of 60 2] len
    by (simp_all add: e_shoff_def e_shstrndx_def e_shnum_def)
  have small: "e_shnum im < 2 ^ 16" "e_shstrndx im < 2 ^ 16" unfolding e_shnum_def e_shstrndx_def by (rule field_small)+
  have c1: "\<not> img_size im < of_nat (e_shoff im) + of_nat SHDR_SIZE - 1"
  proof -
    have "unat (of_nat (e_shoff im + 63) :: u64) = e_shoff im + 63" "unat (img_size im) = length (img_bytes im)"
      using t(1) len by (simp_all add: img_size_def unsigned_of_nat take_bit_nat_eq_self del: of_nat_add)
    then show ?thesis using t(1) by (simp add: word_less_nat_alt add.commute)
  qed
  have c2: "\<not> img_base im + img_size im < img_base im + of_nat (e_shoff im) + (of_nat (e_shstrndx im) + 1) * of_nat SHDR_SIZE"
    using img_order(1) [OF ok t(1)] by (simp add: algebra_simps)
  have c3: "\<not> img_base im + img_size im < img_base im + of_nat (e_shoff im) + of_nat (e_shnum im) * of_nat SHDR_SIZE"
    using img_order(1) [OF ok t(2)] by (simp add: algebra_simps)
  have n: "unat (of_nat (e_shnum im) :: u64) = e_shnum im" using small by (simp add: unsigned_of_nat take_bit_nat_eq_self)
  have s: "scan_sections im (img_base im + of_nat (e_shoff im)) (of_nat (e_shstrndx im)) [0..<e_shnum im]
      \<lparr>symtab = 0, symtab_len = 0, strtab = 0\<rparr> = Some ?r"
    using scan_sections_found [OF ok t(2)] small by simp
  have "elf64_find_global im key =
      (if symtab ?r \<noteq> 0 \<and> strtab ?r \<noteq> 0
       then (if symtab ?r + scast (symtab_len ?r) * of_nat SYM_SIZE > img_base im + img_size im then Some None
             else scan_symbols im key (symtab ?r) (strtab ?r) [0..<nat (sint (symtab_len ?r))])
       else Some None)"
    unfolding elf64_find_global_def Let_def using hdr c1 c2 c3 n s by simp
  also have "\<dots> = Some (map_option (\<lambda>(n, b, v). v) (find (\<lambda>(n, b, v). n = key \<and> b = 1) (elf_symbols im)))"
  proof (cases "symbol_section im (e_shnum im)"; cases "string_section im (e_shnum im)")
    fix st str assume st: "symbol_section im (e_shnum im) = Some st" "string_section im (e_shnum im) = Some str"
    note ok' = tables [unfolded tables_ok_def st option.case list_all_iff]
    let ?n = "sh_size im st div SYM_SIZE"
    have n31: "?n < 2 ^ 31" and off: "sh_offset im st + ?n * SYM_SIZE \<le> length (img_bytes im)"
      using ok' len by (auto intro: order_trans)
    have sz: "sh_size im st < 2 ^ 64" using ok' len by simp
    have "of_nat (sh_size im st) div of_nat SYM_SIZE = (of_nat ?n :: u64)"
    proof -
      have "unat (of_nat (sh_size im st) :: u64) = sh_size im st" using sz by (simp add: unsigned_of_nat take_bit_nat_eq_self)
      then have "unat (of_nat (sh_size im st) div of_nat SYM_SIZE :: u64) = ?n" by (simp add: unat_div_distrib)
      from arg_cong [OF this, of "of_nat :: nat \<Rightarrow> u64"] show ?thesis by simp
    qed
    then have l: "symtab_len ?r = of_nat ?n" using n31 by (simp add: found_sections_def st unsigned_of_nat take_bit_nat_eq_self)
    have "uint (symtab_len ?r) = int ?n" using n31 by (simp add: l unsigned_of_nat take_bit_nat_eq_self)
    then have si: "sint (symtab_len ?r) = int ?n" using n31 by (simp add: sint_uint signed_take_bit_int_eq_self)
    then have sc: "scast (symtab_len ?r) = (of_nat ?n :: u64)" by (metis of_int_of_nat_eq of_int_sint)
    have tabs: "symtab ?r = img_base im + of_nat (sh_offset im st)" "strtab ?r = img_base im + of_nat (sh_offset im str)"
      by (simp_all add: found_sections_def st)
    have "sh_offset im st \<le> length (img_bytes im)" "sh_offset im str \<le> length (img_bytes im)" using ok' by simp_all
    then have "symtab ?r \<noteq> 0" "strtab ?r \<noteq> 0" unfolding tabs using img_order(2) [OF ok] by blast+
    moreover have "\<not> img_base im + img_size im < symtab ?r + scast (symtab_len ?r) * of_nat SYM_SIZE"
      using img_order(1) [OF ok off] unfolding tabs sc by (simp add: add.assoc)
    moreover have "scan_symbols im key (symtab ?r) (strtab ?r) [0..<?n]
        = Some (map_option (\<lambda>(n, b, v). v) (find (\<lambda>(n, b, v). n = key \<and> b = 1) (map (elf_symbol im st str) [0..<?n])))"
      unfolding tabs
    proof (rule scan_symbols_find [OF ok key])
      fix i assume i: "i \<in> set [0..<?n]"
      then have "Suc i * SYM_SIZE \<le> ?n * SYM_SIZE" by simp
      then have "sh_offset im st + Suc i * SYM_SIZE \<le> length (img_bytes im)" using off by linarith
      then show "sh_offset im st + Suc i * SYM_SIZE \<le> length (img_bytes im)
          \<and> 0 \<in> set (drop (sh_offset im str + unat (ehdr_field im (sh_offset im st + i * SYM_SIZE) 4)) (img_bytes im))"
        using ok' i by blast
    qed
    ultimately show ?thesis by (simp only: si nat_int if_False if_True simp_thms elf_symbols_def st option.case prod.case)
  qed (simp_all add: elf_symbols_def found_sections_def)
  finally show ?thesis .
qed

text \<open>An image with one symbol \<open>t\<close>: string table at 64, symbol table at 72, two section headers at 96.\<close>

definition elf_example :: elf_image where
  "elf_example = \<lparr>img_base = 0x10000, img_bytes =
     replicate 40 0 @ [96] @ replicate 19 0 @ [2, 0, 0, 0]
     @ [0, 116, 0, 0, 0, 0, 0, 0]
     @ [1, 0, 0, 0, 0x10, 0, 0, 0, 0, 0x10, 0, 0x80, 0, 0, 0, 0] @ replicate 8 0
     @ [0, 0, 0, 0, 2] @ replicate 19 0 @ [72] @ replicate 7 0 @ [24] @ replicate 31 0
     @ [0, 0, 0, 0, 3] @ replicate 19 0 @ [64] @ replicate 7 0 @ [8] @ replicate 31 0\<rparr>"

theorem find_global_witness:
  "elf64_find_global elf_example [116] = Some (Some 0x80001000)"
proof -
  have h: "e_shoff elf_example = 96" "e_shnum elf_example = 2" "e_shstrndx elf_example = 0" by code_simp+
  have t: "sh_type elf_example 0 = 2" "sh_type elf_example (Suc 0) = 3" by code_simp+
  have o: "sh_offset elf_example 0 = 72" "sh_offset elf_example (Suc 0) = 64" "sh_size elf_example 0 = 24" by code_simp+
  have s: "symbol_section elf_example 2 = Some 0" "string_section elf_example 2 = Some 1"
    by (simp_all add: symbol_section_def string_section_def t h numeral_2_eq_2)
  have f: "ehdr_field elf_example 72 4 = 1" "ehdr_field elf_example 76 (Suc 0) = 16" "ehdr_field elf_example 80 8 = 0x80001000"
    by code_simp+
  have c: "cstr_at (img_bytes elf_example) 65 = [116]" by (simp add: cstr_at_def elf_example_def)
  have "img_ok elf_example" by (simp add: img_ok_def elf_example_def)
  moreover have "tables_ok elf_example" using c
    by (simp add: tables_ok_def h s o f) (simp add: elf_example_def)
  moreover have "elf_symbols elf_example = [([116], 1, 0x80001000)]"
    by (simp add: elf_symbols_def h s o elf_symbol_def f c Let_def)
  ultimately show ?thesis using find_global_spec [of elf_example "[116]"] by simp
qed

text \<open>The first check can be defeated: an offset near \<open>2\<^sup>64\<close> passes it, and the scan leaves the image.\<close>

theorem find_global_unchecked:
  "elf64_find_global \<lparr>img_base = 0x10000, img_bytes = replicate 40 0 @ [0xc1, 0xff, 0xff, 0xff, 0xff, 0xff, 0xff, 0xff] @ replicate 12 0 @ [1, 0, 0, 0]\<rparr>
     (cstring ''tohost'') = None"
  by (simp add: elf64_find_global_def img_read_def img_block_def img_size_def scan_section_def Let_def)

end
