(* ===== verification/Fdt_Laws.thy ===== *)
theory Fdt_Laws
  imports Fdt
begin

text \<open>
  Laws of the flattened device tree: a reader of the format, written after the tree it should
  return, gives back from the blob of the machine exactly the tree that describes the machine.
\<close>

section \<open>Trees\<close>

text \<open>A node: its name, its properties and its children, each in order.\<close>

datatype dtree = DNode (node_name: bytes) (node_props: "(bytes \<times> bytes) list") (node_kids: "dtree list")

primrec write_tree :: "dtree \<Rightarrow> FDTState \<Rightarrow> FDTState" where
  "write_tree (DNode name props kids) s =
     fdt_end_node (fold (\<lambda>f. f) (map write_tree kids)
       (fold (\<lambda>(p, d). fdt_prop p d) props (fdt_begin_node name s)))"

section \<open>A reader\<close>

definition rd32 :: "bytes \<Rightarrow> u32" where
  "rd32 bs = push_bit 24 (ucast (bs ! 0)) OR push_bit 16 (ucast (bs ! 1)) OR push_bit 8 (ucast (bs ! 2)) OR ucast (bs ! 3)"

definition aligned4 :: "nat \<Rightarrow> nat" where "aligned4 n = (n + 3) div 4 * 4"

text \<open>The open nodes, innermost first; a closed node becomes the last child of the one around it.\<close>

fun attach :: "dtree \<Rightarrow> dtree list \<Rightarrow> dtree list" where
  "attach t (DNode n ps ks # stk) = DNode n ps (ks @ [t]) # stk"
| "attach t [] = []"

function parse_struct :: "bytes \<Rightarrow> bytes \<Rightarrow> dtree list \<Rightarrow> dtree option" where
  "parse_struct strs bs stk =
     (if length bs < 4 then None
      else let tok = rd32 bs; rest = drop 4 bs in
        if tok = FDT_BEGIN_NODE then
          (let name = cstr_at rest 0 in
           if length rest \<le> length name then None
           else parse_struct strs (drop (aligned4 (length name + 1)) rest) (DNode name [] [] # stk))
        else if tok = FDT_END_NODE then
          (case stk of t # stk' \<Rightarrow> parse_struct strs rest (attach t stk') | [] \<Rightarrow> None)
        else if tok = FDT_PROP then
          (let len = unat (rd32 rest); off = unat (rd32 (drop 4 rest)); body = drop 8 rest in
           if length rest < 8 \<or> length body < len \<or> length strs \<le> off then None
           else case stk of
               DNode n ps ks # stk' \<Rightarrow>
                 parse_struct strs (drop (aligned4 len) body)
                   (DNode n (ps @ [(cstr_at strs off, take len body)]) ks # stk')
             | [] \<Rightarrow> None)
        else if tok = FDT_END then
          (case stk of [DNode n ps [t]] \<Rightarrow> if rest = [] then Some t else None | _ \<Rightarrow> None)
        else None)"
  by pat_completeness auto

termination by (relation "measure (\<lambda>(strs, bs, stk). length bs)") auto

declare parse_struct.simps [simp del]

text \<open>The header is checked as the format prescribes: magic, size, version, and a reservation map with its end mark only.\<close>

definition read_fdt :: "bytes \<Rightarrow> dtree option" where
  "read_fdt blob =
     (let field = (\<lambda>i. unat (rd32 (drop (4 * i) blob)));
          section_at = (\<lambda>off len. take len (drop off blob)) in
      if length blob < 40 \<or> field 0 \<noteq> unat FDT_MAGIC \<or> field 1 \<noteq> length blob
         \<or> field 5 < 17 \<or> 17 < field 6 \<or> field 2 mod 4 \<noteq> 0 \<or> field 4 mod 8 \<noteq> 0
         \<or> length blob < field 2 + field 9 \<or> length blob < field 3 + field 8
         \<or> section_at (field 4) 16 \<noteq> replicate 16 0 then None
      else parse_struct (section_at (field 3) (field 8)) (section_at (field 2) (field 9)) [DNode [] [] []])"

section \<open>Words\<close>

lemma length_be32 [simp]: "length (be32 v) = 4" by (simp add: be32_def)

lemma rd32_be32 [simp]: "rd32 (be32 v @ bs) = v"
proof (rule bit_word_eqI)
  fix n assume "n < LENGTH(32)"
  then consider "n < 8" | "8 \<le> n" "n < 16" | "16 \<le> n" "n < 24" | "24 \<le> n" "n < 32" by fastforce
  then show "bit (rd32 (be32 v @ bs)) n = bit v n"
    by cases (auto simp: rd32_def be32_def bit_or_iff bit_push_bit_iff bit_ucast_iff bit_drop_bit_eq bit_unsigned_iff)
qed

lemma drop_be32 [simp]: "drop 4 (be32 v @ bs) = bs" "drop (Suc (Suc (Suc (Suc 0)))) (be32 v @ bs) = bs"
  by (simp_all add: be32_def)

lemma aligned4_ge: "n \<le> aligned4 n" unfolding aligned4_def by presburger

lemma aligned4_Suc [simp]: "aligned4 (length bs * 4) = length bs * 4" by (simp add: aligned4_def)

text \<open>Padding to a multiple of 4.\<close>

definition padded :: "bytes \<Rightarrow> bytes" where
  "padded data = data @ replicate (aligned4 (length data) - length data) 0"

lemma length_padded [simp]: "length (padded data) = aligned4 (length data)"
  by (simp add: padded_def aligned4_ge)

lemma take_padded [simp]: "take (length data) (padded data) = data"
  by (simp add: padded_def)

lemma drop_padded: "aligned4 (length data) = n \<Longrightarrow> drop n (padded data @ rest) = rest"
  by (auto simp: padded_def aligned4_ge)

lemma put_data_padded: "fdt_put_data data s = s\<lparr>tab := tab s @ padded data\<rparr>"
proof -
  have "nat ((- int n) mod 4) = aligned4 n - n" for n
  proof -
    have "int (aligned4 n - n) = (int n + 3) div 4 * 4 - int n"
      using aligned4_ge [of n] by (simp add: of_nat_diff aligned4_def zdiv_int)
    moreover have "(k + 3) div 4 * 4 - k = (- k) mod 4" for k :: int by presburger
    ultimately show ?thesis by (metis nat_int)
  qed
  then show ?thesis by (simp add: fdt_put_data_def padded_def)
qed

lemma cstr_padded: "0 \<notin> set name \<Longrightarrow> cstr_at (padded (name @ [0]) @ rest) 0 = name"
  by (auto simp: cstr_at_def padded_def takeWhile_tail)

section \<open>The string table\<close>

text \<open>A table of terminated strings.\<close>

definition terminated :: "bytes \<Rightarrow> bool" where
  "terminated t \<longleftrightarrow> t = [] \<or> last t = 0"

lemma cstr_extend:
  assumes "terminated t" and "pos < length t"
  shows "cstr_at (t @ ext) pos = cstr_at t pos"
proof -
  have "last (drop pos t) = 0" "drop pos t \<noteq> []"
    using assms by (auto simp: terminated_def last_drop)
  then have "0 \<in> set (drop pos t)" by (metis last_in_set)
  then show ?thesis using assms(2) by (simp add: cstr_at_def takeWhile_append1 [of 0])
qed

lemma find_string_Some: "find_string t name pos = Some p \<Longrightarrow> p < length t \<and> cstr_at t p = name"
  by (induction t name pos rule: find_string.induct) (subst (asm) find_string.simps, auto split: if_splits)

lemma get_string_offset:
  assumes "fdt_get_string_offset name s = (pos, s')" and "terminated (string_table s)" and "0 \<notin> set name"
  obtains sfx where "s' = s\<lparr>string_table := string_table s @ sfx\<rparr>" "terminated (string_table s @ sfx)"
    "pos < length (string_table s @ sfx)" "\<And>ext. cstr_at (string_table s @ sfx @ ext) pos = name"
    "length sfx \<le> length name + 1"
proof (cases "find_string (string_table s) name 0")
  case None
  show thesis
  proof (rule that [of "name @ [0]"])
    show "cstr_at (string_table s @ (name @ [0]) @ ext) pos = name" for ext
      using assms None by (auto simp: fdt_get_string_offset_def cstr_at_def takeWhile_tail)
  qed (use assms None in \<open>auto simp: fdt_get_string_offset_def terminated_def\<close>)
next
  case (Some p)
  from find_string_Some [OF this] show thesis
    using assms Some by (intro that [of "[]"]) (auto simp: fdt_get_string_offset_def cstr_extend)
qed

section \<open>Writing a tree\<close>

lemma put_words: "fold fdt_put32 vs s = s\<lparr>tab := tab s @ concat (map be32 vs)\<rparr>"
  by (induction vs arbitrary: s) (simp_all add: fdt_put32_def)

lemma length_words [simp]: "length (concat (map be32 vs)) = length vs * 4"
  by (induction vs) simp_all

lemma prop_tab_u32: "fdt_prop_tab_u32 p vs s = fdt_prop p (concat (map be32 vs)) s"
  by (simp add: fdt_prop_tab_u32_def fdt_prop_def put_words put_data_padded padded_def)

text \<open>
  What writing an object does: bytes are appended to both blocks, at most \<open>l\<close> of them to the
  table and \<open>k\<close> to the structure, and in any table that extends the new one a reader goes on
  behind the bytes with the innermost open node changed by \<open>g\<close>.
\<close>

definition wrote :: "(dtree \<Rightarrow> dtree) \<Rightarrow> nat \<Rightarrow> nat \<Rightarrow> bytes \<Rightarrow> bytes \<Rightarrow> bytes \<Rightarrow> bool" where
  "wrote g k l t sfx bs \<longleftrightarrow> terminated (t @ sfx) \<and> length bs = k \<and> length sfx \<le> l
     \<and> (length (t @ sfx) < 2 ^ 32 \<longrightarrow> (\<forall>ext rest nd stk.
          parse_struct (t @ sfx @ ext) (bs @ rest) (nd # stk) = parse_struct (t @ sfx @ ext) rest (g nd # stk)))"

definition writes :: "(FDTState \<Rightarrow> FDTState) \<Rightarrow> (dtree \<Rightarrow> dtree) \<Rightarrow> nat \<Rightarrow> nat \<Rightarrow> bool" where
  "writes w g k l \<longleftrightarrow> (\<forall>s. terminated (string_table s) \<longrightarrow>
     (\<exists>bs sfx. w s = s\<lparr>tab := tab s @ bs, string_table := string_table s @ sfx\<rparr>
        \<and> wrote g k l (string_table s) sfx bs))"

lemma writes_comp:
  assumes "writes w g k l" and "writes w' g' k' l'"
  shows "writes (w' \<circ> w) (g' \<circ> g) (k + k') (l + l')"
  unfolding writes_def
proof (intro allI impI)
  fix s :: FDTState
  assume "terminated (string_table s)"
  then obtain bs sfx where a: "w s = s\<lparr>tab := tab s @ bs, string_table := string_table s @ sfx\<rparr>"
    "wrote g k l (string_table s) sfx bs" using assms(1) unfolding writes_def by blast
  moreover from this have "terminated (string_table (w s))" by (simp add: wrote_def)
  ultimately obtain bs' sfx' where b: "w' (w s) = (w s)\<lparr>tab := tab (w s) @ bs', string_table := string_table (w s) @ sfx'\<rparr>"
    "wrote g' k' l' (string_table s @ sfx) sfx' bs'" using assms(2) unfolding writes_def by fastforce
  show "\<exists>bs sfx. (w' \<circ> w) s = s\<lparr>tab := tab s @ bs, string_table := string_table s @ sfx\<rparr>
        \<and> wrote (g' \<circ> g) (k + k') (l + l') (string_table s) sfx bs"
    using a b by (intro exI [of _ "bs @ bs'"] exI [of _ "sfx @ sfx'"]) (simp add: wrote_def)
qed

lemma writes_id: "writes id id 0 0"
  unfolding writes_def wrote_def by (auto intro!: exI [of _ "[]"])

lemma writes_fold:
  assumes "\<And>x. x \<in> set xs \<Longrightarrow> writes (w x) (g x) (k x) (l x)"
  shows "writes (fold w xs) (fold g xs) (sum_list (map k xs)) (sum_list (map l xs))"
  using assms by (induction xs) (simp_all add: writes_id writes_comp)

fun add_prop :: "bytes \<times> bytes \<Rightarrow> dtree \<Rightarrow> dtree" where
  "add_prop pd (DNode n ps ks) = DNode n (ps @ [pd]) ks"

fun add_kid :: "dtree \<Rightarrow> dtree \<Rightarrow> dtree" where
  "add_kid t (DNode n ps ks) = DNode n ps (ks @ [t])"

lemma add_props: "fold add_prop pds (DNode n ps ks) = DNode n (ps @ pds) ks"
  by (induction pds arbitrary: ps) simp_all

lemma add_kids: "fold add_kid ts (DNode n ps ks) = DNode n ps (ks @ ts)"
  by (induction ts arbitrary: ks) simp_all

lemma attach_top: "attach t (nd # stk) = add_kid t nd # stk" by (cases nd) simp

lemma unat_of_small: "n < 2 ^ 32 \<Longrightarrow> unat (of_nat n :: u32) = n"
  by (simp add: unsigned_of_nat take_bit_nat_eq_self)

lemma parse_prop:
  assumes "length data < 2 ^ 32" and "pos < length strs" and "pos < 2 ^ 32" and "cstr_at strs pos = p"
  shows "parse_struct strs ((be32 FDT_PROP @ be32 (of_nat (length data)) @ be32 (of_nat pos) @ padded data) @ rest) (nd # stk)
    = parse_struct strs rest (add_prop (p, data) nd # stk)"
proof -
  have "drop 8 (be32 a @ be32 b @ xs) = xs" for a b and xs by (simp add: be32_def)
  then show ?thesis
    using assms aligned4_ge [of "length data"]
    by (subst parse_struct.simps, cases nd) (simp add: unat_of_small drop_padded Let_def)
qed

lemma parse_begin:
  assumes "0 \<notin> set name"
  shows "parse_struct strs ((be32 FDT_BEGIN_NODE @ padded (name @ [0])) @ rest) stk
    = parse_struct strs rest (DNode name [] [] # stk)"
  using assms aligned4_ge [of "length name + 1"]
  by (subst parse_struct.simps) (simp add: cstr_padded drop_padded Let_def)

lemma parse_end: "parse_struct strs (be32 FDT_END_NODE @ rest) (t # nd # stk) = parse_struct strs rest (add_kid t nd # stk)"
  by (subst parse_struct.simps) (simp add: attach_top)

lemma writes_prop:
  assumes "0 \<notin> set p" and "length data < 2 ^ 32"
  shows "writes (fdt_prop p data) (add_prop (p, data)) (12 + aligned4 (length data)) (length p + 1)"
  unfolding writes_def
proof (intro allI impI)
  fix s :: FDTState
  assume t: "terminated (string_table s)"
  let ?s = "fdt_put32 (of_nat (length data)) (fdt_put32 FDT_PROP s)"
  obtain pos s' where g: "fdt_get_string_offset p ?s = (pos, s')" by force
  moreover have "terminated (string_table ?s)" using t by (simp add: fdt_put32_def)
  ultimately obtain sfx where s': "s' = ?s\<lparr>string_table := string_table ?s @ sfx\<rparr>" "terminated (string_table ?s @ sfx)"
    "pos < length (string_table ?s @ sfx)" "\<And>ext. cstr_at (string_table ?s @ sfx @ ext) pos = p" "length sfx \<le> length p + 1"
    using get_string_offset assms(1) by blast
  have st: "string_table ?s = string_table s" by (simp add: fdt_put32_def)
  let ?bs = "be32 FDT_PROP @ be32 (of_nat (length data)) @ be32 (of_nat pos) @ padded data"
  have "fdt_prop p data s = s\<lparr>tab := tab s @ ?bs, string_table := string_table s @ sfx\<rparr>"
    by (simp add: fdt_prop_def fdt_prop_head_def g put_data_padded s'(1)) (simp add: fdt_put32_def)
  moreover have "wrote (add_prop (p, data)) (12 + aligned4 (length data)) (length p + 1) (string_table s) sfx ?bs"
    unfolding wrote_def using s'(2-5) assms(2) unfolding st
    by (intro conjI impI allI parse_prop) simp_all
  ultimately show "\<exists>bs sfx. fdt_prop p data s = s\<lparr>tab := tab s @ bs, string_table := string_table s @ sfx\<rparr>
      \<and> wrote (add_prop (p, data)) (12 + aligned4 (length data)) (length p + 1) (string_table s) sfx bs" by blast
qed

lemma writes_node:
  assumes "writes body g k l" and "0 \<notin> set name"
  shows "writes (\<lambda>s. fdt_end_node (body (fdt_begin_node name s))) (add_kid (g (DNode name [] [])))
    (8 + aligned4 (length name + 1) + k) l"
  unfolding writes_def
proof (intro allI impI)
  fix s :: FDTState
  assume t: "terminated (string_table s)"
  let ?s = "fdt_begin_node name s"
  have s: "?s = s\<lparr>tab := tab s @ be32 FDT_BEGIN_NODE @ padded (name @ [0]), open_node_count := open_node_count s + 1\<rparr>"
    by (simp add: fdt_begin_node_def put_data_padded fdt_put32_def)
  then have "terminated (string_table ?s)" "string_table ?s = string_table s" using t by simp_all
  then obtain bs sfx where b: "body ?s = ?s\<lparr>tab := tab ?s @ bs, string_table := string_table ?s @ sfx\<rparr>"
    and w: "wrote g k l (string_table s) sfx bs" using assms(1) unfolding writes_def by metis
  let ?bs = "(be32 FDT_BEGIN_NODE @ padded (name @ [0])) @ bs @ be32 FDT_END_NODE"
  have e: "fdt_end_node (body ?s) = s\<lparr>tab := tab s @ ?bs, string_table := string_table s @ sfx\<rparr>"
    unfolding b by (simp add: fdt_end_node_def fdt_put32_def s)
  have "parse_struct T (?bs @ rest) (nd # stk) = parse_struct T rest (add_kid (g (DNode name [] [])) nd # stk)"
    if "T = string_table s @ sfx @ ext" "length (string_table s @ sfx) < 2 ^ 32" for T ext rest nd stk
  proof -
    have "parse_struct T (?bs @ rest) (nd # stk) = parse_struct T (bs @ be32 FDT_END_NODE @ rest) (DNode name [] [] # nd # stk)"
      using parse_begin [OF assms(2), of T "bs @ be32 FDT_END_NODE @ rest"] by simp
    also have "\<dots> = parse_struct T (be32 FDT_END_NODE @ rest) (g (DNode name [] []) # nd # stk)"
      using w that unfolding wrote_def by blast
    finally show ?thesis unfolding parse_end .
  qed
  then have "wrote (add_kid (g (DNode name [] []))) (8 + aligned4 (length name + 1) + k) l (string_table s) sfx ?bs"
    using w unfolding wrote_def by simp
  with e show "\<exists>bs sfx. fdt_end_node (body ?s) = s\<lparr>tab := tab s @ bs, string_table := string_table s @ sfx\<rparr>
      \<and> wrote (add_kid (g (DNode name [] []))) (8 + aligned4 (length name + 1) + k) l (string_table s) sfx bs" by blast
qed

text \<open>Names without a zero byte and data whose length fits the length word.\<close>

fun good_prop :: "bytes \<times> bytes \<Rightarrow> bool" where
  "good_prop (p, d) \<longleftrightarrow> 0 \<notin> set p \<and> length d < 2 ^ 32"

primrec good_tree :: "dtree \<Rightarrow> bool" where
  "good_tree (DNode name props kids) \<longleftrightarrow>
     0 \<notin> set name \<and> list_all good_prop props \<and> list_all id (map good_tree kids)"

text \<open>The bytes of the structure block, and a bound for those of the string table.\<close>

primrec struct_size :: "dtree \<Rightarrow> nat" where
  "struct_size (DNode name props kids) =
     8 + aligned4 (length name + 1)
     + (sum_list (map (\<lambda>(p, d). 12 + aligned4 (length d)) props) + sum_list (map struct_size kids))"

primrec names_size :: "dtree \<Rightarrow> nat" where
  "names_size (DNode name props kids) =
     sum_list (map (\<lambda>(p, d). length p + 1) props) + sum_list (map names_size kids)"

lemma writes_tree: "good_tree t \<Longrightarrow> writes (write_tree t) (add_kid t) (struct_size t) (names_size t)"
proof (induction t)
  case (DNode name props kids)
  have "writes (fold write_tree kids \<circ> fold (\<lambda>(p, d). fdt_prop p d) props) (fold add_kid kids \<circ> fold add_prop props)
    (sum_list (map (\<lambda>(p, d). 12 + aligned4 (length d)) props) + sum_list (map struct_size kids))
    (sum_list (map (\<lambda>(p, d). length p + 1) props) + sum_list (map names_size kids))"
  proof (intro writes_comp writes_fold)
    fix x assume "x \<in> set props"
    then have "good_prop x" using DNode.prems by (simp add: list_all_iff)
    then show "writes (case x of (p, d) \<Rightarrow> fdt_prop p d) (add_prop x) (case x of (p, d) \<Rightarrow> 12 + aligned4 (length d))
        (case x of (p, d) \<Rightarrow> length p + 1)"
      by (cases x) (simp only: good_prop.simps prod.case, blast intro: writes_prop)
  qed (use DNode in \<open>simp add: list_all_iff\<close>)
  moreover have "0 \<notin> set name" using DNode.prems by simp
  ultimately show ?case
    by (auto simp: add_props add_kids fold_map comp_def fun_eq_iff dest: writes_node)
qed

section \<open>The blob\<close>

lemma pad8_mult: "(n + length (pad8 n)) mod 8 = 0"
proof -
  have "int (nat ((- int n) mod 8)) = (- int n) mod 8" by simp
  then have "(int n + int (length (pad8 n))) mod 8 = (int n + (- int n) mod 8) mod 8" by (simp add: pad8_def)
  also have "\<dots> = 0" by (simp add: mod_add_right_eq)
  finally show ?thesis by (metis of_nat_add of_nat_eq_0_iff of_nat_numeral zmod_int)
qed

lemma length_pad8: "length (pad8 n) < 8"
  by (simp add: pad8_def nat_less_iff)

lemma header_field:
  "rd32 (drop (4 * i) (concat (map be32 vs) @ rest)) = vs ! i" if "i < length vs"
  using that
proof (induction vs arbitrary: i)
  case (Cons v vs)
  then show ?case by (cases i) simp_all
qed simp

lemma parse_finish: "parse_struct strs (be32 FDT_END) [DNode [] [] [t]] = Some t"
  using rd32_be32 [of FDT_END "[]"] by (subst parse_struct.simps) simp

text \<open>The blob of a tree that was written from scratch, and what a reader makes of it.\<close>

lemma output_tree:
  assumes "good_tree t"
  obtains blob where "fdt_output (write_tree t fdt_init) = Some blob"
    "length blob \<le> 74 + struct_size t + names_size t" "struct_size t < length blob"
    "length blob < 2 ^ 32 \<Longrightarrow> read_fdt blob = Some t"
proof -
  let ?s = "write_tree t fdt_init"
  have "terminated (string_table fdt_init)" by (simp add: fdt_init_def terminated_def)
  then obtain bs sfx where "?s = fdt_init\<lparr>tab := tab fdt_init @ bs, string_table := string_table fdt_init @ sfx\<rparr>"
    and w: "wrote (add_kid t) (struct_size t) (names_size t) (string_table fdt_init) sfx bs"
    using writes_tree [OF assms] unfolding writes_def by blast
  then have s: "?s = \<lparr>tab = bs, open_node_count = 0, string_table = sfx\<rparr>" by (simp add: fdt_init_def)
  define body where "body = bs @ be32 FDT_END"
  define a where "a = 40 + length body + length (pad8 (40 + length body))"
  define z where "z = pad8 (a + 16 + length sfx)"
  define hdr where "hdr = fdt_header (a + 16 + length sfx + length z) 40 (a + 16) a (length sfx) (length body)"
  define blob where "blob = hdr @ body @ pad8 (40 + length body) @ replicate 16 0 @ sfx @ z"
  have h40: "length hdr = 40" by (simp add: hdr_def fdt_header_def)
  have l: "length blob = a + 16 + length sfx + length z" by (simp add: blob_def h40 a_def)
  have "fdt_output ?s = Some blob"
    unfolding fdt_output_def s Let_def
    by (simp add: fdt_put32_def blob_def hdr_def z_def a_def body_def ac_simps)
  moreover have "length blob \<le> 74 + struct_size t + names_size t" "struct_size t < length blob"
    using w length_pad8 [of "40 + length body"] length_pad8 [of "a + 16 + length sfx"]
    unfolding l by (simp_all add: wrote_def z_def a_def body_def)
  moreover have "read_fdt blob = Some t" if small: "length blob < 2 ^ 32"
  proof -
    let ?n = "a + 16 + length sfx + length z"
    let ?vs = "[FDT_MAGIC, of_nat ?n, of_nat 40, of_nat (a + 16), of_nat a, FDT_VERSION, 16, 0,
      of_nat (length sfx), of_nat (length body)] :: u32 list"
    have f: "unat (rd32 (drop (4 * i) blob)) = unat (?vs ! i)" if "i < 10" for i
      unfolding blob_def hdr_def fdt_header_def by (subst header_field) (use that in simp_all)
    have st: "take (length sfx) (drop (a + 16) blob) = sfx" "take 16 (drop a blob) = replicate 16 0"
      "take (length body) (drop 40 blob) = body"
      by (simp_all add: blob_def h40 a_def)
    have a8: "a mod 8 = 0" unfolding a_def by (rule pad8_mult)
    have lt: "length sfx < 2 ^ 32" "a + 16 < 2 ^ 32" "length body < 2 ^ 32" using small unfolding l by (simp_all add: a_def)
    have p: "parse_struct sfx body [DNode [] [] []] = Some t"
    proof -
      have "length (string_table fdt_init @ sfx) < 2 ^ 32" using lt(1) by (simp add: fdt_init_def)
      then have "parse_struct (string_table fdt_init @ sfx @ []) (bs @ be32 FDT_END) [DNode [] [] []]
          = parse_struct (string_table fdt_init @ sfx @ []) (be32 FDT_END) [add_kid t (DNode [] [] [])]"
        using w unfolding wrote_def by blast
      then show ?thesis by (simp add: body_def fdt_init_def parse_finish)
    qed
    have w32: "unat (of_nat ?n :: u32) = ?n" "unat (of_nat (a + 16) :: u32) = a + 16" "unat (of_nat a :: u32) = a"
      "unat (of_nat (length sfx) :: u32) = length sfx" "unat (of_nat (length body) :: u32) = length body"
      using small lt unfolding l by (simp_all only: unat_of_small)
    have "unat (rd32 blob) = unat FDT_MAGIC" "unat (rd32 (drop 4 blob)) = ?n" "unat (rd32 (drop 8 blob)) = 40"
      "unat (rd32 (drop 12 blob)) = a + 16" "unat (rd32 (drop 16 blob)) = a" "unat (rd32 (drop 20 blob)) = 17"
      "unat (rd32 (drop 24 blob)) = 16" "unat (rd32 (drop 32 blob)) = length sfx" "unat (rd32 (drop 36 blob)) = length body"
      using f [of 0] f [of 1] f [of 2] f [of 3] f [of 4] f [of 5] f [of 6] f [of 8] f [of 9] w32 unat_of_small [of 40]
      by (simp_all del: of_nat_add of_nat_numeral)
    then show ?thesis
      unfolding read_fdt_def Let_def using st p a8 by (simp add: l a_def)
  qed
  ultimately show thesis by (rule that)
qed

section \<open>The tree of the machine\<close>

text \<open>Properties: a string, a list of strings, a list of words, nothing.\<close>

definition p_str :: "string \<Rightarrow> bytes \<Rightarrow> bytes \<times> bytes" where "p_str p s = (cstring p, s @ [0])"
definition p_strs :: "string \<Rightarrow> bytes list \<Rightarrow> bytes \<times> bytes" where
  "p_strs p ss = (cstring p, concat (map (\<lambda>s. s @ [0]) ss))"
definition p_words :: "string \<Rightarrow> u32 list \<Rightarrow> bytes \<times> bytes" where "p_words p vs = (cstring p, concat (map be32 vs))"
definition p_flag :: "string \<Rightarrow> bytes \<times> bytes" where "p_flag p = (cstring p, [])"

definition unit_name :: "string \<Rightarrow> u64 \<Rightarrow> bytes" where
  "unit_name name n = cstring name @ [64] @ hex_digits (unat n)"

definition cpu_tree :: "RISCVMachine \<Rightarrow> nat \<Rightarrow> dtree" where
  "cpu_tree m i = DNode (unit_name ''cpu'' (of_nat i))
     [p_str ''device_type'' (cstring ''cpu''), p_words ''reg'' [of_nat i], p_str ''status'' (cstring ''okay''),
      p_str ''compatible'' (cstring ''riscv''), p_str ''riscv,isa'' (isa_string (misa (cpu_state m i))),
      p_str ''mmu-type'' (cstring ''riscv,sv48''), p_words ''clock-frequency'' [2000000000]]
     [DNode (cstring ''interrupt-controller'')
       [p_words ''#interrupt-cells'' [1], p_flag ''interrupt-controller'',
        p_str ''compatible'' (cstring ''riscv,cpu-intc''),
        p_words ''phandle'' [of_nat (i + 1)], p_words ''linux,phandle'' [of_nat (i + 1)]] []]"

definition clint_tree :: "RISCVMachine \<Rightarrow> dtree" where
  "clint_tree m = DNode (unit_name ''clint'' (clint_base_addr m))
     [p_str ''compatible'' (cstring ''riscv,clint0''), p_words ''interrupts-extended'' (hart_interrupts m 3 7),
      p_words ''reg'' (split64 (clint_base_addr m) @ split64 (clint_size m))] []"

definition plic_tree :: "RISCVMachine \<Rightarrow> dtree" where
  "plic_tree m = DNode (unit_name ''plic'' (plic_base_addr m))
     [p_words ''#interrupt-cells'' [1], p_flag ''interrupt-controller'', p_str ''compatible'' (cstring ''riscv,plic0''),
      p_words ''riscv,ndev'' [31], p_words ''reg'' (split64 (plic_base_addr m) @ split64 (plic_size m)),
      p_words ''interrupts-extended'' (hart_interrupts m 9 11), p_words ''phandle'' [of_nat (ncpus m + 1)]] []"

definition virtio_tree :: "RISCVMachine \<Rightarrow> nat \<Rightarrow> dtree" where
  "virtio_tree m i =
     (let base = VIRTIO_BASE_ADDR + of_nat i * VIRTIO_SIZE in
      DNode (unit_name ''virtio'' base)
        [p_str ''compatible'' (cstring ''virtio,mmio''), p_words ''reg'' (split64 base @ split64 VIRTIO_SIZE),
         p_words ''interrupts-extended'' [of_nat (ncpus m + 1), VIRTIO_IRQ + of_nat i]] [])"

definition uart_trees :: "dtree list" where
  "uart_trees =
     [DNode (unit_name ''uart'' 0x54000000)
       [p_str ''compatible'' (cstring ''sifive,uart0''), p_words ''reg'' (split64 0x54000000 @ split64 32)] [],
      DNode (unit_name ''uart'' 0x12002000)
       [p_str ''compatible'' (cstring ''ns16550''), p_words ''reg'' (split64 0x12002000 @ split64 0x1000),
        p_words ''reg-shift'' [2], p_words ''reg-io-width'' [4]] []]"

definition framebuffer_tree :: "FBDevice \<Rightarrow> dtree" where
  "framebuffer_tree fb = DNode (unit_name ''framebuffer'' FRAMEBUFFER_BASE_ADDR)
     [p_str ''compatible'' (cstring ''simple-framebuffer''),
      p_words ''reg'' (split64 FRAMEBUFFER_BASE_ADDR @ split64 (fb_size fb)), p_words ''width'' [fb_width fb],
      p_words ''height'' [fb_height fb], p_words ''stride'' [fb_stride fb], p_str ''format'' (cstring ''a8r8g8b8'')] []"

definition chosen_tree :: "bytes option \<Rightarrow> u64 \<Rightarrow> u64 \<Rightarrow> dtree" where
  "chosen_tree cmd_line initrd_start initrd_end = DNode (cstring ''chosen'')
     (p_str ''bootargs'' (case cmd_line of None \<Rightarrow> [] | Some c \<Rightarrow> c)
      # (if initrd_start \<noteq> 0 \<and> initrd_start < initrd_end
         then [p_words ''linux,initrd-start'' (split64 initrd_start), p_words ''linux,initrd-end'' (split64 initrd_end)]
         else [])) []"

definition machine_tree :: "RISCVMachine \<Rightarrow> nat \<Rightarrow> FBDevice option \<Rightarrow> bytes option \<Rightarrow> u64 \<Rightarrow> u64 \<Rightarrow> dtree" where
  "machine_tree m virtio_count fb cmd_line initrd_start initrd_end =
     DNode []
       [p_words ''#address-cells'' [2], p_words ''#size-cells'' [2],
        p_str ''compatible'' (cstring ''ucbbar,dromajo-bar_dev''), p_str ''model'' (cstring ''ucbbar,dromajo-bare'')]
       [DNode (cstring ''cpus'')
          [p_words ''#address-cells'' [1], p_words ''#size-cells'' [0], p_words ''timebase-frequency'' [10000000]]
          (map (cpu_tree m) [0..<ncpus m]),
        DNode (unit_name ''memory'' (ram_base_addr m))
          [p_str ''device_type'' (cstring ''memory''),
           p_words ''reg'' (split64 (ram_base_addr m) @ split64 (ram_size m))] [],
        DNode (cstring ''soc'')
          [p_words ''#address-cells'' [2], p_words ''#size-cells'' [2],
           p_strs ''compatible'' [cstring ''ucbbar,dromajo-bar-soc'', cstring ''simple-bus''], p_flag ''ranges'']
          ([clint_tree m, plic_tree m] @ map (virtio_tree m) [0..<virtio_count] @ uart_trees
            @ map framebuffer_tree (case fb of None \<Rightarrow> [] | Some d \<Rightarrow> [d])),
        chosen_tree cmd_line initrd_start initrd_end]"

subsection \<open>The code writes the tree\<close>

lemma length_hex_digits: "0 < k \<Longrightarrow> n < 16 ^ k \<Longrightarrow> length (hex_digits n) \<le> k"
proof (induction k arbitrary: n)
  case (Suc k)
  show ?case
  proof (cases "n < 16")
    case True
    then show ?thesis by (simp add: hex_digits.simps)
  next
    case False
    then have "0 < k" using Suc.prems by (cases k) auto
    moreover have "n div 16 < 16 ^ k" using Suc.prems by (simp add: less_mult_imp_div_less mult.commute)
    ultimately have "length (hex_digits (n div 16)) \<le> k" by (rule Suc.IH)
    then show ?thesis using False by (simp add: hex_digits.simps [of n])
  qed
qed simp

lemma length_hex64: "length (hex_digits (unat (n :: u64))) \<le> 16"
  using length_hex_digits [of 16 "unat n"] unsigned_less [of n, where 'a = nat] by simp

lemma length_cstring [simp]: "length (cstring cs) = length cs" by (simp add: cstring_def)

lemma begin_node_num: "length name < 200 \<Longrightarrow> fdt_begin_node_num (cstring name) n = fdt_begin_node (unit_name name n)"
  using length_hex64 [of n] by (intro ext) (simp add: fdt_begin_node_num_def unit_name_def)

lemmas fdt_props = fdt_prop_str_def fdt_prop_tab_str_def fdt_prop_u32_def fdt_prop_u64_def fdt_prop_tab_u64_2_def
  p_str_def p_strs_def p_words_def p_flag_def

lemma prop_words: "fdt_prop_tab_u32 p vs = fdt_prop p (concat (map be32 vs))"
  by (rule ext) (rule prop_tab_u32)

lemma device_nodes:
  "fdt_cpu m i = write_tree (cpu_tree m i)" "fdt_clint m = write_tree (clint_tree m)" "fdt_plic m = write_tree (plic_tree m)"
  "fdt_virtio m i = write_tree (virtio_tree m i)" "fdt_framebuffer d = write_tree (framebuffer_tree d)"
  "fdt_chosen c a b = write_tree (chosen_tree c a b)" "fdt_uarts s = fold write_tree uart_trees s"
  by (simp_all add: fun_eq_iff fdt_cpu_def cpu_tree_def fdt_clint_def clint_tree_def fdt_plic_def plic_tree_def
      fdt_virtio_def virtio_tree_def fdt_framebuffer_def framebuffer_tree_def fdt_chosen_def chosen_tree_def
      fdt_uarts_def uart_trees_def steps_def begin_node_num fdt_props prop_words Let_def)

lemma fold_id_map: "fold (\<lambda>f. f) (map f xs) s = fold f xs s"
  by (induction xs arbitrary: s) simp_all

lemma machine_node: "fdt_machine m v fb c a b = write_tree (machine_tree m v fb c a b)"
proof (rule ext)
  fix s
  have [simp]: "map (fdt_cpu m) = map (write_tree \<circ> cpu_tree m)" "map (fdt_virtio m) = map (write_tree \<circ> virtio_tree m)"
    by (simp_all add: device_nodes fun_eq_iff)
  show "fdt_machine m v fb c a b s = write_tree (machine_tree m v fb c a b) s"
    by (cases fb) (simp_all add: fdt_machine_def machine_tree_def steps_def begin_node_num fdt_props prop_words
        device_nodes fold_id_map fold_map comp_def)
qed

subsection \<open>The tree is well formed and of bounded size\<close>

lemma of_char_zero: "of_char c = (0 :: u8) \<longleftrightarrow> c = CHR 0x00"
proof
  have "of_char c < (256 :: nat)" by simp
  then have "unat (of_nat (of_char c) :: u8) = of_char c"
    by (simp add: unsigned_of_nat take_bit_nat_eq_self)
  moreover assume "of_char c = (0 :: u8)"
  ultimately have "of_char c = (of_char (CHR 0x00) :: nat)" by (simp add: of_nat_of_char)
  then show "c = CHR 0x00" by (simp only: of_char_eq_iff)
qed simp

lemma zero_cstring [simp]: "0 \<in> set (cstring cs) \<longleftrightarrow> CHR 0x00 \<in> set cs"
  by (auto simp: cstring_def of_char_zero image_iff)

lemma zero_hex_digits [simp]: "0 \<notin> set (hex_digits n)"
proof (induction n rule: hex_digits.induct)
  case (1 n)
  have "hex_digit d \<noteq> 0" if "d < 16" for d
  proof -
    have "unat (hex_digit d) \<noteq> 0" using that by (simp add: hex_digit_def unsigned_of_nat take_bit_nat_eq_self del: of_nat_add)
    then show ?thesis by auto
  qed
  then show ?case using 1 by (subst hex_digits.simps) auto
qed

lemma unit_name_good [simp]: "0 \<in> set (unit_name name n) \<longleftrightarrow> CHR 0x00 \<in> set name"
  by (auto simp: unit_name_def)

lemma unit_name_length: "length (unit_name name n) \<le> length name + 17"
  using length_hex64 [of n] by (simp add: unit_name_def)

lemma prop_simps [simp]:
  "good_prop (p_str p s) \<longleftrightarrow> CHR 0x00 \<notin> set p \<and> length s + 1 < 2 ^ 32"
  "good_prop (p_words p vs) \<longleftrightarrow> CHR 0x00 \<notin> set p \<and> length vs * 4 < 2 ^ 32"
  "good_prop (p_flag p) \<longleftrightarrow> CHR 0x00 \<notin> set p"
  "good_prop (p_strs p ss) \<longleftrightarrow> CHR 0x00 \<notin> set p \<and> length (concat (map (\<lambda>s. s @ [0 :: u8]) ss)) < 2 ^ 32"
  by (simp_all add: p_str_def p_words_def p_flag_def p_strs_def)

lemma length_interrupts [simp]: "length (hart_interrupts m a b) = 4 * ncpus m"
  unfolding hart_interrupts_def by (induction "ncpus m") (simp_all add: length_concat comp_def sum_list_triv)

lemma length_split64 [simp]: "length (split64 v) = 2" by (simp add: split64_def)

lemma length_isa_string: "length (isa_string isa) \<le> 30"
  unfolding isa_string_def using length_filter_le [of _ "[0..<26]"] by simp

lemma device_trees_good [simp]:
  "good_tree (cpu_tree m i)" "ncpus m \<le> MAX_CPUS \<Longrightarrow> good_tree (clint_tree m)" "ncpus m \<le> MAX_CPUS \<Longrightarrow> good_tree (plic_tree m)"
  "good_tree (virtio_tree m i)" "list_all good_tree uart_trees" "good_tree (framebuffer_tree d)"
  "length (case c of None \<Rightarrow> [] | Some c \<Rightarrow> c) < 2 ^ 31 \<Longrightarrow> good_tree (chosen_tree c a b)"
  using length_isa_string [of "misa (cpu_state m i)"]
  by (simp_all add: cpu_tree_def clint_tree_def plic_tree_def virtio_tree_def uart_trees_def framebuffer_tree_def
      chosen_tree_def Let_def)

lemma machine_tree_good:
  assumes "ncpus m \<le> MAX_CPUS" and "length (case c of None \<Rightarrow> [] | Some c \<Rightarrow> c) < 2 ^ 31"
  shows "good_tree (machine_tree m v fb c a b)"
  using assms by (cases fb) (simp_all add: machine_tree_def list.pred_map list.pred_True comp_def)

lemma aligned4_le: "aligned4 n \<le> n + 3" unfolding aligned4_def by presburger

text \<open>A bound for both blocks together that needs no padding.\<close>

primrec weight :: "dtree \<Rightarrow> nat" where
  "weight (DNode name props kids) =
     12 + length name + sum_list (map (\<lambda>(p, d). 16 + length p + length d) props) + sum_list (map weight kids)"

lemma weight: "struct_size t + names_size t \<le> weight t"
proof (induction t)
  case (DNode name props kids)
  have p: "sum_list (map (\<lambda>(p, d). 12 + aligned4 (length d)) props) + sum_list (map (\<lambda>(p, d). length p + 1) props)
      \<le> sum_list (map (\<lambda>(p, d). 16 + length p + length d) (props :: (bytes \<times> bytes) list))"
  proof (induction props)
    case (Cons pd props)
    then show ?case using aligned4_le [of "length (snd pd)"] by (simp add: split_beta)
  qed simp
  from DNode have "sum_list (map struct_size kids) + sum_list (map names_size kids) \<le> sum_list (map weight kids)"
    by (induction kids) fastforce+
  then show ?case using p aligned4_le [of "length name + 1"] by simp
qed

lemma prop_weight [simp]:
  "(case p_str p s of (p, d) \<Rightarrow> 16 + length p + length d) = 17 + length p + length s"
  "(case p_words p vs of (p, d) \<Rightarrow> 16 + length p + length d) = 16 + length p + length vs * 4"
  "(case p_flag p of (p, d) \<Rightarrow> 16 + length p + length d) = 16 + length p"
  "(case p_strs p ss of (p, d) \<Rightarrow> 16 + length p + length d) = 16 + length p + length (concat (map (\<lambda>s. s @ [0 :: u8]) ss))"
  by (simp_all add: p_str_def p_words_def p_flag_def p_strs_def)

lemma device_weights:
  "weight (cpu_tree m i) \<le> 500" "weight (clint_tree m) \<le> 180 + 16 * ncpus m" "weight (plic_tree m) \<le> 280 + 16 * ncpus m"
  "weight (virtio_tree m i) \<le> 190" "sum_list (map weight uart_trees) \<le> 350" "weight (framebuffer_tree d) \<le> 260"
  "weight (chosen_tree c a b) \<le> 150 + length (case c of None \<Rightarrow> [] | Some c \<Rightarrow> c)"
  using length_isa_string [of "misa (cpu_state m i)"] unit_name_length [of "''cpu''" "of_nat i"]
    unit_name_length [of "''clint''" "clint_base_addr m"] unit_name_length [of "''plic''" "plic_base_addr m"]
    unit_name_length [of "''virtio''" "VIRTIO_BASE_ADDR + of_nat i * VIRTIO_SIZE"] unit_name_length [of "''uart''" "0x54000000"]
    unit_name_length [of "''uart''" "0x12002000"] unit_name_length [of "''framebuffer''" FRAMEBUFFER_BASE_ADDR]
  by (simp_all add: cpu_tree_def clint_tree_def plic_tree_def virtio_tree_def uart_trees_def framebuffer_tree_def
      chosen_tree_def Let_def)

lemma sum_bounded: "(\<And>x. f x \<le> k) \<Longrightarrow> sum_list (map f xs) \<le> length xs * (k :: nat)"
proof (induction xs)
  case (Cons x xs)
  then show ?case by (simp add: add_mono)
qed simp

lemma machine_weight:
  "weight (machine_tree m v fb c a b) \<le> 2300 + 532 * ncpus m + 190 * v + length (case c of None \<Rightarrow> [] | Some c \<Rightarrow> c)"
proof -
  have "sum_list (map (weight \<circ> cpu_tree m) [0..<ncpus m]) \<le> ncpus m * 500"
    using sum_bounded [of "weight \<circ> cpu_tree m" 500 "[0..<ncpus m]"] device_weights(1) by simp
  moreover have "sum_list (map (weight \<circ> virtio_tree m) [0..<v]) \<le> v * 190"
    using sum_bounded [of "weight \<circ> virtio_tree m" 190 "[0..<v]"] device_weights(4) by simp
  moreover have "sum_list (map (weight \<circ> framebuffer_tree) (case fb of None \<Rightarrow> [] | Some d \<Rightarrow> [d])) \<le> 260"
    using device_weights(6) by (cases fb) simp_all
  ultimately show ?thesis
    using device_weights(2,3) [of m] device_weights(5) device_weights(7) [of c a b] unit_name_length [of "''memory''" "ram_base_addr m"]
    by (simp add: machine_tree_def)
qed

text \<open>The command line alone is shorter than the blob.\<close>

lemma machine_struct_size: "length (case c of None \<Rightarrow> [] | Some c \<Rightarrow> c) \<le> struct_size (machine_tree m v fb c a b)"
  using aligned4_ge [of "length (case c of None \<Rightarrow> [] | Some c \<Rightarrow> c) + 1"]
  by (simp add: machine_tree_def chosen_tree_def p_str_def)

section \<open>Round trip\<close>

lemma machine_blob:
  assumes "ncpus m \<le> MAX_CPUS" and "virtio_count < 32" and "length (case cmd_line of None \<Rightarrow> [] | Some c \<Rightarrow> c) < 2 ^ 31"
  obtains blob where "riscv_build_fdt m virtio_count fb cmd_line initrd_start initrd_end = Some blob"
    "read_fdt blob = Some (machine_tree m virtio_count fb cmd_line initrd_start initrd_end)" "length blob < 2 ^ 32"
    "length blob \<le> 2374 + 532 * ncpus m + 190 * virtio_count + length (case cmd_line of None \<Rightarrow> [] | Some c \<Rightarrow> c)"
proof -
  let ?t = "machine_tree m virtio_count fb cmd_line initrd_start initrd_end"
  from output_tree [OF machine_tree_good [OF assms(1,3)]] obtain blob
    where b: "fdt_output (write_tree ?t fdt_init) = Some blob" "length blob \<le> 74 + struct_size ?t + names_size ?t"
      "length blob < 2 ^ 32 \<Longrightarrow> read_fdt blob = Some ?t" by metis
  note w = machine_weight [of m virtio_count fb cmd_line initrd_start initrd_end] weight [of ?t]
  have "length blob \<le> 2374 + 532 * ncpus m + 190 * virtio_count + length (case cmd_line of None \<Rightarrow> [] | Some c \<Rightarrow> c)"
    using b(2) w by linarith
  moreover from this have "length blob < 2 ^ 32" using assms by simp
  ultimately show thesis using b by (intro that [of blob]) (auto simp: riscv_build_fdt_def machine_node)
qed

text \<open>
  C10. The blob behind the boot ROM describes the machine: for any machine the construction accepts
  the writer closes every node it opens, and a reader of the format gets back exactly the device
  tree of the machine -- harts, memory, interrupt controllers with the handles of their harts,
  virtio and serial devices, frame buffer, command line and initrd. The size of the blob is bounded.
\<close>

theorem device_tree_roundtrip:
  assumes "ncpus m \<le> MAX_CPUS" and "virtio_count < 32" and "length (case cmd_line of None \<Rightarrow> [] | Some c \<Rightarrow> c) < 2 ^ 31"
  shows "\<exists>blob. riscv_build_fdt m virtio_count fb cmd_line initrd_start initrd_end = Some blob
    \<and> read_fdt blob = Some (machine_tree m virtio_count fb cmd_line initrd_start initrd_end)
    \<and> length blob \<le> 2374 + 532 * ncpus m + 190 * virtio_count + length (case cmd_line of None \<Rightarrow> [] | Some c \<Rightarrow> c)"
  by (rule machine_blob [OF assms, of fb initrd_start initrd_end]) blast

definition fdt_example :: RISCVMachine where
  "fdt_example = zero_machine\<lparr>ncpus := 2, ram_base_addr := 0x80000000, ram_size := 0x10000000\<rparr>"

theorem device_tree_roundtrip_witness:
  "\<exists>blob. riscv_build_fdt fdt_example 1 None (Some (cstring ''console=hvc0'')) 0 0 = Some blob
    \<and> read_fdt blob = Some (machine_tree fdt_example 1 None (Some (cstring ''console=hvc0'')) 0 0)
    \<and> length blob \<le> 3640"
proof -
  have "ncpus fdt_example = 2" by (simp add: fdt_example_def)
  then show ?thesis
    using device_tree_roundtrip [of fdt_example 1 "Some (cstring ''console=hvc0'')" None 0 0] by simp
qed

text \<open>
  Nothing compares the size of the blob with the room behind the boot ROM: a long command line
  alone makes it run past the end of the ROM block.
\<close>

theorem device_tree_overflow:
  assumes "ncpus m \<le> MAX_CPUS" and "length cmd_line < 2 ^ 31" and "unat ROM_SIZE - 256 \<le> length cmd_line"
  shows "\<exists>blob. riscv_build_fdt m virtio_count fb (Some cmd_line) initrd_start initrd_end = Some blob
    \<and> unat ROM_SIZE < 256 + length blob"
proof -
  let ?t = "machine_tree m virtio_count fb (Some cmd_line) initrd_start initrd_end"
  have "good_tree ?t" using machine_tree_good [of m "Some cmd_line"] assms(1,2) by simp
  from output_tree [OF this] obtain blob
    where b: "fdt_output (write_tree ?t fdt_init) = Some blob" "struct_size ?t < length blob" by metis
  then show ?thesis
    using machine_struct_size [of "Some cmd_line" m virtio_count fb initrd_start initrd_end] assms(3)
    unfolding riscv_build_fdt_def machine_node by auto
qed

end
