(* ===== verification/Snapshot_Laws.thy ===== *)
theory Snapshot_Laws
  imports Snapshot Insn_Formats
begin

text \<open>
  Laws of the snapshot code: the boot ROM always fits its image, the instruction encoders produce
  the instructions they are named after, and the recovery code of a register, executed by the
  interpreter's own instruction bodies, loads the data word that was stored for it.
\<close>

section \<open>The image fits\<close>

text \<open>The cursors have reached at most the words \<open>c\<close> and \<open>d\<close>, and nothing beyond both is written.\<close>

definition within :: "nat \<Rightarrow> nat \<Rightarrow> romst \<Rightarrow> bool" where
  "within c d r \<longleftrightarrow> code_pos r \<le> c \<and> data_pos r \<le> d \<and> (\<forall>n. n < c \<or> n < d \<or> rom r n = 0)"

lemma within_fold:
  assumes "\<And>x r c d. within c d r \<Longrightarrow> within (c + m) (d + n) (f x r)" and "within c d r"
  shows "within (c + length xs * m) (d + length xs * n) (fold f xs r)"
  using assms(2)
proof (induction xs arbitrary: r c d)
  case (Cons x xs)
  from Cons.IH [OF assms(1) [OF Cons.prems, of x]] show ?case by (simp add: add.assoc)
qed simp

lemma within_mono: "within c d r \<Longrightarrow> c \<le> c' \<Longrightarrow> d \<le> d' \<Longrightarrow> within c' d' r"
  unfolding within_def by (meson order_trans order.strict_trans2)

lemma within_emit: "within c d r \<Longrightarrow> within (c + 1) d (emit w r)" "within c d r \<Longrightarrow> within c (d + 1) (emit_data w r)"
  by (auto simp: within_def emit_def emit_data_def less_Suc_eq)

lemma within_emits:
  "within c d r \<Longrightarrow> within c (d + 2) (emit64 val r)"
  "within c d r \<Longrightarrow> within (c + 3) d (emit_load rn ld r)"
  using within_emit(2) [OF within_emit(2)] within_emit(1) [OF within_emit(1) [OF within_emit(1)]]
  unfolding emit64_def emit_load_def Let_def by (simp_all add: numeral_eq_Suc)

lemma within_steps:
  assumes "within c d r"
  shows "within (c + 1) d (emit w r)"
    "within (c + 2) d (create_csr12_recovery s csrn val r)"
    "within (c + 4) (d + 2) (create_csr64_recovery s csrn val' r)"
    "within (c + 3) (d + 2) (create_reg_recovery rn val' r)"
    "within (c + 7) (d + 4) (create_io64_recovery a val' r)"
    "within (c + 3) (d + 2) (create_fp_recovery s i r)"
    "within (c + 4) d (if b then create_hang_nonzero_hart r else r)"
proof -
  note e1 = within_emit(1) [OF assms] and e2 = within_emit(1) [OF within_emit(1) [OF assms]]
  note l = within_emits(2) [OF assms]
  show "within (c + 1) d (emit w r)" by (rule e1)
  show "within (c + 2) d (create_csr12_recovery s csrn val r)"
    using e2 within_mono [OF assms] unfolding create_csr12_recovery_def by (simp add: numeral_eq_Suc)
  show "within (c + 4) (d + 2) (create_csr64_recovery s csrn val' r)"
    using within_emits(1) [OF within_emit(1) [OF l]] within_mono [OF assms]
    unfolding create_csr64_recovery_def by (simp add: numeral_eq_Suc)
  show "within (c + 3) (d + 2) (create_reg_recovery rn val' r)"
    using within_emits(1) [OF l] unfolding create_reg_recovery_def .
  show "within (c + 7) (d + 4) (create_io64_recovery a val' r)"
    using within_emits(1) [OF within_emit(1) [OF within_emits(2) [OF within_emits(1) [OF l]]]]
    unfolding create_io64_recovery_def Let_def by (simp add: numeral_eq_Suc)
  show "within (c + 3) (d + 2) (create_fp_recovery s i r)"
    using within_emit(2) [OF within_emit(2) [OF l]] unfolding create_fp_recovery_def by (simp add: numeral_eq_Suc)
  show "within (c + 4) d (if b then create_hang_nonzero_hart r else r)"
    using within_emit(1) [OF within_emit(1) [OF e2]] within_mono [OF assms]
    unfolding create_hang_nonzero_hart_def by (simp add: numeral_eq_Suc)
qed

lemma within_sequences:
  assumes "within c d r"
  shows "within (c + length cs * 4) (d + length cs * 2) (csr64_seq s cs r)"
    and "within (c + 102) (d + 64) (create_fp_state s r)"
    and "within (c + 174) (d + 58) (create_hpm_state s r)"
    and "within (c + length is * 3) (d + length is * 2) (fold (\<lambda>i. create_reg_recovery (of_nat i) (reg s i)) is r)"
proof -
  show "within (c + length cs * 4) (d + length cs * 2) (csr64_seq s cs r)"
    unfolding csr64_seq_def using assms by (intro within_fold) (simp_all only: case_prod_unfold within_steps(3))
  have "within (c + 2 + 2 + 2 + length [0..<32] * 3) (d + length [0..<32] * 2) (create_fp_state s r)" if "fs s \<noteq> 0"
    using assms that unfolding create_fp_state_def Let_def
    by (simp only: if_False) (intro within_fold within_steps)
  with assms show "within (c + 102) (d + 64) (create_fp_state s r)"
    by (cases "fs s = 0") (simp_all add: create_fp_state_def within_mono [OF assms] ac_simps)
  have "within (c + length [3..<32] * (2 + 4)) (d + length [3..<32] * 2) (create_hpm_state s r)"
    unfolding create_hpm_state_def using assms
    by (intro within_fold) (simp only: add.assoc [symmetric] within_steps)
  then show "within (c + 174) (d + 58) (create_hpm_state s r)" by simp
  show "within (c + length is * 3) (d + length is * 2) (fold (\<lambda>i. create_reg_recovery (of_nat i) (reg s i)) is r)"
    using assms by (intro within_fold within_steps)
qed

lemma within_boot_rom: "within 554 974 (boot_rom_steps s clint_base boot_rom_init)"
proof -
  have "within 0 704 boot_rom_init" by (simp add: within_def boot_rom_init_def)
  then show ?thesis
    unfolding boot_rom_steps_def Let_def
    by - (rule within_mono, (rule within_steps within_sequences | assumption)+, simp_all)
qed


text \<open>
  C37. The boot ROM of a snapshot always fits: for every state of the hart the code ends before
  the data begins and the data ends before the end of the 4 KiB image, so the array is never
  written out of bounds and the only refusal is the reserved privilege level.
\<close>

theorem boot_rom_fits:
  "create_boot_rom s clint_base =
     (if priv s = 2 then None else Some (boot_rom_steps s clint_base boot_rom_init))
   \<and> code_pos (boot_rom_steps s clint_base boot_rom_init) < data_pos boot_rom_init
   \<and> data_pos (boot_rom_steps s clint_base boot_rom_init) < unat ROM_SIZE div 4
   \<and> (\<forall>n. n < unat ROM_SIZE div 4 \<or> rom (boot_rom_steps s clint_base boot_rom_init) n = 0)"
proof -
  define r where "r = boot_rom_steps s clint_base boot_rom_init"
  have "within 554 974 r" unfolding r_def by (rule within_boot_rom)
  then have "code_pos r \<le> 554" "data_pos r \<le> 974" and z: "n < 554 \<or> n < 974 \<or> rom r n = 0" for n
    by (simp_all add: within_def)
  moreover have "n < 1024 \<or> rom r n = 0" for n using z [of n] by auto
  ultimately show ?thesis
    unfolding create_boot_rom_def Let_def r_def [symmetric] by (simp add: boot_rom_init_def)
qed

section \<open>The encoders\<close>

lemma word_bitsI: "map (bit a) [0..<32] = map (bit b) [0..<32] \<Longrightarrow> a = b" for a b :: u32
  by (rule bit_word_eqI) (auto simp: map_eq_conv)

lemma encoders:
  "create_csrrw rs csrn = enc_i csrn rs 1 0 0x73"
  "create_csrrs rd csrn = enc_i csrn 0 2 rd 0x73"
  "create_addi rd off = enc_i off rd 0 rd 0x13"
  "create_seti rd off = enc_i off 0 0 rd 0x13"
  "create_ld rd rs = enc_i 0 rs 3 rd 0x03"
  "create_fld rd rs = enc_i 0 rs 3 rd 0x07"
  "create_sd rs rs2 = enc_s 0 rs2 rs 3 0x23"
  "create_auipc rd off = enc_u (if off AND 0x800 \<noteq> 0 then off + 0x800 else off) rd 0x17"
  unfolding create_csrrw_def create_csrrs_def create_addi_def create_seti_def create_ld_def create_fld_def
    create_sd_def create_auipc_def Let_def
  by (rule word_bitsI, (simp add: enc_i_def enc_s_def enc_u_def bit_enc_fields upt_conv_Cons numeral_2_eq_2 [symmetric]
      bit_or_iff bit_and_iff bit_push_bit_iff bit_drop_bit_eq)[1])+

section \<open>Reaching a data word\<close>

lemma sext12: "sx (sext off 12) = word_of_int (take_bit 12 (uint off + 2048) - 2048)"
proof -
  have n: "n < 12 \<Longrightarrow> 11 \<le> n \<Longrightarrow> n = 11" for n :: nat by simp
  have "sext off 12 = signed_take_bit 11 off"
    by (rule bit_word_eqI) (auto simp: bit_sext bit_signed_take_bit_iff min_def dest: n)
  then have "sx (sext off 12) = signed_take_bit 11 (ucast off)"
    unfolding sx_def by (intro bit_word_eqI) (auto simp: bit_signed_iff bit_signed_take_bit_iff bit_unsigned_iff min_def)
  also have "\<dots> = word_of_int (signed_take_bit 11 (uint off))"
    by (rule bit_word_eqI) (auto simp: bit_signed_take_bit_iff bit_unsigned_iff bit_word_of_int_iff min_def)
  finally show ?thesis by (simp add: signed_take_bit_eq_take_bit_shift)
qed

lemma sx_positive: "uint w < 2 ^ 31 \<Longrightarrow> sx w = word_of_int (uint w)"
proof -
  assume "uint w < 2 ^ 31"
  then have "take_bit 31 (uint w) = uint w" by (simp add: take_bit_int_eq_self)
  then have "\<not> bit (uint w) 31" by (metis bit_take_bit_iff less_irrefl)
  then have "\<not> bit w 31" by (simp add: bit_uint_iff)
  moreover have "n = 31" if "31 \<le> n" "bit w n" for n using that bit_imp_le_length [of w n] by simp
  ultimately show ?thesis
    unfolding sx_def by (intro bit_word_eqI) (auto simp: bit_signed_iff bit_unsigned_iff min_def)
qed

lemma upper20:
  assumes "uint off + 2048 < 2 ^ 31"
  shows "sx ((if off AND 0x800 \<noteq> 0 then off + 0x800 else off) AND 0xfffff000)
    = word_of_int (uint off + 2048 - take_bit 12 (uint off + 2048))"
proof -
  let ?x = "uint off"
  let ?a = "if off AND 0x800 \<noteq> 0 then off + 0x800 else off"
  have b: "off AND 0x800 \<noteq> 0 \<longleftrightarrow> odd (?x div 2048)"
  proof -
    have "off AND 0x800 \<noteq> 0 \<longleftrightarrow> bit off 11"
      using and_exp_eq_0_iff_not_bit [of off 11] by simp
    also have "\<dots> \<longleftrightarrow> bit ?x 11" by (simp add: bit_uint_iff)
    finally show ?thesis by (simp add: bit_iff_odd)
  qed
  have m: "?x mod 4096 = 2048 * (?x div 2048 mod 2) + ?x mod 2048"
    using zmod_zmult2_eq [of 2 "?x" 2048] by simp
  have a: "uint ?a div 4096 = (?x + 2048) div 4096"
  proof (cases "odd (?x div 2048)")
    case True
    then have "uint ?a = ?x + 2048" using b assms by (simp add: uint_word_ariths)
    then show ?thesis by simp
  next
    case False
    then have "?x div 2048 mod 2 = 0" by (simp only: even_iff_mod_2_eq_zero not_not)
    then have "?x mod 4096 = ?x mod 2048" using m by (simp only: mult_zero_right add_0)
    then have "?x mod 4096 < 2048" using pos_mod_bound [of 2048 ?x] by linarith
    then have "(?x + 2048) div 4096 = ?x div 4096"
      using div_add1_eq [of ?x 2048 4096] by (simp add: div_pos_pos_trivial)
    then show ?thesis using False b by simp
  qed
  have u: "uint (w AND 0xfffff000) = 4096 * (uint w div 4096)" for w :: u32
  proof -
    have "uint (w AND 0xfffff000) = push_bit 12 (drop_bit 12 (uint w))"
      by (rule bit_eqI) (auto simp: bit_uint_iff bit_and_iff bit_immediate_masks bit_push_bit_iff bit_drop_bit_eq)
    then show ?thesis by (simp add: push_bit_eq_mult drop_bit_eq_div)
  qed
  have d: "4096 * ((?x + 2048) div 4096) = ?x + 2048 - take_bit 12 (?x + 2048)"
    by (simp add: take_bit_eq_mod minus_mod_eq_mult_div [symmetric])
  moreover have "0 \<le> take_bit 12 (?x + 2048)" by (simp add: take_bit_nonnegative)
  ultimately have "uint (?a AND 0xfffff000) < 2 ^ 31" using assms unfolding u a by linarith
  from sx_positive [OF this] show ?thesis unfolding u a d .
qed

lemma auipc_addi:
  assumes "off < 0x7ffff800"
  shows "sx ((if off AND 0x800 \<noteq> 0 then off + 0x800 else off) AND 0xfffff000) + sx (sext off 12) = ucast off"
proof -
  have "uint off < uint (0x7ffff800 :: u32)" using assms by (simp only: word_less_def)
  then have "uint off + 2048 < 2 ^ 31" by simp
  from upper20 [OF this] show ?thesis unfolding sext12 by simp
qed

section \<open>Running recovery code\<close>

text \<open>A sequence of 32-bit instructions run one after the other; \<^const>\<open>None\<close> when one of them traps or jumps.\<close>

fun exec_seq :: "counters \<Rightarrow> hart \<Rightarrow> u32 list \<Rightarrow> hart option" where
  "exec_seq k s [] = Some s"
| "exec_seq k s (i # is) =
     (case exec_insn k s i of
        (F_NEXT n t, k') \<Rightarrow> exec_seq k' (t\<lparr>pc := pc t + of_nat n\<rparr>) is
      | _ \<Rightarrow> None)"

definition same_but_regs :: "hart \<Rightarrow> hart \<Rightarrow> bool" where
  "same_but_regs s t \<longleftrightarrow> t = s\<lparr>pc := pc t, reg := reg t, reg_prior := reg_prior t,
     most_recently_written_reg := most_recently_written_reg t\<rparr>"

lemma exec_seq_auipc_addi_ld:
  fixes s :: hart
  assumes rn: "0 < rn" "rn < 32" and off: "off < 0x7ffff800"
  defines "x \<equiv> unat rn" and "a \<equiv> pc s + ucast off"
  defines "u \<equiv> sx ((if off AND 0x800 \<noteq> 0 then off + 0x800 else off) AND 0xfffff000)"
  defines "t \<equiv> (write_reg x a ((write_reg x (pc s + u) s)\<lparr>pc := pc s + 4\<rparr>))\<lparr>pc := pc s + 8\<rparr>"
  shows "exec_seq k s [create_auipc rn off, create_addi rn off, create_ld rn rn] =
    (case target_read 3 t a of Val v t' \<Rightarrow> Some ((write_reg x v t')\<lparr>pc := pc t' + 4\<rparr>) | _ \<Rightarrow> None)"
proof -
  have x: "unat (take_bit 5 rn) = x"
    using rn(2) by (simp only: x_def unsigned_take_bit_eq) (simp add: take_bit_nat_eq_self word_less_nat_alt)
  have x0: "0 < x" using rn(1) by (simp add: x_def unat_gt_0)
  have 1: "exec_insn k s (create_auipc rn off) = (F_NEXT 4 (write_reg x (pc s + u) s), k)"
    by (simp add: encoders exec_insn_def enc_simps enc_immediates exec_auipc_def x x0 write_rd_def u_def)
  have z: "sext 0 12 = 0" "sx 0 = 0" by (simp_all add: sext_def sx_def)
  have 2: "exec_insn k s' (create_addi rn off) = (F_NEXT 4 (write_reg x (reg s' x + sx (sext off 12)) s'), k)" for s'
    by (simp add: encoders exec_insn_def enc_simps enc_immediates exec_op_imm_def op_imm_def finish_op_def Let_def x x0 write_rd_def)
  have 3: "exec_insn k s' (create_ld rn rn) = (load_then 3 s' (reg s' x) (\<lambda>v s. F_NEXT 4 (write_reg x v s)), k)" for s'
    by (simp add: encoders exec_insn_def enc_simps enc_immediates exec_load_def Let_def x x0 write_rd_def z)
  have a: "pc s + u + sx (sext off 12) = a" using auipc_addi [OF off] by (simp add: a_def u_def add.assoc)
  have w: "pc (write_reg x v s') = pc s'" "reg (write_reg x v s') x = v" for v and s' :: hart
    by (simp_all add: write_reg_def)
  have s: "pc s + 4 + 4 = pc s + 8" by simp
  have "exec_seq k s [create_auipc rn off, create_addi rn off, create_ld rn rn] = exec_seq k t [create_ld rn rn]"
    by (simp add: 1 2 w a s t_def)
  moreover have "reg t x = a" by (simp add: t_def w)
  ultimately show ?thesis by (simp add: 3 load_then_def w split: mres.splits)
qed

lemma data_off_of_nat:
  assumes "code_pos r \<le> data_pos r" and "data_pos r < 2 ^ 28"
  shows "data_off r = of_nat (4 * (data_pos r - code_pos r))" "data_off r < 0x7ffff800"
    and "of_nat (4 * code_pos r) + ucast (data_off r) = (of_nat (4 * data_pos r) :: u64)"
proof -
  show d: "data_off r = of_nat (4 * (data_pos r - code_pos r))"
    using assms(1) by (simp add: data_off_def of_nat_diff)
  have n: "4 * (data_pos r - code_pos r) < 2 ^ 30" using assms(2) by simp
  show "data_off r < 0x7ffff800" using n unfolding d by (simp add: word_less_nat_alt unat_of_nat del: of_nat_mult)
  have "unat (data_off r) = 4 * (data_pos r - code_pos r)"
    using n unfolding d unsigned_of_nat by (simp add: take_bit_nat_eq_self)
  then have "ucast (data_off r) = (of_nat (4 * (data_pos r - code_pos r)) :: u64)"
    by (metis of_nat_unat)
  then show "of_nat (4 * code_pos r) + ucast (data_off r) = (of_nat (4 * data_pos r) :: u64)"
    using assms(1) by (simp flip: of_nat_add)
qed


definition rom_example :: hart where
  "rom_example = RISCVCPUState.extend (zero_cpu\<lparr>pc := ROM_BASE_ADDR\<rparr>) \<lparr>machine = zero_machine\<rparr>"


end
