(* ===== verification/Boot_Laws.thy ===== *)
theory Boot_Laws
  imports Boot Elf_Laws Fdt_Laws Machine_Laws Snapshot_Laws
begin

text \<open>
  Laws of bringing up the machine: where the segments of an ELF image and the raw images end up,
  and what the boot ROM hands to the firmware.
\<close>

section \<open>ELF segments\<close>

definition e_phoff :: "elf_image \<Rightarrow> nat" where "e_phoff im = unat (ehdr_field im 32 8)"
definition e_phnum :: "elf_image \<Rightarrow> nat" where "e_phnum im = unat (ehdr_field im 56 2)"

text \<open>Program header \<open>i\<close>, when it describes a segment to be loaded.\<close>

definition phdr :: "elf_image \<Rightarrow> nat \<Rightarrow> segment option" where
  "phdr im i =
     (let p = e_phoff im + i * PHDR_SIZE in
      if ehdr_field im p 4 = 1
      then Some \<lparr>p_offset = ehdr_field im (p + 8) 8, p_vaddr = ehdr_field im (p + 16) 8,
                 p_filesz = ehdr_field im (p + 32) 8, p_memsz = ehdr_field im (p + 40) 8\<rparr>
      else None)"

definition elf_segments :: "elf_image \<Rightarrow> nat list \<Rightarrow> segment list" where
  "elf_segments im is = List.map_filter (phdr im) is"

text \<open>The data of the segment lies in the image, its place in RAM.\<close>

definition segment_ok :: "elf_image \<Rightarrow> RISCVMachine \<Rightarrow> segment \<Rightarrow> bool" where
  "segment_ok im m sg \<longleftrightarrow> unat (p_offset sg) + unat (p_filesz sg) \<le> length (img_bytes im)
     \<and> p_vaddr sg - ram_base_addr m < ram_size m
     \<and> unat (p_vaddr sg - ram_base_addr m) + unat (p_filesz sg) \<le> unat (ram_size m)"

text \<open>RAM is the range at \<open>RAM_BASE_ADDR\<close>.\<close>

definition ram_at_base :: "RISCVMachine \<Rightarrow> bool" where
  "ram_at_base m \<longleftrightarrow> (\<forall>a. a - ram_base_addr m < ram_size m \<longrightarrow>
     (\<exists>i. get_phys_mem_range (mem_map m) a = Some i \<and> pr_addr (phys_mem_range (mem_map m) i) = RAM_BASE_ADDR))"

text \<open>The byte at \<open>a\<close>: from the last segment that covers it.\<close>

definition segment_byte :: "elf_image \<Rightarrow> segment list \<Rightarrow> u64 \<Rightarrow> u8 option" where
  "segment_byte im sgs a =
     map_option (\<lambda>sg. img_bytes im ! (unat (p_offset sg) + unat (a - p_vaddr sg)))
       (find (\<lambda>sg. a - p_vaddr sg < p_filesz sg) (rev sgs))"

lemma segment_ok_host [simp]: "segment_ok im (m\<lparr>host_mem := h\<rparr>) = segment_ok im m"
  by (simp add: segment_ok_def fun_eq_iff)

lemma read_phdr_at:
  assumes "img_ok im" and "e_phoff im + Suc i * PHDR_SIZE \<le> length (img_bytes im)"
  shows "read_phdr im (img_base im + ehdr_field im 32 8 + of_nat (i * PHDR_SIZE)) = Some (phdr im i)"
proof -
  let ?ph = "img_base im + ehdr_field im 32 8 + of_nat (i * PHDR_SIZE)"
  have r: "img_read im (?ph + of_nat d) k = Some (ehdr_field im (e_phoff im + i * PHDR_SIZE + d) k)" if "d + k \<le> PHDR_SIZE" for d k
    using img_read_nat [OF assms(1), of "e_phoff im + i * PHDR_SIZE + d" k] assms(2) that by (simp add: e_phoff_def ac_simps)
  note r = r [of 0 4] r [of 8 8] r [of 16 8] r [of 32 8] r [of 40 8]
  show ?thesis unfolding read_phdr_def phdr_def Let_def using r by (simp add: ac_simps)
qed

lemma load_segment_copy:
  assumes "ram_block m ptr" and "ram_at_base m" and "segment_ok im m sg"
  shows "load_segment im alloc sg m = Some (m\<lparr>host_mem := memcpy
    (take (unat (p_filesz sg)) (drop (unat (p_offset sg)) (img_bytes im))) (ptr + (p_vaddr sg - ram_base_addr m)) (host_mem m)\<rparr>)"
proof -
  have v: "p_vaddr sg - ram_base_addr m < ram_size m" using assms(3) by (simp add: segment_ok_def)
  then obtain i where "get_phys_mem_range (mem_map m) (p_vaddr sg) = Some i"
    "pr_addr (phys_mem_range (mem_map m) i) = RAM_BASE_ADDR" using assms(2) unfolding ram_at_base_def by blast
  moreover have "get_ram_ptr m (p_vaddr sg) = Some (ptr + (p_vaddr sg - ram_base_addr m))"
    using v assms(1) by (simp add: ram_block_def)
  ultimately show ?thesis
    using assms(3) by (simp add: load_segment_def img_block_def copy_image_def segment_ok_def)
qed

lemma find_snoc: "find P (xs @ [x]) = (case find P xs of None \<Rightarrow> if P x then Some x else None | Some y \<Rightarrow> Some y)"
  by (induction xs) simp_all

lemma segment_byte_Cons:
  "segment_byte im (sg # sgs) a = (case segment_byte im sgs a of Some b \<Rightarrow> Some b | None \<Rightarrow>
     if a - p_vaddr sg < p_filesz sg then Some (img_bytes im ! (unat (p_offset sg) + unat (a - p_vaddr sg))) else None)"
  by (simp add: segment_byte_def find_snoc split: option.splits)

lemma memcpy_segment:
  assumes "ram_block m ptr" and "segment_ok im m sg"
  defines "h \<equiv> memcpy (take (unat (p_filesz sg)) (drop (unat (p_offset sg)) (img_bytes im))) (ptr + (p_vaddr sg - ram_base_addr m)) (host_mem m)"
  shows "a - ram_base_addr m < ram_size m \<Longrightarrow>
      h (ptr + (a - ram_base_addr m)) = (case segment_byte im [sg] a of None \<Rightarrow> host_mem m (ptr + (a - ram_base_addr m)) | Some b \<Rightarrow> b)"
    and "\<not> q - ptr < ram_size m \<Longrightarrow> h q = host_mem m q"
proof -
  let ?bs = "take (unat (p_filesz sg)) (drop (unat (p_offset sg)) (img_bytes im))"
  have sg: "unat (p_offset sg) + unat (p_filesz sg) \<le> length (img_bytes im)"
    "unat (p_vaddr sg - ram_base_addr m) + unat (p_filesz sg) \<le> unat (ram_size m)"
    using assms(2) by (simp_all add: segment_ok_def)
  then have len: "length ?bs = unat (p_filesz sg)" by simp
  moreover have "unat (ram_size m) \<le> 2 ^ 63" using assms(1) by (simp add: ram_block_def)
  ultimately have "length ?bs \<le> 2 ^ 63" using sg by simp
  note at = memcpy_at [OF this, of "ptr + (p_vaddr sg - ram_base_addr m)" "host_mem m", folded h_def, unfolded len]
  show "h (ptr + (a - ram_base_addr m)) = (case segment_byte im [sg] a of None \<Rightarrow> host_mem m (ptr + (a - ram_base_addr m)) | Some b \<Rightarrow> b)"
  proof -
    have "ptr + (a - ram_base_addr m) - (ptr + (p_vaddr sg - ram_base_addr m)) = a - p_vaddr sg" by simp
    then show ?thesis
      using at [of "ptr + (a - ram_base_addr m)"] sg(1) by (simp add: segment_byte_def word_less_nat_alt)
  qed
  show "h q = host_mem m q" if "\<not> q - ptr < ram_size m"
  proof -
    let ?d = "p_vaddr sg - ram_base_addr m"
    have l: "unat (ram_size m) \<le> unat (q - ptr)" using that by (simp add: word_less_nat_alt)
    then have "?d \<le> q - ptr" using sg(2) unfolding word_le_nat_alt by linarith
    then have "unat (q - ptr - ?d) = unat (q - ptr) - unat ?d" by (rule unat_sub)
    then have "\<not> unat (q - (ptr + ?d)) < unat (p_filesz sg)" using l sg(2) by (simp add: diff_diff_eq)
    then show ?thesis using at [of q] by simp
  qed
qed

lemma load_segments_effect:
  assumes "img_ok im" and "list_all (\<lambda>i. e_phoff im + Suc i * PHDR_SIZE \<le> length (img_bytes im)) is"
    and "ram_block m ptr" and "ram_at_base m" and "list_all (segment_ok im m) (elf_segments im is)"
  shows "\<exists>h. load_segments im alloc is m = Some (m\<lparr>host_mem := h\<rparr>)
    \<and> (\<forall>a. a - ram_base_addr m < ram_size m \<longrightarrow> h (ptr + (a - ram_base_addr m)) =
         (case segment_byte im (elf_segments im is) a of None \<Rightarrow> host_mem m (ptr + (a - ram_base_addr m)) | Some b \<Rightarrow> b))
    \<and> (\<forall>q. q - ptr < ram_size m \<or> h q = host_mem m q)"
  using assms(2-5)
proof (induction "is" arbitrary: m)
  case Nil
  then show ?case by (intro exI [of _ "host_mem m"]) (simp add: elf_segments_def segment_byte_def)
next
  case (Cons i "is")
  note r = read_phdr_at [OF assms(1), of i]
  show ?case
  proof (cases "phdr im i")
    case None
    then show ?thesis using Cons r by (simp add: elf_segments_def)
  next
    case (Some sg)
    then have sgs: "elf_segments im (i # is) = sg # elf_segments im is" by (simp add: elf_segments_def)
    define h1 where "h1 = memcpy (take (unat (p_filesz sg)) (drop (unat (p_offset sg)) (img_bytes im)))
      (ptr + (p_vaddr sg - ram_base_addr m)) (host_mem m)"
    have ok: "segment_ok im m sg" using Cons.prems(4) by (simp add: sgs)
    have frame: "ram_block (m\<lparr>host_mem := h1\<rparr>) ptr" "ram_at_base (m\<lparr>host_mem := h1\<rparr>)"
      "list_all (segment_ok im (m\<lparr>host_mem := h1\<rparr>)) (elf_segments im is)"
      using Cons.prems by (simp_all add: ram_block_def ram_at_base_def sgs)
    have "\<exists>h. load_segments im alloc is (m\<lparr>host_mem := h1\<rparr>) = Some (m\<lparr>host_mem := h\<rparr>)
      \<and> (\<forall>a. a - ram_base_addr m < ram_size m \<longrightarrow> h (ptr + (a - ram_base_addr m)) =
         (case segment_byte im (elf_segments im is) a of None \<Rightarrow> h1 (ptr + (a - ram_base_addr m)) | Some b \<Rightarrow> b))
      \<and> (\<forall>q. q - ptr < ram_size m \<or> h q = h1 q)"
      using Cons.IH [OF _ frame] Cons.prems(1) by (simp cong: option.case_cong)
    then obtain h where h: "load_segments im alloc is (m\<lparr>host_mem := h1\<rparr>) = Some (m\<lparr>host_mem := h\<rparr>)"
      "\<And>a. a - ram_base_addr m < ram_size m \<Longrightarrow> h (ptr + (a - ram_base_addr m)) =
         (case segment_byte im (elf_segments im is) a of None \<Rightarrow> h1 (ptr + (a - ram_base_addr m)) | Some b \<Rightarrow> b)"
      "\<And>q. q - ptr < ram_size m \<or> h q = h1 q" by blast
    note h1 = load_segment_copy [OF Cons.prems(2,3) ok, folded h1_def] memcpy_segment [OF Cons.prems(2) ok, folded h1_def]
    have "load_segments im alloc (i # is) m = Some (m\<lparr>host_mem := h\<rparr>)"
      using Cons.prems r Some h(1) h1(1) [of "alloc i"] by simp
    moreover have "h (ptr + (a - ram_base_addr m)) = (case segment_byte im (elf_segments im (i # is)) a of
        None \<Rightarrow> host_mem m (ptr + (a - ram_base_addr m)) | Some b \<Rightarrow> b)" if "a - ram_base_addr m < ram_size m" for a
      using h(2) [OF that] h1(2) [OF that]
      by (simp add: sgs segment_byte_Cons [of im sg] split: option.splits) (simp add: segment_byte_def)
    moreover have "q - ptr < ram_size m \<or> h q = host_mem m q" for q
      using h(3) [of q] h1(3) [of q] by metis
    ultimately show ?thesis by blast
  qed
qed

text \<open>
  C16. An ELF image whose segments lie in the image and in guest RAM is loaded as its program headers
  say: every byte of RAM holds the byte of the last segment that covers it, or what it held before,
  and nothing outside guest RAM is written.
\<close>

theorem elf_loaded:
  assumes "img_ok im" and "e_phoff im + e_phnum im * PHDR_SIZE \<le> length (img_bytes im)"
    and "ram_block m ptr" and "ram_at_base m" and "list_all (segment_ok im m) (elf_segments im [0..<e_phnum im])"
  shows "\<exists>h. load_elf_image im alloc m = Some (m\<lparr>host_mem := h\<rparr>)
    \<and> (\<forall>a. a - ram_base_addr m < ram_size m \<longrightarrow> h (ptr + (a - ram_base_addr m)) =
         (case segment_byte im (elf_segments im [0..<e_phnum im]) a of
            None \<Rightarrow> host_mem m (ptr + (a - ram_base_addr m)) | Some b \<Rightarrow> b))
    \<and> (\<forall>q. q - ptr < ram_size m \<or> h q = host_mem m q)"
proof -
  have "e_phoff im + Suc i * PHDR_SIZE \<le> length (img_bytes im)" if "i < e_phnum im" for i
  proof -
    have "Suc i * PHDR_SIZE \<le> e_phnum im * PHDR_SIZE" using that by simp
    then show ?thesis using assms(2) by linarith
  qed
  then have "list_all (\<lambda>i. e_phoff im + Suc i * PHDR_SIZE \<le> length (img_bytes im)) [0..<e_phnum im]"
    by (simp add: list_all_iff)
  from load_segments_effect [OF assms(1) this assms(3-5)] show ?thesis
    unfolding load_elf_image_def e_phnum_def [symmetric] .
qed

section \<open>Raw images\<close>

lemma load_kernel_effect:
  assumes "ram_block m ptr" and "load_kernel kernel_buf m = Loaded m2 x y"
  shows "ram_block m2 ptr \<and> ram_size m2 = ram_size m \<and> ram_base_addr m2 = ram_base_addr m
    \<and> (\<forall>q. q - ptr < ram_size m \<or> host_mem m2 q = host_mem m q)
    \<and> (\<forall>j < length kernel_buf. host_mem m2 (ptr + KERNEL_OFFSET + of_nat j) = kernel_buf ! j)"
proof (cases "kernel_buf = []")
  case True
  then show ?thesis using assms by (simp add: load_kernel_def)
next
  case False
  then have c: "copy_image kernel_buf (ram_base_addr m + KERNEL_OFFSET) m = Some m2" "KERNEL_OFFSET < ram_size m"
    and len: "length kernel_buf \<le> unat (ram_size m - KERNEL_OFFSET)"
    using assms(2) by (auto simp: load_kernel_def split: option.splits if_splits)
  have "unat (ram_size m - KERNEL_OFFSET) = unat (ram_size m) - unat KERNEL_OFFSET"
    using c(2) by (intro unat_sub) simp
  moreover have "unat KERNEL_OFFSET < unat (ram_size m)" using c(2) by (simp only: word_less_nat_alt)
  ultimately have z: "unat (ram_base_addr m + KERNEL_OFFSET - ram_base_addr m) + length kernel_buf \<le> unat (ram_size m)"
    using len by simp
  have "q - ptr < ram_size m \<or> host_mem m2 q = host_mem m q" for q
    using copy_image_frame(4) [OF assms(1) c(1) z, of q] by auto
  then show ?thesis
    using copy_image_frame(1-3) [OF assms(1) c(1) z] copy_image_at(3) [OF assms(1) c(1) z False] by auto
qed

lemma load_initrd_effect:
  assumes "ram_block m ptr" and "load_initrd initrd m = Loaded m2 start finish" and "initrd \<noteq> []"
  shows "(\<forall>q. q - ptr < ram_size m \<or> host_mem m2 q = host_mem m q)
    \<and> page_base start = start \<and> ram_base_addr m \<le> start
    \<and> (\<forall>j < length initrd. host_mem m2 (ptr + (start - ram_base_addr m) + of_nat j) = initrd ! j)"
proof -
  let ?s = "push_bit 12 (drop_bit 12 (ram_base_addr m + ram_size m - of_nat (length initrd)))"
  have c: "copy_image initrd ?s m = Some m2" and st: "start = ?s" and len: "length initrd \<le> unat (ram_size m)"
    using assms(2,3) by (auto simp: load_initrd_def Let_def split: option.splits if_splits)
  have p: "page_base ?s = ?s" "ram_base_addr m \<le> ?s" "unat (?s - ram_base_addr m) + length initrd \<le> unat (ram_size m)"
    using initrd_place [of "ram_base_addr m" "ram_size m" "length initrd"] assms(1) len by (simp_all add: ram_block_def)
  have "q - ptr < ram_size m \<or> host_mem m2 q = host_mem m q" for q
    using copy_image_frame(4) [OF assms(1) c p(3), of q] by auto
  moreover have "host_mem m2 (ptr + (start - ram_base_addr m) + of_nat j) = initrd ! j" if "j < length initrd" for j
    using copy_image_at(3) [OF assms(1) c p(3) assms(3) that] by (simp add: st)
  ultimately show ?thesis using p st by simp
qed


definition image_example :: RISCVMachine where
  "image_example = zero_machine\<lparr>ram_base_addr := 0x80000000, ram_size := 0x4000,
     mem_map := (set_range phys_mem_map_init 0 ((phys_mem_range phys_mem_map_init 0)
       \<lparr>pr_addr := 0x80000000, pr_size := 0x4000, is_ram := True, phys_mem := 0x10000\<rparr>))\<lparr>n_phys_mem_range := 1\<rparr>\<rparr>"

definition image_firmware :: elf_image where
  "image_firmware = \<lparr>img_base = 0x100000, img_bytes = [1, 2]\<rparr>"

lemma image_example_block: "ram_block image_example 0x10000"
proof -
  have "get_ram_ptr image_example a = Some (0x10000 + (a - 0x80000000))" if "a - 0x80000000 < 0x4000" for a
    using offset_in_range [OF that] by (simp add: image_example_def get_ram_ptr_def get_phys_mem_range_def in_range_def set_range_def Let_def)
  then show ?thesis by (simp add: ram_block_def image_example_def page_base_def)
qed


definition segment_example :: elf_image where
  "segment_example = \<lparr>img_base = 0x100000, img_bytes =
     replicate 32 0 @ [64] @ replicate 23 0 @ [1] @ replicate 7 0
     @ [1] @ replicate 7 0 @ [120] @ replicate 7 0 @ [0, 0, 0, 0x80, 0, 0, 0, 0] @ replicate 8 0
     @ [2] @ replicate 7 0 @ [2] @ replicate 15 0 @ [0xab, 0xcd]\<rparr>"

theorem elf_loaded_witness:
  "\<exists>h. load_elf_image segment_example (\<lambda>_. 0) image_example = Some (image_example\<lparr>host_mem := h\<rparr>) \<and> h 0x10001 = 0xcd"
proof -
  let ?sg = "\<lparr>p_offset = 120, p_vaddr = 0x80000000, p_filesz = 2, p_memsz = 2\<rparr>"
  have f: "ram_size image_example = 0x4000" "ram_base_addr image_example = 0x80000000" by (simp_all add: image_example_def)
  have e: "e_phoff segment_example = 64" "e_phnum segment_example = 1" by code_simp+
  have "phdr segment_example 0 = Some ?sg" by code_simp
  then have s: "elf_segments segment_example [0..<1] = [?sg]" by (simp add: elf_segments_def List.map_filter_simps)
  have l: "length (img_bytes segment_example) = 122" "img_bytes segment_example ! 121 = 0xcd"
    by (simp add: segment_example_def) code_simp
  have "img_ok segment_example" using l(1) by (simp add: img_ok_def segment_example_def)
  moreover have "ram_at_base image_example"
    using offset_in_range [of _ "0x80000000" "0x4000"]
    by (simp add: ram_at_base_def f) (simp add: image_example_def get_phys_mem_range_def in_range_def set_range_def)
  moreover have "segment_ok segment_example image_example ?sg" by (simp add: segment_ok_def l f)
  ultimately obtain h where "load_elf_image segment_example (\<lambda>_. 0) image_example = Some (image_example\<lparr>host_mem := h\<rparr>)"
    "\<forall>a. a - 0x80000000 < 0x4000 \<longrightarrow> h (0x10000 + (a - 0x80000000)) =
       (case segment_byte segment_example [?sg] a of None \<Rightarrow> host_mem image_example (0x10000 + (a - 0x80000000)) | Some b \<Rightarrow> b)"
    using elf_loaded [of segment_example image_example "0x10000" "\<lambda>_. 0"] image_example_block
    unfolding e s f l by auto
  moreover from this(2) have "h 0x10001 = 0xcd"
    by (auto simp: segment_byte_def l dest!: spec [of _ "0x80000001"])
  ultimately show ?thesis by blast
qed

end
