(* ===== verification/Boot_Run.thy ===== *)
theory Boot_Run
  imports Boot_Laws
begin

text \<open>
  Running the boot ROM: the interpreter, fetching from the ROM block and executing one instruction
  per call as the driver does, reaches the first instruction of the firmware.
\<close>

section \<open>Fetching from the ROM\<close>

text \<open>
  The ROM block at \<open>ptr\<close> holds the words, the memory map shows it, and the entry of the code TLB
  for its page, if there is one, points there.
\<close>

definition rom_code :: "u64 \<Rightarrow> u32 list \<Rightarrow> hart \<Rightarrow> bool" where
  "rom_code ptr ws s \<longleftrightarrow> unat ptr + unat ROM_SIZE < 2 ^ 64
     \<and> (\<forall>a. a - ROM_BASE_ADDR < ROM_SIZE \<longrightarrow> get_ram_ptr (machine s) a = Some (ptr + (a - ROM_BASE_ADDR)))
     \<and> (\<forall>i < length ws. load_le 4 (host_mem (machine s)) (ptr + of_nat (4 * i)) = ucast (ws ! i))
     \<and> (vaddr (tlb_code s (tlb_index ROM_BASE_ADDR)) = ROM_BASE_ADDR \<longrightarrow>
          mem_addend (tlb_code s (tlb_index ROM_BASE_ADDR)) = ptr - ROM_BASE_ADDR)"

lemma rom_addresses:
  assumes "i < 16"
  defines "a \<equiv> ROM_BASE_ADDR + of_nat (4 * i)"
  shows "a AND NOT PG_MASK = ROM_BASE_ADDR" "tlb_index a = tlb_index ROM_BASE_ADDR" "tlb_index (a + 2) = tlb_index ROM_BASE_ADDR"
    "a - ROM_BASE_ADDR < ROM_SIZE"
proof -
  have "list_all (\<lambda>i. let a = ROM_BASE_ADDR + of_nat (4 * i) in a AND NOT PG_MASK = ROM_BASE_ADDR
      \<and> tlb_index a = tlb_index ROM_BASE_ADDR \<and> tlb_index (a + 2) = tlb_index ROM_BASE_ADDR
      \<and> a - ROM_BASE_ADDR < ROM_SIZE) [0..<16]"
    by (simp add: upt_conv_Cons tlb_index_def)
  then show "a AND NOT PG_MASK = ROM_BASE_ADDR" "tlb_index a = tlb_index ROM_BASE_ADDR"
    "tlb_index (a + 2) = tlb_index ROM_BASE_ADDR" "a - ROM_BASE_ADDR < ROM_SIZE"
    using assms by (simp_all add: list_all_iff Let_def)
qed

definition same_but_code_tlb :: "hart \<Rightarrow> hart \<Rightarrow> bool" where
  "same_but_code_tlb s t \<longleftrightarrow> t = s\<lparr>tlb_code := tlb_code t, tlb_code_paddr_addend := tlb_code_paddr_addend t\<rparr>"

lemma ucast_back: "(ucast (ucast w :: u64) :: u32) = w"
  by (rule bit_word_eqI) (simp add: bit_ucast_iff)

lemma rom_fetch_slow:
  assumes "rom_code ptr ws s" and "priv s = PRV_M" and "i < length ws" and "i < 16"
  defines "a \<equiv> ROM_BASE_ADDR + of_nat (4 * i)"
  shows "target_read_insn_slow s 32 a = Val (ws ! i) (fill_tlb_code a a (ptr + of_nat (4 * i)) s)"
proof -
  note addr = rom_addresses [OF assms(4), folded a_def]
  have "get_ram_ptr (machine s) a = Some (ptr + (a - ROM_BASE_ADDR))" using assms(1) addr(4) by (simp add: rom_code_def)
  then obtain j where g: "get_phys_mem_range (mem_map (machine s)) a = Some j" "is_ram (phys_mem_range (mem_map (machine s)) j)"
    "host_ptr (phys_mem_range (mem_map (machine s)) j) a = ptr + of_nat (4 * i)"
    by (auto simp: get_ram_ptr_def Let_def host_ptr_def a_def split: option.splits if_splits)
  have w: "load_le 4 (host_mem (machine s)) (ptr + of_nat (4 * i)) = ucast (ws ! i)"
    using assms(1,3) unfolding rom_code_def by blast
  show ?thesis
    unfolding target_read_insn_slow_def
    using assms(2) g w addr(2,3)
    by (simp add: riscv_cpu_get_phys_addr_def effective_priv_def exec_range_def get_phys_mem_range_pmp_def
        riscv_cpu_pmp_access_ok_def fill_tlb_code_def Let_def ucast_back)
qed

lemma fetch_hit_in_page:
  assumes "e + pc s = q" and "e + ((pc s AND NOT PG_MASK) + PG_MASK - 1) = r" and "\<not> r \<le> q"
  shows "fetch_tlb_hit l s e = Insn (get_insn32 (host_mem (machine s)) q)
    (l\<lparr>code_ptr := q, code_end := r, code_to_pc_addend := pc s - q\<rparr>) s"
  using assms(3) unfolding fetch_tlb_hit_def Let_def assms(1,2) by simp

lemma fetch_quiet:
  assumes "code_end l \<le> code_ptr l" and "\<not> interrupts_visible s"
  shows "fetch l s = (let e = tlb_code s (tlb_index (pc s)) in
     if vaddr e = pc s AND NOT PG_MASK then fetch_tlb_hit l s (mem_addend e)
     else (case target_read_insn_slow s 32 (pc s) of
             Val insn s' \<Rightarrow> Insn insn l s' | Exc s' \<Rightarrow> FetchExc l s' | Abort \<Rightarrow> FetchCrash))"
  using assms by (simp add: fetch_def Let_def)

lemma rom_fetch:
  assumes "rom_code ptr ws s" and "priv s = PRV_M" and "\<not> interrupts_visible s" and "pc s = ROM_BASE_ADDR + of_nat (4 * i)"
    and "i < length ws" and "i < 16" and "code_end l \<le> code_ptr l" and "GET_PC l = pc s"
  obtains l' s' where "fetch l s = Insn (ws ! i) l' s'" "cnt l' = cnt l" "insn_executed l' = insn_executed l" "GET_PC l' = pc s"
    "same_but_code_tlb s s'" "rom_code ptr ws s'"
proof -
  let ?a = "ROM_BASE_ADDR + of_nat (4 * i) :: u64"
  note addr = rom_addresses [OF assms(6)]
  let ?e = "tlb_code s (tlb_index ROM_BASE_ADDR)"
  have p: "pc s AND NOT PG_MASK = ROM_BASE_ADDR" "tlb_index (pc s) = tlb_index ROM_BASE_ADDR" using addr assms(4) by (simp_all only:)
  show thesis
  proof (cases "vaddr ?e = ROM_BASE_ADDR")
    case True
    then have e: "mem_addend ?e = ptr - ROM_BASE_ADDR" using assms(1) by (simp add: rom_code_def)
    have w: "load_le 4 (host_mem (machine s)) (ptr + of_nat (4 * i)) = ucast (ws ! i)"
      using assms(1,5) unfolding rom_code_def by blast
    have n: "\<not> ptr + 0xffe \<le> ptr + of_nat (4 * i)"
    proof -
      have u: "unat (ptr + of_nat k) = unat ptr + k" if "k < 4096" for k
        using assms(1) that by (simp add: rom_code_def unat_word_ariths unsigned_of_nat take_bit_nat_eq_self)
      show ?thesis unfolding word_le_nat_alt using u [of "0xffe"] u [of "4 * i"] assms(6) by simp
    qed
    define l' where "l' = l\<lparr>code_ptr := ptr + of_nat (4 * i), code_end := ptr + 0xffe, code_to_pc_addend := pc s - (ptr + of_nat (4 * i))\<rparr>"
    have "fetch_tlb_hit l s (ptr - ROM_BASE_ADDR) = Insn (get_insn32 (host_mem (machine s)) (ptr + of_nat (4 * i))) l' s"
      unfolding l'_def by (rule fetch_hit_in_page [OF _ _ n]) (simp_all only: assms(4) addr(1), simp_all)
    then have "fetch l s = Insn (ws ! i) l' s"
      unfolding fetch_quiet [OF assms(7,3)] Let_def p by (simp add: True e get_insn32_def w ucast_back del: of_nat_mult)
    then show thesis using assms(1,4)
      by (intro that [of l' s]) (simp_all add: l'_def GET_PC_def same_but_code_tlb_def)
  next
    case False
    let ?s = "fill_tlb_code ?a ?a (ptr + of_nat (4 * i)) s"
    have "fetch l s = Insn (ws ! i) l ?s"
      unfolding fetch_quiet [OF assms(7,3)] Let_def p unfolding assms(4) rom_fetch_slow [OF assms(1,2,5,6)] by (simp add: False)
    moreover have "rom_code ptr ws ?s"
      using assms(1) addr(1,2) by (simp add: rom_code_def fill_tlb_code_def tlb_entry_def)
    ultimately show thesis using assms(8)
      by (intro that [of l ?s]) (simp_all add: same_but_code_tlb_def fill_tlb_code_def)
  qed
qed

section \<open>One instruction\<close>

text \<open>What the code in the ROM depends on and changes.\<close>

definition boot_view where
  "boot_view s = (reg s, dcsr s, dpc s, debug_mode s, priv s, mhartid s, misa s, mip s, mie s, tdata2 s, machine s)"

definition same_but_counters :: "hart \<Rightarrow> hart \<Rightarrow> bool" where
  "same_but_counters s t \<longleftrightarrow> t = s\<lparr>insn_counter := insn_counter t, mcycle := mcycle t, minstret := minstret t\<rparr>"

lemma same_but_counters_fields:
  assumes "same_but_counters s t"
  shows "boot_view t = boot_view s" "pc t = pc s" "tlb_code t = tlb_code s"
  using assms unfolding same_but_counters_def boot_view_def
  by - (drule arg_cong [where f = "\<lambda>t. (reg t, dcsr t, dpc t, debug_mode t, priv t, mhartid t, misa t, mip t, mie t, tdata2 t, machine t, pc t, tlb_code t)"], simp)+

lemma rom_code_cong:
  assumes "tlb_code t = tlb_code s" and "machine t = machine s"
  shows "rom_code ptr ws t = rom_code ptr ws s"
  using assms by (simp add: rom_code_def)

text \<open>The counters with which an instruction of a call for one instruction is executed, and with which the call ends.\<close>

definition one_insn :: "counters \<Rightarrow> bool" where
  "one_insn k \<longleftrightarrow> n_cycles k = 1 \<and> insn_counter_addend k = insn_counter_start k + 1"

lemma sync_same: "sync_counters k s = Some t \<Longrightarrow> same_but_counters s t"
  by (auto simp: sync_counters_def Let_def same_but_counters_def split: if_splits)

lemma sync_some:
  assumes "GET_INSN_COUNTER k - insn_counter_start k \<in> {0, 1}"
  obtains t where "sync_counters k s = Some t" "same_but_counters s t"
proof -
  have "\<not> (ucast (GET_INSN_COUNTER k - insn_counter_start k) :: u32) <s 0"
    using assms by (auto simp: word_sless_alt)
  then have "sync_counters k s \<noteq> None" by (simp add: sync_counters_def Let_def)
  then show thesis using sync_same that by blast
qed

lemma one_insn_sync:
  assumes "one_insn k"
  obtains t where "sync_counters k s = Some t" "same_but_counters s t"
proof (rule sync_some [of k s])
  show "GET_INSN_COUNTER k - insn_counter_start k \<in> {0, 1}" using assms by (simp add: one_insn_def GET_INSN_COUNTER_def)
qed (rule that)

lemma last_sync:
  assumes "insn_counter_addend k = insn_counter_start k + 1" and "n_cycles k = 0"
  obtains t where "sync_counters k s = Some t" "same_but_counters s t"
proof (rule sync_some [of k s])
  show "GET_INSN_COUNTER k - insn_counter_start k \<in> {0, 1}" using assms by (simp add: GET_INSN_COUNTER_def)
qed (rule that)

text \<open>Where an instruction at \<open>p\<close> continues.\<close>

fun continues :: "u64 \<Rightarrow> flow \<Rightarrow> hart option" where
  "continues p (F_NEXT n t) = Some (t\<lparr>pc := p + of_nat n\<rparr>)"
| "continues p (F_JUMP kind t) = Some t"
| "continues p (F_DONE t) = Some t"
| "continues p _ = None"

definition quiet :: "hart \<Rightarrow> bool" where
  "quiet s \<longleftrightarrow> priv s = PRV_M \<and> mip s AND mie s = 0 \<and> (\<forall>i < MAX_TRIGGERS. tdata2 s i = NOT 0)"

lemma interp_loop_last: "n_cycles (cnt l) = 1 \<Longrightarrow> interp_loop l s = the_end (dec_cycles l) (s\<lparr>pc := GET_PC l\<rparr>)"
  by (subst interp_loop.simps) (simp add: dec_cycles_def Let_def)

lemma insn_ends:
  assumes k: "one_insn (cnt l)" and a: "insn_counter_addend k' = insn_counter_addend (cnt l)" and c: "continues (GET_PC l) f = Some t"
  obtains t' where "(case after_exec l (f, k') of Leave r \<Rightarrow> r | Continue l' s' \<Rightarrow> interp_loop l' s') = I_Ret (insn_executed l) t'"
    "boot_view t' = boot_view t" "pc t' = pc t" "tlb_code t' = tlb_code t"
proof -
  let ?k = "(cnt l)\<lparr>insn_counter_addend := insn_counter_addend k', n_cycles := 0\<rparr>"
  obtain u :: hart where u: "boot_view u = boot_view t" "pc u = pc t" "tlb_code u = tlb_code t"
    and e: "(case after_exec l (f, k') of Leave r \<Rightarrow> r | Continue l' s' \<Rightarrow> interp_loop l' s')
      = (case sync_counters ?k u of None \<Rightarrow> I_Crash | Some s' \<Rightarrow> I_Ret (insn_executed l) s')"
  proof (cases f)
    case (F_NEXT n s)
    then show thesis using k a c
      by (intro that [of t]) (auto simp: after_exec_def interp_loop_last GET_PC_def dec_cycles_def Let_def the_end_def one_insn_def ac_simps cong: option.case_cong)
  next
    case (F_JUMP kind s)
    then show thesis using k a c
      by (intro that [of "t\<lparr>info := kind, next_addr := pc t\<rparr>"])
        (auto simp: after_exec_def interp_loop_last GET_PC_def dec_cycles_def Let_def the_end_def one_insn_def jump_locals_def jump_state_def boot_view_def cong: option.case_cong)
  next
    case (F_DONE s)
    then show thesis using k a c
      by (intro that [of t]) (auto simp: after_exec_def done_interp_def dec_cycles_def Let_def the_end_def one_insn_def cong: option.case_cong)
  qed (use c in auto)
  have "insn_counter_addend ?k = insn_counter_start ?k + 1" "n_cycles ?k = 0" using k a by (simp_all add: one_insn_def)
  then obtain t' where "sync_counters ?k u = Some t'" "same_but_counters u t'" by (rule last_sync)
  with e u show thesis using same_but_counters_fields [of u t'] by (intro that [of t']) simp_all
qed

lemma rom_interp:
  assumes "rom_code ptr ws s" and "quiet s" and "pc s = ROM_BASE_ADDR + of_nat (4 * i)" and "i < length ws" and "i < 16"
    and exec: "\<And>s' k. boot_view s' = boot_view s \<Longrightarrow> pc s' = pc s \<Longrightarrow> one_insn k \<Longrightarrow> \<exists>f k' t.
      exec_insn k s' (ws ! i) = (f, k') \<and> insn_counter_addend k' = insn_counter_addend k
      \<and> continues (pc s) f = Some t \<and> boot_view t = V \<and> pc t = p \<and> tlb_code t = tlb_code s' \<and> machine t = machine s"
  shows "\<exists>t. riscv_cpu_interp64 s 1 = I_Ret 1 t \<and> boot_view t = V \<and> pc t = p \<and> rom_code ptr ws t"
proof -
  define s1 where "s1 = s\<lparr>most_recently_written_reg := - 1, most_recently_written_fp_reg := - 1, info := ctf_nop, pending_exception := - 1\<rparr>"
  define k where "k = \<lparr>insn_counter_addend = insn_counter s + 1, n_cycles = 1, insn_counter_start = insn_counter s\<rparr>"
  define l where "l = \<lparr>cnt = k, code_ptr = 0, code_end = 0, code_to_pc_addend = pc s, insn_executed = 1\<rparr>"
  have v: "\<not> interrupts_visible s1" "\<not> trigger_hit s1"
  proof -
    show "\<not> interrupts_visible s1" using assms(2) by (simp add: s1_def interrupts_visible_def quiet_def)
    have "(NOT 0 :: u64) AND NOT PG_MASK \<noteq> ROM_BASE_ADDR" by simp
    then have "NOT 0 \<noteq> ROM_BASE_ADDR + of_nat (4 * i)" using rom_addresses(1) [OF assms(5)] by metis
    then show "\<not> trigger_hit s1" using assms(2,3) by (auto simp: s1_def trigger_hit_def quiet_def Let_def)
  qed
  have r: "rom_code ptr ws s1" using assms(1) by (simp add: rom_code_def s1_def)
  have "riscv_cpu_interp64 s 1 = interp_loop (l\<lparr>cnt := k\<lparr>n_cycles := 2\<rparr>, insn_executed := 0\<rparr>) s1"
    using assms(2) by (simp add: riscv_cpu_interp64_def Let_def interrupts_visible_def quiet_def l_def k_def s1_def)
  also have "\<dots> = (case iteration (l\<lparr>insn_executed := 0\<rparr>) s1 of Leave r \<Rightarrow> r | Continue l' s' \<Rightarrow> interp_loop l' s')"
    by (subst interp_loop.simps) (simp add: GET_PC_def dec_cycles_def l_def k_def s1_def Let_def)
  also have "\<dots> = (case fetch l s1 of Interrupted s \<Rightarrow> the_end l s | FetchExc l' s \<Rightarrow> exception l' s | FetchCrash \<Rightarrow> I_Crash
      | Insn insn l' s \<Rightarrow> (case after_exec l' (exec_insn (cnt l') s insn) of Leave r \<Rightarrow> r | Continue l' s' \<Rightarrow> interp_loop l' s'))"
    using v(2) by (simp add: iteration_def Let_def l_def split: fetched.splits)
  finally have interp: "riscv_cpu_interp64 s 1 = (case fetch l s1 of Interrupted s \<Rightarrow> the_end l s | FetchExc l' s \<Rightarrow> exception l' s | FetchCrash \<Rightarrow> I_Crash
      | Insn insn l' s \<Rightarrow> (case after_exec l' (exec_insn (cnt l') s insn) of Leave r \<Rightarrow> r | Continue l' s' \<Rightarrow> interp_loop l' s'))" .
  have s1: "priv s1 = PRV_M" "pc s1 = ROM_BASE_ADDR + of_nat (4 * i)" "boot_view s1 = boot_view s" "GET_PC l = pc s1"
    using assms(2,3) by (simp_all add: s1_def quiet_def boot_view_def GET_PC_def l_def)
  obtain l' s' where f: "fetch l s1 = Insn (ws ! i) l' s'" "cnt l' = cnt l" "insn_executed l' = insn_executed l" "GET_PC l' = pc s1"
    and same: "same_but_code_tlb s1 s'" and r': "rom_code ptr ws s'"
    using rom_fetch [OF r s1(1) v(1) s1(2) assms(4,5) _ s1(4)] by (auto simp: l_def)
  have "boot_view s' = boot_view s1" "pc s' = pc s1"
    using same unfolding same_but_code_tlb_def boot_view_def
    by - (drule arg_cong [where f = "\<lambda>t. (reg t, dcsr t, dpc t, debug_mode t, priv t, mhartid t, misa t, mip t, mie t, tdata2 t, machine t, pc t)"], simp)+
  moreover have one: "one_insn (cnt l')" by (simp add: f l_def k_def one_insn_def)
  ultimately obtain fl k' t where x: "exec_insn (cnt l') s' (ws ! i) = (fl, k')" "insn_counter_addend k' = insn_counter_addend (cnt l')"
    "continues (pc s) fl = Some t" "boot_view t = V" "pc t = p" "tlb_code t = tlb_code s'" "machine t = machine s"
    using exec [of s' "cnt l'"] s1 assms(3) by auto
  have "continues (GET_PC l') fl = Some t" using x(3) f(4) s1(2) assms(3) by simp
  from insn_ends [OF one x(2) this] obtain t' where t': "riscv_cpu_interp64 s 1 = I_Ret (insn_executed l') t'"
    "boot_view t' = boot_view t" "pc t' = pc t" "tlb_code t' = tlb_code t"
    unfolding interp f(1) by (simp add: x(1)) blast
  have "machine t' = machine s" "machine s' = machine s" using t'(2) x(7) \<open>boot_view s' = boot_view s1\<close> s1(3) by (simp_all add: boot_view_def)
  then have "rom_code ptr ws t'" using r' t'(4) x(6) rom_code_cong [of t' s'] by simp
  then show ?thesis using t' x(4,5) f(3) by (simp add: l_def)
qed

section \<open>The instructions of the boot ROM\<close>

lemma exec_rom_alu:
  fixes s :: hart
  assumes "reg s 0 = 0"
  shows "exec_insn k s 0x00000013 = (F_NEXT 4 s, k)"
    "exec_insn k s 0x00000597 = (F_NEXT 4 (write_reg 11 (pc s) s), k)"
    "exec_insn k s 0x0f058593 = (F_NEXT 4 (write_reg 11 (reg s 11 + 240) s), k)"
    "exec_insn k s 0x60300413 = (F_NEXT 4 (write_reg 8 1539 s), k)"
    "exec_insn k s 0x0010041b = (F_NEXT 4 (write_reg 8 1 s), k)"
    "exec_insn k s 0x0030041b = (F_NEXT 4 (write_reg 8 3 s), k)"
    "exec_insn k s 0x01f41413 = (F_NEXT 4 (write_reg 8 (push_bit 31 (reg s 8)) s), k)"
    "exec_insn k s 0x02741413 = (F_NEXT 4 (write_reg 8 (push_bit 39 (reg s 8)) s), k)"
    "exec_insn k s 0x02641413 = (F_NEXT 4 (write_reg 8 (push_bit 38 (reg s 8)) s), k)"
  using assms
  by (simp_all add: exec_insn_def exec_op_imm_def exec_op_imm_32_def exec_auipc_def finish_op_def op_imm_def op_imm_32_def
      imm_i_def insn_fields write_rd_def sx_def sext32_def Let_def)

lemma exec_rom_beqz:
  fixes s :: hart
  assumes "reg s 0 = 0" "reg s 10 = 0" "pc s = 0x10004"
  shows "exec_insn k s 0x00050663 = (F_JUMP ctf_taken_branch (s\<lparr>pc := 0x10010\<rparr>), k)"
  using assms by (simp add: exec_insn_def exec_branch_def insn_fields Let_def branch_cond_def imm_b_def misaligned_target_def sx_def)

lemma exec_rom_csr:
  fixes s :: hart
  assumes "one_insn k" and "priv s = PRV_M" and "debug_mode s"
  shows "\<exists>t. exec_insn k s 0xf1402573 = (F_NEXT 4 (write_reg 10 (mhartid s) t), k) \<and> same_but_counters s t"
    and "\<exists>t k'. exec_insn k s 0x7b041073 = (F_NEXT 4 (write_dcsr t (reg s 8)), k') \<and> same_but_counters s t \<and> insn_counter_addend k' = insn_counter_addend k"
    and "\<exists>t k'. exec_insn k s 0x7b141073 = (F_NEXT 4 (t\<lparr>dpc := reg s 8 AND pc_align_mask s\<rparr>), k') \<and> same_but_counters s t \<and> insn_counter_addend k' = insn_counter_addend k"
    and "exec_insn k s 0x7b200073 = (F_DONE (handle_dret s), k)"
proof -
  obtain t where t: "sync_counters k s = Some t" "same_but_counters s t" using one_insn_sync [OF assms(1)] by blast
  then have f: "priv t = PRV_M" "debug_mode t" "mhartid t = mhartid s" "misa t = misa s" "insn_counter t = GET_INSN_COUNTER k"
    using same_but_counters_fields(1) [of s t] sync_insn_counter [OF t(1)] assms by (simp_all add: boot_view_def)
  show "exec_insn k s 0x7b200073 = (F_DONE (handle_dret s), k)"
    using assms(2,3) by (simp add: exec_insn_def exec_system_def exec_dret_def insn_fields)
  show "\<exists>t. exec_insn k s 0xf1402573 = (F_NEXT 4 (write_reg 10 (mhartid s) t), k) \<and> same_but_counters s t"
    using t f by (intro exI [of _ t])
      (simp add: exec_insn_def exec_system_def exec_csrrs_def insn_fields csr_read_def csr_perm_ok_def csr_read_body_def csr_finish_def write_rd_def Let_def)
  show "\<exists>t k'. exec_insn k s 0x7b041073 = (F_NEXT 4 (write_dcsr t (reg s 8)), k') \<and> same_but_counters s t \<and> insn_counter_addend k' = insn_counter_addend k"
    using t f by (intro exI [of _ t])
      (simp add: exec_insn_def exec_system_def exec_csrrw_def insn_fields csr_read_def csr_perm_ok_def csr_read_body_def
        csr_write_def csr_finish_def write_rd_def write_dcsr_def GET_INSN_COUNTER_def Let_def)
  show "\<exists>t k'. exec_insn k s 0x7b141073 = (F_NEXT 4 (t\<lparr>dpc := reg s 8 AND pc_align_mask s\<rparr>), k') \<and> same_but_counters s t \<and> insn_counter_addend k' = insn_counter_addend k"
    using t f by (intro exI [of _ t])
      (simp add: exec_insn_def exec_system_def exec_csrrw_def insn_fields csr_read_def csr_perm_ok_def csr_read_body_def
        csr_write_def csr_finish_def write_rd_def GET_INSN_COUNTER_def pc_align_mask_def Let_def)
qed

section \<open>From the reset vector to the firmware\<close>

text \<open>Calls of the interpreter for one instruction each.\<close>

fun interp_times :: "nat \<Rightarrow> hart \<Rightarrow> hart option" where
  "interp_times 0 s = Some s"
| "interp_times (Suc n) s = (case riscv_cpu_interp64 s 1 of I_Ret _ t \<Rightarrow> interp_times n t | I_Crash \<Rightarrow> None)"

lemma interp_times_add: "interp_times (n + k) s = (case interp_times n s of None \<Rightarrow> None | Some t \<Rightarrow> interp_times k t)"
  by (induction n arbitrary: s) (simp_all split: outcome.splits)

text \<open>From \<open>p\<close> with the view \<open>v\<close> to \<open>q\<close> with the view \<open>v'\<close> in \<open>n\<close> calls.\<close>

definition boots where
  "boots ptr ws n p v q v' \<longleftrightarrow> (\<forall>s. rom_code ptr ws s \<and> pc s = p \<and> boot_view s = v \<longrightarrow>
     (\<exists>t. interp_times n s = Some t \<and> rom_code ptr ws t \<and> pc t = q \<and> boot_view t = v'))"

lemma boots_comp:
  assumes "boots ptr ws n p v q v'" and "boots ptr ws k q v' r v''"
  shows "boots ptr ws (n + k) p v r v''"
  unfolding boots_def
proof (intro allI impI)
  fix s assume "rom_code ptr ws s \<and> pc s = p \<and> boot_view s = v"
  then obtain t where "interp_times n s = Some t" "rom_code ptr ws t \<and> pc t = q \<and> boot_view t = v'"
    using assms(1) unfolding boots_def by blast
  moreover from this(2) obtain u where "interp_times k t = Some u" "rom_code ptr ws u" "pc u = r" "boot_view u = v''"
    using assms(2) unfolding boots_def by blast
  ultimately show "\<exists>t. interp_times (n + k) s = Some t \<and> rom_code ptr ws t \<and> pc t = r \<and> boot_view t = v''"
    by (simp add: interp_times_add)
qed

text \<open>The view of a quiet hart in machine mode, by what the boot ROM changes.\<close>

definition hart_view where
  "hart_view hid isa ip ie t2 m r dc dp d = (r, dc, dp, d, PRV_M, hid, isa, ip, ie, t2, m)"

locale quiet_boot =
  fixes ptr :: u64 and hid :: u64 and isa ip ie :: u32 and t2 :: "nat \<Rightarrow> u64" and m :: RISCVMachine
  assumes masked: "ip AND ie = 0" and triggers: "\<And>i. i < MAX_TRIGGERS \<Longrightarrow> t2 i = NOT 0"
begin

abbreviation ws where "ws \<equiv> boot_words m"
abbreviation view where "view \<equiv> hart_view hid isa ip ie t2 m"

lemma boots_insn:
  assumes "i < length ws" and "i < 16" and "p = ROM_BASE_ADDR + of_nat (4 * i)"
    and exec: "\<And>s k. boot_view s = view r dc dp d \<Longrightarrow> pc s = p \<Longrightarrow> one_insn k \<Longrightarrow> \<exists>f k' t.
      exec_insn k s (ws ! i) = (f, k') \<and> insn_counter_addend k' = insn_counter_addend k
      \<and> continues p f = Some t \<and> boot_view t = view r' dc' dp' d' \<and> pc t = q \<and> tlb_code t = tlb_code s"
  shows "boots ptr ws 1 p (view r dc dp d) q (view r' dc' dp' d')"
  unfolding boots_def
proof (intro allI impI)
  fix s assume s: "rom_code ptr ws s \<and> pc s = p \<and> boot_view s = view r dc dp d"
  then have q: "quiet s" "pc s = ROM_BASE_ADDR + of_nat (4 * i)" "machine s = m"
    using masked triggers assms(3) by (simp_all add: quiet_def boot_view_def hart_view_def)
  have "\<exists>t. riscv_cpu_interp64 s 1 = I_Ret 1 t \<and> boot_view t = view r' dc' dp' d' \<and> pc t = q \<and> rom_code ptr ws t"
  proof (rule rom_interp [OF _ q(1,2) assms(1,2)])
    fix s' :: hart and k assume "boot_view s' = boot_view s" "pc s' = pc s" "one_insn k"
    then obtain f k' t where "exec_insn k s' (ws ! i) = (f, k')" "insn_counter_addend k' = insn_counter_addend k"
      "continues p f = Some t" "boot_view t = view r' dc' dp' d'" "pc t = q" "tlb_code t = tlb_code s'"
      using exec [of s' k] s by auto
    moreover from this(4) have "machine t = machine s" using q(3) by (simp add: boot_view_def hart_view_def)
    ultimately show "\<exists>f k' t. exec_insn k s' (ws ! i) = (f, k') \<and> insn_counter_addend k' = insn_counter_addend k
      \<and> continues (pc s) f = Some t \<and> boot_view t = view r' dc' dp' d' \<and> pc t = q \<and> tlb_code t = tlb_code s' \<and> machine t = machine s"
      using s by auto
  qed (use s in blast)
  then show "\<exists>t. interp_times 1 s = Some t \<and> rom_code ptr ws t \<and> pc t = q \<and> boot_view t = view r' dc' dp' d'"
    by auto
qed

lemma boots_write:
  assumes "i < length ws" and "i < 16" and "p = ROM_BASE_ADDR + of_nat (4 * i)"
    and "\<And>s k. reg s = r \<Longrightarrow> pc s = p \<Longrightarrow> exec_insn k s (ws ! i) = (F_NEXT 4 (write_reg x v s), k)"
  shows "boots ptr ws 1 p (view r dc dp d) (p + 4) (view (r(x := v)) dc dp d)"
proof (rule boots_insn [OF assms(1-3)])
  fix s :: hart and k assume s: "boot_view s = view r dc dp d" "pc s = p"
  let ?t = "(write_reg x v s)\<lparr>pc := p + 4\<rparr>"
  have "exec_insn k s (ws ! i) = (F_NEXT 4 (write_reg x v s), k)" using s by (intro assms(4)) (simp_all add: boot_view_def hart_view_def)
  moreover have "boot_view ?t = view (r(x := v)) dc dp d" "pc ?t = p + 4" "tlb_code ?t = tlb_code s"
    using s by (simp_all add: boot_view_def hart_view_def write_reg_def)
  ultimately show "\<exists>f k' t. exec_insn k s (ws ! i) = (f, k') \<and> insn_counter_addend k' = insn_counter_addend k
      \<and> continues p f = Some t \<and> boot_view t = view (r(x := v)) dc dp d \<and> pc t = p + 4 \<and> tlb_code t = tlb_code s"
    by (intro exI [of _ "F_NEXT 4 (write_reg x v s)"] exI [of _ k] exI [of _ ?t]) simp
qed

lemma boots_nop:
  assumes "i < length ws" and "i < 16" and "p = ROM_BASE_ADDR + of_nat (4 * i)" and "r 0 = 0" and "ws ! i = 0x00000013"
  shows "boots ptr ws 1 p (view r dc dp d) (p + 4) (view r dc dp d)"
proof (rule boots_insn [OF assms(1-3)])
  fix s :: hart and k assume s: "boot_view s = view r dc dp d" "pc s = p"
  then have "reg s 0 = 0" using assms(4) by (simp add: boot_view_def hart_view_def)
  from exec_rom_alu(1) [OF this, of k]
  show "\<exists>f k' t. exec_insn k s (ws ! i) = (f, k') \<and> insn_counter_addend k' = insn_counter_addend k
      \<and> continues p f = Some t \<and> boot_view t = view r dc dp d \<and> pc t = p + 4 \<and> tlb_code t = tlb_code s"
    using s unfolding assms(5) by (intro exI [of _ "F_NEXT 4 s"] exI [of _ k] exI [of _ "s\<lparr>pc := p + 4\<rparr>"]) (simp add: boot_view_def)
qed

lemma words:
  "length ws = 12" "ws ! 0 = 0xf1402573" "ws ! 4 = 0x00000597" "ws ! 5 = 0x0f058593" "ws ! 6 = 0x60300413" "ws ! 7 = 0x7b041073"
  "ws ! 10 = 0x7b141073" "ws ! 11 = 0x7b200073"
  "ncpus m = 1 \<Longrightarrow> ws ! 1 = 0x00050663" "ncpus m \<noteq> 1 \<Longrightarrow> ws ! 1 = 0x13 \<and> ws ! 2 = 0x13 \<and> ws ! 3 = 0x13"
  "ram_base_addr m = 0xC000000000 \<Longrightarrow> ws ! 8 = 0x0030041b \<and> ws ! 9 = 0x02641413"
  "ram_base_addr m = 0x80000000 \<Longrightarrow> ws ! 8 = 0x0010041b \<and> ws ! 9 = 0x01f41413"
  "ram_base_addr m = 0x8000000000 \<Longrightarrow> ws ! 8 = 0x0010041b \<and> ws ! 9 = 0x02741413"
  by (simp_all add: boot_words_def)

lemma boots_mhartid: "boots ptr ws 1 0x10000 (view r dc dp True) 0x10004 (view (r(10 := hid)) dc dp True)"
proof (rule boots_insn [of 0])
  fix s :: hart and k assume s: "boot_view s = view r dc dp True" "pc s = 0x10000" and k: "one_insn k"
  from s(1) have f: "priv s = PRV_M" "debug_mode s" "mhartid s = hid" by (simp_all add: boot_view_def hart_view_def)
  obtain t where x: "exec_insn k s 0xf1402573 = (F_NEXT 4 (write_reg 10 hid t), k)" "same_but_counters s t"
    using exec_rom_csr(1) [OF k f(1,2)] f(3) by auto
  then show "\<exists>f k' t. exec_insn k s (ws ! 0) = (f, k') \<and> insn_counter_addend k' = insn_counter_addend k
      \<and> continues 0x10000 f = Some t \<and> boot_view t = view (r(10 := hid)) dc dp True \<and> pc t = 0x10004 \<and> tlb_code t = tlb_code s"
    using same_but_counters_fields [OF x(2)] s(1) unfolding words x(1)
    by (intro exI [of _ "F_NEXT 4 (write_reg 10 hid t)"] exI [of _ k] exI [of _ "(write_reg 10 hid t)\<lparr>pc := 0x10004\<rparr>"])
      (simp add: boot_view_def hart_view_def write_reg_def)
qed (simp_all add: words)

lemma boots_dcsr: "boots ptr ws 1 0x1001c (view r dc dp True) 0x10020 (view r ((dc AND NOT 0x603) OR (r 8 AND 0x603)) dp True)"
proof (rule boots_insn [of 7])
  fix s :: hart and k assume s: "boot_view s = view r dc dp True" "pc s = 0x1001c" and k: "one_insn k"
  from s(1) have f: "priv s = PRV_M" "debug_mode s" "reg s = r" by (simp_all add: boot_view_def hart_view_def)
  obtain t k' where x: "exec_insn k s 0x7b041073 = (F_NEXT 4 (write_dcsr t (r 8)), k')" "same_but_counters s t" "insn_counter_addend k' = insn_counter_addend k"
    using exec_rom_csr(2) [OF k f(1,2)] f(3) by auto
  then show "\<exists>f k' t. exec_insn k s (ws ! 7) = (f, k') \<and> insn_counter_addend k' = insn_counter_addend k \<and> continues 0x1001c f = Some t
      \<and> boot_view t = view r ((dc AND NOT 0x603) OR (r 8 AND 0x603)) dp True \<and> pc t = 0x10020 \<and> tlb_code t = tlb_code s"
    using same_but_counters_fields [OF x(2)] s(1) unfolding words x(1)
    by (intro exI [of _ "F_NEXT 4 (write_dcsr t (r 8))"] exI [of _ k'] exI [of _ "(write_dcsr t (r 8))\<lparr>pc := 0x10020\<rparr>"])
      (simp add: boot_view_def hart_view_def write_dcsr_def Let_def)
qed (simp_all add: words)

lemma boots_dpc:
  "r 8 \<in> {0x80000000, 0x8000000000, 0xC000000000} \<Longrightarrow> boots ptr ws 1 0x10028 (view r dc dp True) 0x1002c (view r dc (r 8) True)"
proof (rule boots_insn [of 10])
  fix s :: hart and k assume a: "r 8 \<in> {0x80000000, 0x8000000000, 0xC000000000}" and s: "boot_view s = view r dc dp True" "pc s = 0x10028" and k: "one_insn k"
  from s(1) have f: "priv s = PRV_M" "debug_mode s" "reg s = r" by (simp_all add: boot_view_def hart_view_def)
  have "r 8 AND pc_align_mask s = r 8" using a by (auto simp: pc_align_mask_def)
  then obtain t k' where x: "exec_insn k s 0x7b141073 = (F_NEXT 4 (t\<lparr>dpc := r 8\<rparr>), k')" "same_but_counters s t" "insn_counter_addend k' = insn_counter_addend k"
    using exec_rom_csr(3) [OF k f(1,2)] f(3) by auto
  then show "\<exists>f k' t. exec_insn k s (ws ! 10) = (f, k') \<and> insn_counter_addend k' = insn_counter_addend k \<and> continues 0x10028 f = Some t
      \<and> boot_view t = view r dc (r 8) True \<and> pc t = 0x1002c \<and> tlb_code t = tlb_code s"
    using same_but_counters_fields [OF x(2)] s(1) unfolding words x(1)
    by (intro exI [of _ "F_NEXT 4 (t\<lparr>dpc := r 8\<rparr>)"] exI [of _ k'] exI [of _ "t\<lparr>dpc := r 8, pc := 0x1002c\<rparr>"])
      (simp add: boot_view_def hart_view_def)
qed (simp_all add: words)

lemma boots_dret: "dc AND 3 = 3 \<Longrightarrow> boots ptr ws 1 0x1002c (view r dc dp True) dp (view r dc dp False)"
proof (rule boots_insn [of 11])
  fix s :: hart and k assume a: "dc AND 3 = 3" and s: "boot_view s = view r dc dp True" "pc s = 0x1002c" and k: "one_insn k"
  from s(1) have f: "priv s = PRV_M" "debug_mode s" "dcsr s = dc" "dpc s = dp" by (simp_all add: boot_view_def hart_view_def)
  show "\<exists>f k' t. exec_insn k s (ws ! 11) = (f, k') \<and> insn_counter_addend k' = insn_counter_addend k \<and> continues 0x1002c f = Some t
      \<and> boot_view t = view r dc dp False \<and> pc t = dp \<and> tlb_code t = tlb_code s"
    using s(1) f a exec_rom_csr(4) [OF k f(1,2)] unfolding words
    by (intro exI [of _ "F_DONE (handle_dret s)"] exI [of _ k] exI [of _ "handle_dret s"])
      (simp add: boot_view_def hart_view_def handle_dret_def set_priv_def Let_def)
qed (simp_all add: words)

lemma boots_beqz:
  assumes "ncpus m = 1" and "r 0 = 0" and "r 10 = 0"
  shows "boots ptr ws 1 0x10004 (view r dc dp d) 0x10010 (view r dc dp d)"
proof (rule boots_insn [of 1])
  fix s :: hart and k assume s: "boot_view s = view r dc dp d" "pc s = 0x10004"
  then have "reg s 0 = 0" "reg s 10 = 0" using assms(2,3) by (simp_all add: boot_view_def hart_view_def)
  from exec_rom_beqz [OF this s(2), of k]
  show "\<exists>f k' t. exec_insn k s (ws ! 1) = (f, k') \<and> insn_counter_addend k' = insn_counter_addend k \<and> continues 0x10004 f = Some t
      \<and> boot_view t = view r dc dp d \<and> pc t = 0x10010 \<and> tlb_code t = tlb_code s"
    using s(1) unfolding words(9) [OF assms(1)]
    by (intro exI [of _ "F_JUMP ctf_taken_branch (s\<lparr>pc := 0x10010\<rparr>)"] exI [of _ k] exI [of _ "s\<lparr>pc := 0x10010\<rparr>"])
      (simp add: boot_view_def)
qed (simp_all add: words)

lemma boots_start:
  assumes "r 0 = 0" and "ncpus m = 1 \<Longrightarrow> hid = 0"
  shows "boots ptr ws (if ncpus m = 1 then 2 else 4) 0x10000 (view r dc dp True) 0x10010 (view (r(10 := hid)) dc dp True)"
proof (cases "ncpus m = 1")
  case True
  have "boots ptr ws 1 0x10004 (view (r(10 := hid)) dc dp True) 0x10010 (view (r(10 := hid)) dc dp True)"
    using assms True by (intro boots_beqz) simp_all
  from boots_comp [OF boots_mhartid this] show ?thesis using True by (simp add: numeral_eq_Suc)
next
  case False
  have n: "boots ptr ws 1 p (view (r(10 := hid)) dc dp True) (p + 4) (view (r(10 := hid)) dc dp True)"
    if "i \<in> {1, 2, 3}" "p = ROM_BASE_ADDR + of_nat (4 * i)" for i p
    using that words(1) words(10) [OF False] assms(1) by (intro boots_nop [of i]) auto
  note c = n [of 1 "0x10004", simplified] n [of 2 "0x10008", simplified] n [of 3 "0x1000c", simplified]
  from boots_comp [OF boots_comp [OF boots_comp [OF boots_mhartid c(1)] c(2)] c(3)] show ?thesis using False by (simp add: numeral_eq_Suc)
qed

lemma boots_base:
  assumes "r 0 = 0" and "ram_base_addr m \<in> {0x80000000, 0x8000000000, 0xC000000000}"
  shows "boots ptr ws 2 0x10020 (view r dc dp d) 0x10028 (view (r(8 := ram_base_addr m)) dc dp d)"
proof -
  define v :: u64 where "v = (if ram_base_addr m = 0xC000000000 then 3 else 1)"
  have w8: "boots ptr ws 1 0x10020 (view r dc dp d) 0x10024 (view (r(8 := v)) dc dp d)"
    using boots_write [of 8 "0x10020" r 8 v dc dp d] words(1,11-13) assms exec_rom_alu(5,6) by (auto simp: v_def)
  have w9: "boots ptr ws 1 0x10024 (view (r(8 := v)) dc dp d) 0x10028 (view ((r(8 := v))(8 := ram_base_addr m)) dc dp d)"
    using boots_write [of 9 "0x10024" "r(8 := v)" 8 "ram_base_addr m" dc dp d] words(1,11-13) assms exec_rom_alu(7-9) by (auto simp: v_def)
  from boots_comp [OF w8 w9] show ?thesis by (simp add: numeral_eq_Suc)
qed

lemma boots_all:
  assumes "r 0 = 0" and "ncpus m = 1 \<Longrightarrow> hid = 0" and "ram_base_addr m \<in> {0x80000000, 0x8000000000, 0xC000000000}"
  shows "boots ptr ws (if ncpus m = 1 then 10 else 12) ROM_BASE_ADDR (view r 0 dp True) (ram_base_addr m)
    (view (r(10 := hid, 11 := 0x10100, 8 := ram_base_addr m)) 0x603 (ram_base_addr m) False)"
proof -
  let ?r = "r(10 := hid)" and ?b = "ram_base_addr m"
  have 4: "boots ptr ws 1 0x10010 (view ?r 0 dp True) 0x10014 (view (?r(11 := 0x10010)) 0 dp True)"
    using boots_write [of 4 "0x10010" ?r 11 "0x10010" 0 dp True] words(1,3) assms(1) exec_rom_alu(2) by auto
  have 5: "boots ptr ws 1 0x10014 (view (?r(11 := 0x10010)) 0 dp True) 0x10018 (view (?r(11 := 0x10100)) 0 dp True)"
    using boots_write [of 5 "0x10014" "?r(11 := 0x10010)" 11 "0x10100" 0 dp True] words(1,4) assms(1) exec_rom_alu(3) by auto
  have 6: "boots ptr ws 1 0x10018 (view (?r(11 := 0x10100)) 0 dp True) 0x1001c (view (?r(11 := 0x10100, 8 := 1539)) 0 dp True)"
    using boots_write [of 6 "0x10018" "?r(11 := 0x10100)" 8 1539 0 dp True] words(1,5) assms(1) exec_rom_alu(4) by auto
  have 7: "boots ptr ws 1 0x1001c (view (?r(11 := 0x10100, 8 := 1539)) 0 dp True) 0x10020 (view (?r(11 := 0x10100, 8 := 1539)) 0x603 dp True)"
    using boots_dcsr [of "?r(11 := 0x10100, 8 := 1539)" 0 dp] by simp
  have 8: "boots ptr ws 2 0x10020 (view (?r(11 := 0x10100, 8 := 1539)) 0x603 dp True) 0x10028 (view (?r(11 := 0x10100, 8 := ?b)) 0x603 dp True)"
    using boots_base [of "?r(11 := 0x10100, 8 := 1539)" "0x603" dp True] assms(1,3) by simp
  have 9: "boots ptr ws 1 0x10028 (view (?r(11 := 0x10100, 8 := ?b)) 0x603 dp True) 0x1002c (view (?r(11 := 0x10100, 8 := ?b)) 0x603 ?b True)"
    using boots_dpc [of "?r(11 := 0x10100, 8 := ?b)" "0x603" dp] assms(3) by simp
  have 10: "boots ptr ws 1 0x1002c (view (?r(11 := 0x10100, 8 := ?b)) 0x603 ?b True) ?b (view (?r(11 := 0x10100, 8 := ?b)) 0x603 ?b False)"
    by (rule boots_dret) simp
  note boots_comp [OF boots_comp [OF boots_comp [OF boots_comp [OF boots_comp [OF boots_comp [OF boots_comp
    [OF boots_start [of r 0 dp, OF assms(1,2)] 4] 5] 6] 7] 8] 9] 10]
  then show ?thesis by (simp add: numeral_eq_Suc split: if_splits)
qed

end

interpretation reset: quiet_boot ptr "mhartid (riscv_cpu_init mr i)" "misa (riscv_cpu_init mr i)" "mip (riscv_cpu_init mr i)"
    "mie (riscv_cpu_init mr i)" "tdata2 (riscv_cpu_init mr i)" m for ptr mr i m
  by unfold_locales (simp_all add: riscv_cpu_init_def tlb_init_def zero_cpu_def)

section \<open>What copying the kernel leaves\<close>

definition only_memory :: "RISCVMachine \<Rightarrow> RISCVMachine \<Rightarrow> bool" where
  "only_memory m m' \<longleftrightarrow> (\<exists>mm h a. m' = m\<lparr>mem_map := mm, host_mem := h, htif_tohost_addr := a\<rparr>)"

lemma only_memory_fields:
  assumes "only_memory m m'"
  shows "cpu_state m' = cpu_state m" "ncpus m' = ncpus m" "ram_base_addr m' = ram_base_addr m" "compact_bootrom m' = compact_bootrom m"
  using assms by (auto simp: only_memory_def)

lemma only_memory_refl: "only_memory m m"
  unfolding only_memory_def by (intro exI [of _ "mem_map m"] exI [of _ "host_mem m"] exI [of _ "htif_tohost_addr m"]) simp

lemma only_memory_trans: "only_memory m m' \<Longrightarrow> only_memory m' m'' \<Longrightarrow> only_memory m m''"
  unfolding only_memory_def by fastforce

lemma only_memory_upd: "only_memory m (m\<lparr>host_mem := h\<rparr>)" "only_memory m (m\<lparr>mem_map := mm, host_mem := h\<rparr>)"
  "only_memory m (m\<lparr>htif_tohost_addr := a\<rparr>)"
proof -
  show "only_memory m (m\<lparr>host_mem := h\<rparr>)"
    unfolding only_memory_def by (intro exI [of _ "mem_map m"] exI [of _ h] exI [of _ "htif_tohost_addr m"]) simp
  show "only_memory m (m\<lparr>mem_map := mm, host_mem := h\<rparr>)"
    unfolding only_memory_def by (intro exI [of _ mm] exI [of _ h] exI [of _ "htif_tohost_addr m"]) simp
  show "only_memory m (m\<lparr>htif_tohost_addr := a\<rparr>)"
    unfolding only_memory_def by (intro exI [of _ "mem_map m"] exI [of _ "host_mem m"] exI [of _ a]) simp
qed

lemma copy_image_only: "copy_image buf a m = Some m' \<Longrightarrow> only_memory m m'"
  by (auto simp: copy_image_def only_memory_upd)

lemma load_segment_only: "load_segment im al sg m = Some m' \<Longrightarrow> only_memory m m'"
  by (auto simp: load_segment_def Let_def only_memory_upd(2) split: bind_splits if_splits prod.splits
      dest!: copy_image_only intro: only_memory_trans [OF only_memory_upd(2)])

lemma load_segments_only: "load_segments im al is m = Some m' \<Longrightarrow> only_memory m m'"
proof (induction "is" arbitrary: m)
  case (Cons i "is")
  then show ?case
    by (auto split: bind_splits option.splits dest: load_segment_only intro: only_memory_trans)
qed (simp add: only_memory_refl)

lemma load_firmware_only: "load_firmware fw al m = Loaded m' x y \<Longrightarrow> only_memory m m'"
  by (auto simp: load_firmware_def load_elf_image_def split: if_splits option.splits
      dest!: copy_image_only load_segments_only intro: only_memory_trans [OF _ only_memory_upd(3)])

lemma load_rest_only:
  "load_kernel buf m = Loaded m' x y \<Longrightarrow> only_memory m m'" "load_initrd buf m = Loaded m' x y \<Longrightarrow> only_memory m m'"
  by (auto simp: load_kernel_def load_initrd_def Let_def only_memory_refl split: if_splits option.splits dest!: copy_image_only)

lemma load_images_only:
  assumes "load_images fw al kernel_buf initrd m = Loaded m' x y"
  shows "only_memory m m'" "ram_base_addr m \<in> {0x80000000, 0x8000000000, 0xC000000000}"
proof -
  obtain m1 u v where f: "load_firmware fw al m = Loaded m1 u v" using assms by (auto simp: load_images_def split: load_result.splits)
  moreover from this assms obtain m2 u v where "load_kernel kernel_buf m1 = Loaded m2 u v" "load_initrd initrd m2 = Loaded m' x y"
    and b: "ram_base_addr m1 \<in> {0x80000000, 0x8000000000, 0xC000000000}"
    by (auto simp: load_images_def split: load_result.splits if_splits)
  ultimately show "only_memory m m'" using load_firmware_only load_rest_only only_memory_trans by metis
  show "ram_base_addr m \<in> {0x80000000, 0x8000000000, 0xC000000000}"
    using b only_memory_fields(3) [OF load_firmware_only [OF f]] by simp
qed

section \<open>The contents of the ROM\<close>

lemma store_words_other:
  "(\<And>j. j < 4 * length ws \<Longrightarrow> p \<noteq> q + of_nat j) \<Longrightarrow> store_words ws q h p = h p"
proof (induction ws arbitrary: q h)
  case (Cons w ws)
  have "p \<noteq> q + 4 + of_nat j" if "j < 4 * length ws" for j
    using Cons.prems [of "4 + j"] that by (simp add: add.assoc)
  then have "store_words (w # ws) q h p = store_le 4 h q (ucast w) p" using Cons.IH [of "q + 4"] by simp
  also have "\<dots> = h p" by (rule store_le_other) (use Cons.prems in simp)
  finally show ?case .
qed simp

lemma offset_neq: "i \<noteq> j \<Longrightarrow> i < 2 ^ 64 \<Longrightarrow> j < 2 ^ 64 \<Longrightarrow> p + of_nat i \<noteq> p + (of_nat j :: u64)"
  by (auto dest!: arg_cong [where f = unat] simp: unsigned_of_nat take_bit_nat_eq_self)

lemma store_words_at:
  "length ws < 2 ^ 32 \<Longrightarrow> i < length ws \<Longrightarrow> load_le 4 (store_words ws q h) (q + of_nat (4 * i)) = ucast (ws ! i)"
proof (induction ws arbitrary: q h i)
  case (Cons w ws)
  show ?case
  proof (cases i)
    case 0
    have "load_le 4 (store_words (w # ws) q h) q = load_le 4 (store_le 4 h q (ucast w)) q"
    proof (rule load_le_cong)
      fix k :: nat assume k: "k < 4"
      have "q + of_nat k \<noteq> q + 4 + of_nat j" if "j < 4 * length ws" for j
        using offset_neq [of k "4 + j" q] k that Cons.prems by (simp add: add.assoc)
      then show "store_words (w # ws) q h (q + of_nat k) = store_le 4 h q (ucast w) (q + of_nat k)"
        by (simp add: store_words_other)
    qed
    also have "\<dots> = take_bit 32 (ucast w)" using le.load_store [of 4 h q "ucast w"] by simp
    also have "\<dots> = ucast w" by (rule bit_word_eqI) (auto simp: bit_take_bit_iff bit_ucast_iff dest: bit_imp_le_length)
    finally show ?thesis using 0 by simp
  next
    case (Suc k)
    then show ?thesis using Cons.IH [of k "q + 4"] Cons.prems by (simp add: add.assoc)
  qed
qed simp

lemma memcpy_apart:
  assumes "k < 256" and "length bs < 2 ^ 32"
  shows "memcpy bs (q + 256) h (q + of_nat k) = h (q + of_nat k)"
proof -
  let ?x = "q + of_nat k - (q + 256) :: u64"
  have "\<not> unat ?x < length bs"
  proof
    assume "unat ?x < length bs"
    moreover have "unat (of_nat (256 - k) :: u64) = 256 - k" by (simp add: unsigned_of_nat take_bit_nat_eq_self)
    ultimately have "unat (?x + of_nat (256 - k)) = unat ?x + (256 - k)"
      using assms by (subst unat_add_lem [THEN iffD1]) simp_all
    moreover have "?x + of_nat (256 - k) = 0" using assms(1) by (simp add: of_nat_diff)
    ultimately show False using assms(1) by simp
  qed
  then show ?thesis using memcpy_at [of bs "q + 256" h "q + of_nat k"] assms by simp
qed

lemma set_debug_all_effect:
  "set_debug_all m = m\<lparr>cpu_state := (\<lambda>i. if i < ncpus m then riscv_set_debug_mode (cpu_state m i) True else cpu_state m i)\<rparr>"
proof -
  have "fold (\<lambda>i m. set_cpu i (riscv_set_debug_mode (cpu_state m i) True) m) [0..<n] m
      = m\<lparr>cpu_state := (\<lambda>i. if i < n then riscv_set_debug_mode (cpu_state m i) True else cpu_state m i)\<rparr>" for n
  proof (induction n)
    case (Suc n)
    then show ?case by (auto simp: set_cpu_def fun_eq_iff)
  qed simp
  then show ?thesis by (simp add: set_debug_all_def)
qed

text \<open>The machine after \<open>copy_kernel\<close> with the hard-coded boot ROM and the generated tree.\<close>

lemma copy_kernel_result:
  assumes "copy_kernel virtio_count fb files fw alloc m0 = Booted m" and "bf_bootrom files = None" and "bf_dtb files = None"
    and "\<not> compact_bootrom m0"
  obtains m1 start finish ptr blob where "only_memory m0 m1" "ram_base_addr m0 \<in> {0x80000000, 0x8000000000, 0xC000000000}"
    "get_ram_ptr m1 ROM_BASE_ADDR = Some ptr" "riscv_build_fdt m1 virtio_count fb (bf_cmdline files) start finish = Some blob"
    "m = set_debug_all (m1\<lparr>host_mem := memcpy blob (ptr + 256) (store_words (boot_words m1) ptr (host_mem m1))\<rparr>)"
proof -
  obtain m1 start finish where l: "load_images fw alloc (bf_kernel files) (bf_initrd files) m0 = Loaded m1 start finish"
    using assms(1) by (auto simp: copy_kernel_def split: load_result.splits)
  note only = load_images_only [OF l]
  obtain ptr where g: "get_ram_ptr m1 ROM_BASE_ADDR = Some ptr"
    using assms(1) l by (auto simp: copy_kernel_def split: option.splits)
  let ?m = "m1\<lparr>host_mem := store_words (boot_words m1) ptr (host_mem m1)\<rparr>"
  have b: "load_bootrom None ptr m1 = Some (52, ?m)" by (simp add: load_bootrom_def)
  have "fdt_offset ?m 52 = 256" using assms(4) only_memory_fields(4) [OF only(1)] by (simp add: fdt_offset_def)
  then obtain m3 where p: "place_fdt virtio_count fb (bf_can_dump files) None (bf_cmdline files) start finish (ptr + 256) ?m = Booted m3" "m = set_debug_all m3"
    using assms(1) unfolding copy_kernel_def l load_result.case g option.case assms(2,3) by (auto simp: b split: boot_result.splits)
  have "riscv_build_fdt ?m = riscv_build_fdt m1"
  proof (intro ext)
    fix a b c d e
    have "machine_tree ?m a b c d e = machine_tree m1 a b c d e"
      by (simp add: machine_tree_def cpu_tree_def clint_tree_def plic_tree_def virtio_tree_def hart_interrupts_def Let_def fun_eq_iff cong: map_cong)
    then show "riscv_build_fdt ?m a b c d e = riscv_build_fdt m1 a b c d e" by (simp add: riscv_build_fdt_def machine_node)
  qed
  with p show thesis
    by (auto simp: place_fdt_def split: option.splits if_splits intro: that [OF only g])
qed

lemma machine_tree_debug: "machine_tree (set_debug_all (m\<lparr>host_mem := h\<rparr>)) v fb c a b = machine_tree m v fb c a b"
proof -
  have "cpu_tree (set_debug_all (m\<lparr>host_mem := h\<rparr>)) i = cpu_tree m i" for i
    by (simp add: cpu_tree_def set_debug_all_effect riscv_set_debug_mode_def)
  moreover have "virtio_tree (set_debug_all (m\<lparr>host_mem := h\<rparr>)) i = virtio_tree m i" for i
    by (simp add: virtio_tree_def set_debug_all_effect)
  ultimately show ?thesis
    by (simp add: machine_tree_def clint_tree_def plic_tree_def hart_interrupts_def set_debug_all_effect cong: map_cong)
qed

text \<open>The ROM range of the memory map is backed by the block at \<open>ptr\<close>.\<close>

definition rom_block :: "RISCVMachine \<Rightarrow> u64 \<Rightarrow> bool" where
  "rom_block m ptr \<longleftrightarrow> unat ptr + unat ROM_SIZE < 2 ^ 64
     \<and> (\<forall>a. a - ROM_BASE_ADDR < ROM_SIZE \<longrightarrow> get_ram_ptr m a = Some (ptr + (a - ROM_BASE_ADDR)))"

lemma reset_hart_view:
  assumes "cpu_state m i = riscv_set_debug_mode ((riscv_cpu_init mr i)\<lparr>physical_addr_len := n\<rparr>) True"
  shows "boot_view (hart_of m i) = hart_view (mhartid (riscv_cpu_init mr i)) (misa (riscv_cpu_init mr i)) (mip (riscv_cpu_init mr i))
      (mie (riscv_cpu_init mr i)) (tdata2 (riscv_cpu_init mr i)) m (\<lambda>_. 0) 0 0 True"
    "pc (hart_of m i) = reset_vector mr" "vaddr (tlb_code (hart_of m i) (tlb_index ROM_BASE_ADDR)) \<noteq> ROM_BASE_ADDR" "machine (hart_of m i) = m"
  using assms by (simp_all add: hart_of_def RISCVCPUState.defs boot_view_def hart_view_def riscv_set_debug_mode_def riscv_cpu_init_def
      tlb_init_def zero_cpu_def tlb_invalidate_def tlb_index_less)

lemma rom_contents:
  assumes "rom_block m ptr" and "host_mem m = memcpy blob (ptr + 256) (store_words (boot_words m) ptr h)" and "length blob < 2 ^ 32"
    and "vaddr (tlb_code s (tlb_index ROM_BASE_ADDR)) \<noteq> ROM_BASE_ADDR" and "machine s = m"
  shows "rom_code ptr (boot_words m) s"
    and "\<And>j. j < length blob \<Longrightarrow> host_mem m (ptr + 256 + of_nat j) = blob ! j"
proof -
  have l: "length (boot_words m) = 12" by (simp add: boot_words_def)
  have "load_le 4 (host_mem m) (ptr + of_nat (4 * i)) = ucast (boot_words m ! i)" if i: "i < length (boot_words m)" for i
  proof -
    have "load_le 4 (host_mem m) (ptr + of_nat (4 * i)) = load_le 4 (store_words (boot_words m) ptr h) (ptr + of_nat (4 * i))"
    proof (rule load_le_cong)
      fix k :: nat assume "k < 4"
      then have "4 * i + k < 256" using i l by simp
      from memcpy_apart [OF this assms(3), of ptr] show "host_mem m (ptr + of_nat (4 * i) + of_nat k)
          = store_words (boot_words m) ptr h (ptr + of_nat (4 * i) + of_nat k)" by (simp add: assms(2) add.assoc)
    qed
    then show ?thesis using store_words_at [of "boot_words m" i ptr h] i l by simp
  qed
  then show "rom_code ptr (boot_words m) s" using assms(1,4,5) by (simp add: rom_code_def rom_block_def)
  fix j assume j: "j < length blob"
  then have "unat (of_nat j :: u64) = j" using assms(3) by (simp add: unsigned_of_nat take_bit_nat_eq_self)
  then show "host_mem m (ptr + 256 + of_nat j) = blob ! j"
    using memcpy_at [of blob "ptr + 256" _ "ptr + 256 + of_nat j"] j assms(2,3) by simp
qed

text \<open>
  C2. The boot ROM hands over to the firmware. Once the images, the boot ROM and the device tree have
  been placed, every hart that starts at the reset vector executes the ROM, instruction by
  instruction, without a trap and reaches the base of RAM after twelve instructions (ten on a
  machine with one hart): out of debug mode, in machine mode, with its number in a0 and in a1 the
  address where the device tree lies that describes the machine.
\<close>

theorem boot_reaches_firmware:
  assumes boot: "copy_kernel virtio_count fb files fw alloc m0 = Booted m"
    and files: "bf_bootrom files = None" "bf_dtb files = None" "\<not> compact_bootrom m0"
    and size: "ncpus m0 \<le> MAX_CPUS" "virtio_count < 32" "length (case bf_cmdline files of None \<Rightarrow> [] | Some c \<Rightarrow> c) < 2 ^ 31"
    and hart: "i < ncpus m0" "cpu_state m0 i = (riscv_cpu_init mr i)\<lparr>physical_addr_len := n\<rparr>" "reset_vector mr = BOOT_BASE_ADDR"
    and block: "rom_block m ptr"
  shows "\<exists>t blob start finish. interp_times (if ncpus m = 1 then 10 else 12) (hart_of m i) = Some t
    \<and> pc t = ram_base_addr m \<and> priv t = PRV_M \<and> \<not> debug_mode t \<and> machine t = m
    \<and> reg t 10 = of_nat i \<and> reg t 11 = ROM_BASE_ADDR + 256
    \<and> read_fdt blob = Some (machine_tree m virtio_count fb (bf_cmdline files) start finish)
    \<and> (\<forall>j < length blob. host_mem m (ptr + (reg t 11 - ROM_BASE_ADDR) + of_nat j) = blob ! j)"
proof -
  obtain m1 start finish ptr' blob where only: "only_memory m0 m1" and base: "ram_base_addr m0 \<in> {0x80000000, 0x8000000000, 0xC000000000}"
    and p: "get_ram_ptr m1 ROM_BASE_ADDR = Some ptr'" and f: "riscv_build_fdt m1 virtio_count fb (bf_cmdline files) start finish = Some blob"
    and m: "m = set_debug_all (m1\<lparr>host_mem := memcpy blob (ptr' + 256) (store_words (boot_words m1) ptr' (host_mem m1))\<rparr>)"
    using copy_kernel_result [OF boot files] .
  have m': "ncpus m = ncpus m0" "ram_base_addr m = ram_base_addr m0" "mem_map m = mem_map m1" "boot_words m = boot_words m1"
    "cpu_state m i = riscv_set_debug_mode ((riscv_cpu_init mr i)\<lparr>physical_addr_len := n\<rparr>) True"
    using only_memory_fields [OF only] hart by (simp_all add: m set_debug_all_effect boot_words_def)
  have "get_ram_ptr m = get_ram_ptr m1" by (simp add: fun_eq_iff get_ram_ptr_def m'(3) cong: option.case_cong)
  then have "ptr' = ptr" using p block by (auto simp: rom_block_def dest!: spec [of _ ROM_BASE_ADDR])
  then have mem: "host_mem m = memcpy blob (ptr + 256) (store_words (boot_words m) ptr (host_mem m1))"
    by (simp add: m'(4)) (simp add: m set_debug_all_effect)
  have size1: "ncpus m1 \<le> MAX_CPUS" using size(1) only_memory_fields(2) [OF only] by simp
  obtain blob' where "riscv_build_fdt m1 virtio_count fb (bf_cmdline files) start finish = Some blob'"
    and tree: "read_fdt blob' = Some (machine_tree m1 virtio_count fb (bf_cmdline files) start finish)" "length blob' < 2 ^ 32"
    using machine_blob [OF size1 size(2,3)] by metis
  then have [simp]: "blob' = blob" using f by simp
  note view = reset_hart_view [OF m'(5)]
  note rom = rom_contents [OF block mem _ view(3,4)]
  have hid: "mhartid (riscv_cpu_init mr i) = of_nat i" by (simp add: cpu_init_fields)
  have "ncpus m = 1 \<Longrightarrow> mhartid (riscv_cpu_init mr i) = 0" using hart(1) m'(1) hid by simp
  note run = reset.boots_all [where r = "\<lambda>_. 0" and ptr = ptr and dp = 0 and m = m and mr = mr and i = i, OF refl this, unfolded m'(2), OF _ base, folded m'(2)]
  from run obtain t where t: "interp_times (if ncpus m = 1 then 10 else 12) (hart_of m i) = Some t" "pc t = ram_base_addr m"
    "boot_view t = hart_view (mhartid (riscv_cpu_init mr i)) (misa (riscv_cpu_init mr i)) (mip (riscv_cpu_init mr i))
      (mie (riscv_cpu_init mr i)) (tdata2 (riscv_cpu_init mr i)) m ((\<lambda>_. 0)(10 := mhartid (riscv_cpu_init mr i), 11 := 0x10100, 8 := ram_base_addr m)) 0x603 (ram_base_addr m) False"
    using view hart(3) rom(1) tree(2) m'(2) unfolding boots_def by (auto simp del: fun_upd_apply)
  have r: "priv t = PRV_M" "\<not> debug_mode t" "machine t = m" "reg t 10 = of_nat i" "reg t 11 = ROM_BASE_ADDR + 256"
    using t(3) hid by (simp_all add: boot_view_def hart_view_def)
  have tree': "read_fdt blob = Some (machine_tree m virtio_count fb (bf_cmdline files) start finish)"
    using tree(1) by (simp add: m machine_tree_debug)
  have "\<forall>j < length blob. host_mem m (ptr + (reg t 11 - ROM_BASE_ADDR) + of_nat j) = blob ! j"
    using rom(2) tree(2) by (simp add: r(5))
  with t(1,2) r tree' show ?thesis by blast
qed

definition boot_machine :: RISCVMachine where
  "boot_machine = zero_machine\<lparr>ncpus := 1, ram_base_addr := 0x80000000, ram_size := 0x4000,
     cpu_state := (\<lambda>i. (riscv_cpu_init (zero_machine\<lparr>reset_vector := BOOT_BASE_ADDR\<rparr>) i)\<lparr>physical_addr_len := 40\<rparr>),
     mem_map := (set_range (set_range phys_mem_map_init
         0 ((phys_mem_range phys_mem_map_init 0)\<lparr>pr_addr := 0x80000000, pr_size := 0x4000, is_ram := True, phys_mem := 0x30000\<rparr>))
         1 ((phys_mem_range phys_mem_map_init 0)\<lparr>pr_addr := ROM_BASE_ADDR, pr_size := ROM_SIZE, is_ram := True, phys_mem := 0x20000\<rparr>))
       \<lparr>n_phys_mem_range := 2\<rparr>\<rparr>"

definition boot_images :: boot_files where
  "boot_images = \<lparr>bf_bios = Some image_firmware, bf_kernel = [], bf_initrd = [], bf_bootrom = None, bf_dtb = None, bf_cmdline = None, bf_can_dump = True\<rparr>"

lemma boot_machine_ptr:
  "a - ROM_BASE_ADDR < ROM_SIZE \<Longrightarrow> get_ram_ptr boot_machine a = Some (0x20000 + (a - ROM_BASE_ADDR))"
  "get_ram_ptr boot_machine 0x80000000 = Some 0x30000"
proof -
  have r: "find_range mm x 2 = (if in_range (phys_mem_range mm 1) x then Some 1 else if in_range (phys_mem_range mm 0) x then Some 0 else None)" for mm x
    by (simp add: numeral_2_eq_2)
  show "a - ROM_BASE_ADDR < ROM_SIZE \<Longrightarrow> get_ram_ptr boot_machine a = Some (0x20000 + (a - ROM_BASE_ADDR))"
    "get_ram_ptr boot_machine 0x80000000 = Some 0x30000"
    using offset_in_range [of a ROM_BASE_ADDR ROM_SIZE]
    by (simp_all add: boot_machine_def get_ram_ptr_def get_phys_mem_range_def r in_range_def set_range_def Let_def)
qed

lemma boot_machine_boots: "\<exists>m. copy_kernel 0 None boot_images image_firmware (\<lambda>_. 0) boot_machine = Booted m \<and> rom_block m 0x20000 \<and> ncpus m = 1"
proof -
  define m1 where "m1 = boot_machine\<lparr>host_mem := memcpy [1, 2] 0x30000 (host_mem boot_machine)\<rparr>"
  define m2 where "m2 = m1\<lparr>host_mem := store_words (boot_words m1) 0x20000 (host_mem m1)\<rparr>"
  have f: "\<not> elf64_is_riscv64 image_firmware" "img_bytes image_firmware = [1, 2]" by (simp_all add: image_firmware_def elf64_is_riscv64_def)
  have b: "ram_base_addr boot_machine = 0x80000000" "ram_size boot_machine = 0x4000" "ncpus boot_machine = 1" "\<not> compact_bootrom boot_machine"
    by (simp_all add: boot_machine_def zero_machine_def)
  have l: "load_images image_firmware (\<lambda>_. 0) [] [] boot_machine = Loaded m1 0 0"
    by (simp add: load_images_def load_firmware_def f b copy_image_def boot_machine_ptr(2) load_kernel_def load_initrd_def m1_def)
  have n: "ncpus m2 = 1" "\<not> compact_bootrom m2" "get_ram_ptr m1 = get_ram_ptr boot_machine" "get_ram_ptr m2 = get_ram_ptr boot_machine"
    using b by (simp_all add: m1_def m2_def)
  obtain blob where t: "riscv_build_fdt m2 0 None None 0 0 = Some blob"
    using machine_blob [of m2 0 None None 0 0] n by auto
  let ?m = "set_debug_all (m2\<lparr>host_mem := memcpy blob 0x20100 (host_mem m2)\<rparr>)"
  have i: "bf_kernel boot_images = []" "bf_initrd boot_images = []" "bf_bootrom boot_images = None" "bf_dtb boot_images = None"
    "bf_cmdline boot_images = None" "bf_can_dump boot_images" by (simp_all add: boot_images_def)
  have "load_bootrom None 0x20000 m1 = Some (52, m2)" "fdt_offset m2 52 = 256" using n(2) by (simp_all add: load_bootrom_def m2_def fdt_offset_def)
  then have "copy_kernel 0 None boot_images image_firmware (\<lambda>_. 0) boot_machine = Booted ?m"
    using boot_machine_ptr(1) [of ROM_BASE_ADDR] unfolding copy_kernel_def i(1-5) l load_result.case n(3) by (simp add: place_fdt_def t i(6))
  moreover have "get_ram_ptr ?m = get_ram_ptr boot_machine"
    unfolding n(4) [symmetric] by (simp add: set_debug_all_effect get_ram_ptr_def fun_eq_iff cong: option.case_cong)
  then have "rom_block ?m 0x20000" using boot_machine_ptr(1) by (simp add: rom_block_def)
  moreover have "ncpus ?m = 1" using n(1) by (simp add: set_debug_all_effect)
  ultimately show ?thesis by blast
qed

theorem boot_reaches_firmware_witness:
  "\<exists>m t. copy_kernel 0 None boot_images image_firmware (\<lambda>_. 0) boot_machine = Booted m
     \<and> interp_times 10 (hart_of m 0) = Some t \<and> reg t 10 = 0 \<and> reg t 11 = 0x10100"
proof -
  obtain m where m: "copy_kernel 0 None boot_images image_firmware (\<lambda>_. 0) boot_machine = Booted m" "rom_block m 0x20000" "ncpus m = 1"
    using boot_machine_boots by blast
  have f: "bf_bootrom boot_images = None" "bf_dtb boot_images = None" "bf_cmdline boot_images = None" by (simp_all add: boot_images_def)
  have b: "ncpus boot_machine = 1" "\<not> compact_bootrom boot_machine"
    "cpu_state boot_machine 0 = (riscv_cpu_init (zero_machine\<lparr>reset_vector := BOOT_BASE_ADDR\<rparr>) 0)\<lparr>physical_addr_len := 40\<rparr>"
    by (simp_all add: boot_machine_def zero_machine_def)
  from boot_reaches_firmware [OF m(1) f(1,2) b(2) _ _ _ _ b(3) _ m(2)] show ?thesis
    using m b(1) f(3) by auto
qed

end
