(* ===== verification/Spec2Isabelle.thy ===== *)
theory Spec2Isabelle
  imports Cosim_Laws Compressed_Laws Fault_Laws Boot_Run
begin

text \<open>
  \<^bold>\<open>Verification of the Dromajo RISC-V emulator\<close> (\<^verbatim>\<open>cva6/corev_apu/tb/dromajo/src\<close>).

  Plan of the library:
  \<^item> \<open>Prelude\<close>, \<open>Riscv_Const\<close>, \<open>Cpu_State\<close>: shared vocabulary, constants, state records;
  \<^item> \<open>Int_Arith\<close>: multiply and divide helpers of \<^verbatim>\<open>dromajo_template.h\<close>;
  \<^item> \<open>Iomem\<close>, \<open>Devices\<close>: physical memory map, CLINT, PLIC, UARTs;
  \<^item> \<open>Csr\<close>, \<open>Trap\<close>: control registers, traps and interrupts of \<^verbatim>\<open>riscv_cpu.cpp\<close>;
  \<^item> \<open>Mmu\<close>: TLBs, page walk, memory access, instruction fetch;
  \<^item> \<open>Exec_*\<close>, \<open>Interp\<close>: the instruction interpreter;
  \<^item> \<open>Snapshot\<close>, \<open>Cosim\<close>, \<open>Softfp\<close>: boot ROM generation, co-simulation, floating point.
\<close>

end
